theory Spec2Isabelle
  imports Complex_Main
begin

chapter \<open>The position lifecycle of algobot: model\<close>

text \<open>
  The theory embeds the parts of the trading bot that its specification makes claims
  about: the quantity rules of \<^verbatim>\<open>src/core/asset.py\<close>, the position state machine of
  \<^verbatim>\<open>src/core/position.py\<close>, the deserialisation of
  \<^verbatim>\<open>src/repositories/file_position_repository.py\<close>, the close operation of
  \<^verbatim>\<open>src/services/position_service.py\<close>, the signal dispatch of
  \<^verbatim>\<open>src/services/signal_processor.py\<close> and the way the repository writes its file.
  The first part holds every definition, the second part the properties.
\<close>

section \<open>Python values\<close>

subsection \<open>Exceptions\<close>

text \<open>
  Every \<^verbatim>\<open>raise\<close> of the source is a value \<open>Inl e\<close>. The constructor is the Python
  exception class, the string its message (interpolated numbers are left out of the
  message text). \<open>ExchangeError\<close> stands for whatever the exchange adapter raises.
\<close>

datatype error =
    ValueError string
  | KeyError string
  | TypeError string
  | AttributeError string
  | UnboundLocalError string
  | InvalidOperation
  | DivisionByZero
  | ExchangeError string

fun error_str :: "error \<Rightarrow> string" where
  "error_str (ValueError m) = m"
| "error_str (KeyError m) = m"
| "error_str (TypeError m) = m"
| "error_str (AttributeError m) = m"
| "error_str (UnboundLocalError m) = m"
| "error_str InvalidOperation = ''[<class 'decimal.ConversionSyntax'>]''"
| "error_str DivisionByZero = ''[<class 'decimal.DivisionByZero'>]''"
| "error_str (ExchangeError m) = m"

definition try_bind :: "error + 'a \<Rightarrow> ('a \<Rightarrow> error + 'b) \<Rightarrow> error + 'b" where
  "try_bind m f = (case m of Inl e \<Rightarrow> Inl e | Inr x \<Rightarrow> f x)"

fun map_err :: "('a \<Rightarrow> error + 'b) \<Rightarrow> 'a list \<Rightarrow> error + 'b list" where
  "map_err f [] = Inr []"
| "map_err f (x # xs) =
     try_bind (f x) (\<lambda>y. try_bind (map_err f xs) (\<lambda>ys. Inr (y # ys)))"

subsection \<open>Decimal\<close>

text \<open>
  A finite \<^verbatim>\<open>decimal.Decimal\<close> is a coefficient and an exponent: \<open>Decimal c e\<close> is
  \<open>c * 10 ^ e\<close>. The sign is the sign of the coefficient (a negative zero is read as
  zero); NaN and the infinities are not values of the model. The source never changes the
  arithmetic context, so every operation runs under the default one: a precision of 28
  significant digits, rounding \<^verbatim>\<open>ROUND_HALF_EVEN\<close>, and the trap of
  \<^verbatim>\<open>decimal.InvalidOperation\<close> enabled. Constructing a decimal and comparing two decimals
  are exact whatever the number of digits; \<^verbatim>\<open>-\<close> and \<^verbatim>\<open>*\<close> round their exact result to
  the precision; \<^verbatim>\<open>//\<close> and \<^verbatim>\<open>quantize\<close> raise when their result needs more digits than
  the precision. The exponent limits of the context (\<^verbatim>\<open>Emax = 999999\<close>, \<^verbatim>\<open>Emin = -999999\<close>)
  are not part of the model: exponents are unbounded integers.
\<close>

datatype decimal = Decimal (coef: int) (expo: int)

definition dval :: "decimal \<Rightarrow> rat" where
  "dval d = of_int (coef d) * 10 powi (expo d)"

text \<open>Both coefficients at the smaller of the two exponents.\<close>

definition align :: "decimal \<Rightarrow> decimal \<Rightarrow> int \<times> int" where
  "align a b =
     (let m = min (expo a) (expo b)
      in (coef a * 10 ^ nat (expo a - m), coef b * 10 ^ nat (expo b - m)))"

definition dec_lt :: "decimal \<Rightarrow> decimal \<Rightarrow> bool" where
  "dec_lt a b = (case align a b of (x, y) \<Rightarrow> x < y)"

definition dec_le :: "decimal \<Rightarrow> decimal \<Rightarrow> bool" where
  "dec_le a b = (case align a b of (x, y) \<Rightarrow> x \<le> y)"

definition dec_eq :: "decimal \<Rightarrow> decimal \<Rightarrow> bool" where
  "dec_eq a b = (case align a b of (x, y) \<Rightarrow> x = y)"

definition dec_zero :: decimal where
  "dec_zero = Decimal 0 0"

definition dec_pos :: "decimal \<Rightarrow> bool" where
  "dec_pos d = (0 < coef d)"

text \<open>The precision of the context, and the number of digits of a coefficient.\<close>

definition prec :: nat where
  "prec = 28"

fun ndigits :: "nat \<Rightarrow> nat" where
  "ndigits n = (if n < 10 then 1 else Suc (ndigits (n div 10)))"

declare ndigits.simps [simp del]

text \<open>
  \<open>round_half_even c k\<close> is \<open>c / 10 ^ k\<close> for \<open>0 < k\<close>, rounded to the nearest integer, a
  tie to the even one.
\<close>

definition round_half_even :: "nat \<Rightarrow> nat \<Rightarrow> nat" where
  "round_half_even c k =
     (let q = c div 10 ^ k; r = c mod 10 ^ k; h = 5 * 10 ^ (k - 1)
      in if h < r \<or> (r = h \<and> odd q) then q + 1 else q)"

text \<open>
  What the context does to the exact result of an operation (\<^verbatim>\<open>Decimal._fix\<close>): a
  coefficient of more than 28 digits is rounded to 28 digits, the exponent raised by the
  number of digits dropped; when rounding up carries into a 29th digit, the last digit (a
  zero) is dropped as well.
\<close>

definition dec_fix :: "decimal \<Rightarrow> decimal" where
  "dec_fix d =
     (let n = ndigits (nat \<bar>coef d\<bar>)
      in if n \<le> prec then d
         else
           (let k = n - prec; m = round_half_even (nat \<bar>coef d\<bar>) k
            in if prec < ndigits m
               then Decimal (sgn (coef d) * int (m div 10)) (expo d + int k + 1)
               else Decimal (sgn (coef d) * int m) (expo d + int k)))"

definition dec_sub :: "decimal \<Rightarrow> decimal \<Rightarrow> decimal" where
  "dec_sub a b =
     (case align a b of (x, y) \<Rightarrow> dec_fix (Decimal (x - y) (min (expo a) (expo b))))"

definition dec_mul :: "decimal \<Rightarrow> decimal \<Rightarrow> decimal" where
  "dec_mul a b = dec_fix (Decimal (coef a * coef b) (expo a + expo b))"

text \<open>
  \<^verbatim>\<open>a // b\<close> on decimals is the integer part of the quotient, truncated towards zero,
  with exponent 0; a quotient of more than 28 digits raises \<^verbatim>\<open>decimal.InvalidOperation\<close>
  (the signal \<^verbatim>\<open>DivisionImpossible\<close>). The source only divides by a step size it has
  tested to be positive.
\<close>

definition dec_floordiv :: "decimal \<Rightarrow> decimal \<Rightarrow> error + decimal" where
  "dec_floordiv a b =
     (case align a b of
        (x, y) \<Rightarrow>
          if y = 0 then Inl (if x = 0 then InvalidOperation else DivisionByZero)
          else if \<bar>x\<bar> div \<bar>y\<bar> < 10 ^ prec
            then Inr (Decimal (sgn x * sgn y * (\<bar>x\<bar> div \<bar>y\<bar>)) 0)
          else Inl InvalidOperation)"

text \<open>
  \<^verbatim>\<open>a.quantize(s, rounding=ROUND_DOWN)\<close>: \<open>a\<close> at the exponent of \<open>s\<close>, truncated. When the
  coefficient at that exponent would have more than 28 digits the call raises
  \<^verbatim>\<open>decimal.InvalidOperation\<close>.
\<close>

definition quantize_down :: "decimal \<Rightarrow> decimal \<Rightarrow> error + decimal" where
  "quantize_down a s =
     (if coef a = 0 then Inr (Decimal 0 (expo s))
      else if int prec < int (ndigits (nat \<bar>coef a\<bar>)) + expo a - expo s then Inl InvalidOperation
      else if expo s \<le> expo a then Inr (Decimal (coef a * 10 ^ nat (expo a - expo s)) (expo s))
      else Inr (Decimal (sgn (coef a) * (\<bar>coef a\<bar> div 10 ^ nat (expo s - expo a))) (expo s)))"

text \<open>
  The builtins \<^verbatim>\<open>max(a, b)\<close> and \<^verbatim>\<open>min(a, b)\<close> return their first argument unless the
  second is strictly larger (smaller).
\<close>

definition py_max :: "decimal \<Rightarrow> decimal \<Rightarrow> decimal" where
  "py_max a b = (if dec_lt a b then b else a)"

definition py_min :: "decimal \<Rightarrow> decimal \<Rightarrow> decimal" where
  "py_min a b = (if dec_lt b a then b else a)"

subsection \<open>Strings of digits\<close>

definition digit_char :: "nat \<Rightarrow> char" where
  "digit_char d = char_of (48 + d)"

definition is_digit :: "char \<Rightarrow> bool" where
  "is_digit c = (48 \<le> (of_char c :: nat) \<and> (of_char c :: nat) \<le> 57)"

definition digit_val :: "char \<Rightarrow> nat" where
  "digit_val c = of_char c - 48"

fun digits_of :: "nat \<Rightarrow> string" where
  "digits_of n = (if n < 10 then [digit_char n] else digits_of (n div 10) @ [digit_char (n mod 10)])"

declare digits_of.simps [simp del]

text \<open>\<^verbatim>\<open>int(s)\<close> on a string of digits.\<close>

definition int_of_digits :: "string \<Rightarrow> nat" where
  "int_of_digits s = foldl (\<lambda>acc c. 10 * acc + digit_val c) 0 s"

text \<open>\<^verbatim>\<open>"%+d" % n\<close>.\<close>

definition signed_str :: "int \<Rightarrow> string" where
  "signed_str n = (if n < 0 then ''-'' else ''+'') @ digits_of (nat \<bar>n\<bar>)"

text \<open>\<^verbatim>\<open>"%0wd" % n\<close>: \<open>n\<close> padded with zeros to the width \<open>w\<close>.\<close>

definition zero_pad :: "nat \<Rightarrow> nat \<Rightarrow> string" where
  "zero_pad w n = replicate (w - length (digits_of n)) (CHR ''0'') @ digits_of n"

definition py_isspace :: "char \<Rightarrow> bool" where
  "py_isspace c = (c \<in> {CHR '' '', CHR 0x09, CHR 0x0A, CHR 0x0B, CHR 0x0C, CHR 0x0D})"

definition py_strip :: "string \<Rightarrow> string" where
  "py_strip s = rev (dropWhile py_isspace (rev (dropWhile py_isspace s)))"

definition upper_char :: "char \<Rightarrow> char" where
  "upper_char c =
     (let n = (of_char c :: nat) in if 97 \<le> n \<and> n \<le> 122 then char_of (n - 32) else c)"

text \<open>\<^verbatim>\<open>s.upper()\<close> on ASCII text.\<close>

definition py_upper :: "string \<Rightarrow> string" where
  "py_upper s = map upper_char s"

definition startswith :: "string \<Rightarrow> string \<Rightarrow> bool" where
  "startswith s pre = (take (length pre) s = pre)"

definition endswith :: "string \<Rightarrow> string \<Rightarrow> bool" where
  "endswith s suf = (length suf \<le> length s \<and> drop (length s - length suf) s = suf)"

subsection \<open>Decimal to string and back\<close>

text \<open>
  \<^verbatim>\<open>str(d)\<close> is the scientific string of the decimal arithmetic specification, as
  \<^verbatim>\<open>Decimal.__str__\<close> computes it: plain notation when the exponent is at most 0 and
  more than \<open>-6\<close> digits stand left of the point, else one digit before the point and
  an exponent.
\<close>

definition dec_str :: "decimal \<Rightarrow> string" where
  "dec_str d =
     (let ds = digits_of (nat \<bar>coef d\<bar>);
          leftdigits = expo d + int (length ds);
          dotplace = (if expo d \<le> 0 \<and> - 6 < leftdigits then leftdigits else 1);
          intpart =
            (if dotplace \<le> 0 then ''0''
             else if int (length ds) \<le> dotplace
               then ds @ replicate (nat (dotplace - int (length ds))) (CHR ''0'')
             else take (nat dotplace) ds);
          fracpart =
            (if dotplace \<le> 0 then ''.'' @ replicate (nat (- dotplace)) (CHR ''0'') @ ds
             else if int (length ds) \<le> dotplace then ''''
             else ''.'' @ drop (nat dotplace) ds);
          ex = (if leftdigits = dotplace then '''' else ''E'' @ signed_str (leftdigits - dotplace))
      in (if coef d < 0 then ''-'' else '''') @ intpart @ fracpart @ ex)"

text \<open>An optional sign \<^verbatim>\<open>[-+]\<close>.\<close>

fun split_sign :: "string \<Rightarrow> int \<times> string" where
  "split_sign [] = (1, [])"
| "split_sign (c # cs) =
     (if c = CHR ''-'' then (- 1, cs) else if c = CHR ''+'' then (1, cs) else (1, c # cs))"

text \<open>The exponent after \<^verbatim>\<open>E\<close>: \<^verbatim>\<open>[-+]?\d+\<close> up to the end of the string.\<close>

definition parse_exponent :: "string \<Rightarrow> int option" where
  "parse_exponent s =
     (case split_sign s of
        (sg, ds) \<Rightarrow>
          if ds \<noteq> [] \<and> list_all is_digit ds then Some (sg * int (int_of_digits ds)) else None)"

text \<open>
  \<^verbatim>\<open>Decimal(s)\<close> for a string: surrounding whitespace and underscores are dropped, then
  the string must be a number of the form \<^verbatim>\<open>[-+]? digits* (. digits*)? (E [-+]? digits+)?\<close>
  with a digit in its integer or fractional part. \<open>None\<close> is the exception
  \<^verbatim>\<open>decimal.InvalidOperation\<close>; the spellings of NaN and Infinity, which are no finite
  decimals, are not read.
\<close>

definition dec_parse :: "string \<Rightarrow> decimal option" where
  "dec_parse s =
     (let s1 = filter (\<lambda>c. c \<noteq> CHR ''_'') (py_strip s);
          sg = fst (split_sign s1);
          s2 = snd (split_sign s1);
          ip = takeWhile is_digit s2;
          r1 = dropWhile is_digit s2;
          has_frac = (r1 \<noteq> [] \<and> hd r1 = CHR ''.'');
          fp = (if has_frac then takeWhile is_digit (tl r1) else []);
          r2 = (if has_frac then dropWhile is_digit (tl r1) else r1);
          ex = (if r2 = [] then Some 0
                else if hd r2 = CHR ''E'' \<or> hd r2 = CHR ''e'' then parse_exponent (tl r2)
                else None)
      in if ip = [] \<and> fp = [] then None
         else (case ex of
                 None \<Rightarrow> None
               | Some e \<Rightarrow> Some (Decimal (sg * int (int_of_digits (ip @ fp))) (e - int (length fp)))))"

subsection \<open>Timestamps\<close>

text \<open>
  A naive \<^verbatim>\<open>datetime\<close>, as \<^verbatim>\<open>datetime.now()\<close> returns it. \<^verbatim>\<open>isoformat()\<close> writes
  \<^verbatim>\<open>YYYY-MM-DDTHH:MM:SS\<close>, followed by \<^verbatim>\<open>.ffffff\<close> when the microseconds are not zero.
  \<^verbatim>\<open>datetime.fromisoformat\<close> is modelled on these two layouts; any other string is a
  \<^verbatim>\<open>ValueError\<close> here.
\<close>

datatype datetime =
  Datetime (dt_year: nat) (dt_month: nat) (dt_day: nat)
           (dt_hour: nat) (dt_minute: nat) (dt_second: nat) (dt_microsecond: nat)

definition is_leap :: "nat \<Rightarrow> bool" where
  "is_leap y = (y mod 4 = 0 \<and> (y mod 100 \<noteq> 0 \<or> y mod 400 = 0))"

definition days_in_month :: "nat \<Rightarrow> nat \<Rightarrow> nat" where
  "days_in_month y m =
     (if m = 2 then (if is_leap y then 29 else 28)
      else if m = 4 \<or> m = 6 \<or> m = 9 \<or> m = 11 then 30 else 31)"

definition valid_datetime :: "datetime \<Rightarrow> bool" where
  "valid_datetime t =
     (1 \<le> dt_year t \<and> dt_year t \<le> 9999 \<and> 1 \<le> dt_month t \<and> dt_month t \<le> 12
      \<and> 1 \<le> dt_day t \<and> dt_day t \<le> days_in_month (dt_year t) (dt_month t)
      \<and> dt_hour t < 24 \<and> dt_minute t < 60 \<and> dt_second t < 60 \<and> dt_microsecond t < 1000000)"

definition isoformat :: "datetime \<Rightarrow> string" where
  "isoformat t =
     zero_pad 4 (dt_year t) @ ''-'' @ zero_pad 2 (dt_month t) @ ''-'' @ zero_pad 2 (dt_day t)
     @ ''T'' @ zero_pad 2 (dt_hour t) @ '':'' @ zero_pad 2 (dt_minute t)
     @ '':'' @ zero_pad 2 (dt_second t)
     @ (if dt_microsecond t = 0 then '''' else ''.'' @ zero_pad 6 (dt_microsecond t))"

text \<open>The \<open>n\<close> digits of \<open>s\<close> from position \<open>i\<close>, as a number.\<close>

definition number_at :: "string \<Rightarrow> nat \<Rightarrow> nat \<Rightarrow> nat option" where
  "number_at s i n =
     (let f = take n (drop i s)
      in if length f = n \<and> list_all is_digit f then Some (int_of_digits f) else None)"

definition fromisoformat :: "string \<Rightarrow> error + datetime" where
  "fromisoformat s =
     (if (length s = 19 \<or> (length s = 26 \<and> s ! 19 = CHR ''.''))
         \<and> s ! 4 = CHR ''-'' \<and> s ! 7 = CHR ''-'' \<and> s ! 10 = CHR ''T''
         \<and> s ! 13 = CHR '':'' \<and> s ! 16 = CHR '':''
      then
        (case (number_at s 0 4, number_at s 5 2, number_at s 8 2, number_at s 11 2,
               number_at s 14 2, number_at s 17 2,
               if length s = 26 then number_at s 20 6 else Some 0) of
           (Some y, Some mo, Some d, Some h, Some mi, Some sec, Some us) \<Rightarrow>
             (let t = Datetime y mo d h mi sec us
              in if valid_datetime t then Inr t
                 else Inl (ValueError ''Invalid isoformat string''))
         | _ \<Rightarrow> Inl (ValueError ''Invalid isoformat string''))
      else Inl (ValueError ''Invalid isoformat string''))"

subsection \<open>JSON values and dictionaries\<close>

text \<open>
  The values that \<^verbatim>\<open>json.load\<close> returns and \<^verbatim>\<open>json.dump\<close> writes (floats apart, which the
  persisted records do not hold: every decimal is written as a string). A dictionary keeps
  its items in insertion order.
\<close>

datatype json =
    JNull
  | JBool bool
  | JInt int
  | JStr string
  | JList "json list"
  | JObj "(string \<times> json) list"

text \<open>Truth value testing: \<^verbatim>\<open>if x:\<close>.\<close>

fun truthy :: "json \<Rightarrow> bool" where
  "truthy JNull = False"
| "truthy (JBool b) = b"
| "truthy (JInt i) = (i \<noteq> 0)"
| "truthy (JStr s) = (s \<noteq> [])"
| "truthy (JList xs) = (xs \<noteq> [])"
| "truthy (JObj kvs) = (kvs \<noteq> [])"

text \<open>\<^verbatim>\<open>d[k]\<close> and \<^verbatim>\<open>d.get(k, default)\<close>.\<close>

definition dict_item :: "(string \<times> json) list \<Rightarrow> string \<Rightarrow> error + json" where
  "dict_item d k = (case map_of d k of None \<Rightarrow> Inl (KeyError k) | Some v \<Rightarrow> Inr v)"

definition dict_get :: "(string \<times> json) list \<Rightarrow> string \<Rightarrow> json \<Rightarrow> json" where
  "dict_get d k dflt = (case map_of d k of None \<Rightarrow> dflt | Some v \<Rightarrow> v)"

text \<open>
  The source is dynamically typed; the model is not. Where a field of a record is read
  into a typed field of the model, a JSON value of another type is a \<^verbatim>\<open>TypeError\<close> of the
  model.
\<close>

fun as_dict :: "json \<Rightarrow> error + (string \<times> json) list" where
  "as_dict (JObj kvs) = Inr kvs"
| "as_dict _ = Inl (TypeError ''expected a dict'')"

fun as_list :: "json \<Rightarrow> error + json list" where
  "as_list (JList xs) = Inr xs"
| "as_list _ = Inl (TypeError ''expected a list'')"

fun as_str :: "json \<Rightarrow> error + string" where
  "as_str (JStr s) = Inr s"
| "as_str _ = Inl (TypeError ''expected a str'')"

fun as_opt_str :: "json \<Rightarrow> error + string option" where
  "as_opt_str JNull = Inr None"
| "as_opt_str (JStr s) = Inr (Some s)"
| "as_opt_str _ = Inl (TypeError ''expected a str or None'')"

fun as_int :: "json \<Rightarrow> error + int" where
  "as_int (JInt i) = Inr i"
| "as_int _ = Inl (TypeError ''expected an int'')"

text \<open>\<^verbatim>\<open>Decimal(x)\<close> for a value read from a record.\<close>

fun to_Decimal :: "json \<Rightarrow> error + decimal" where
  "to_Decimal (JStr s) = (case dec_parse s of None \<Rightarrow> Inl InvalidOperation | Some d \<Rightarrow> Inr d)"
| "to_Decimal (JInt i) = Inr (Decimal i 0)"
| "to_Decimal (JBool b) = Inr (Decimal (if b then 1 else 0) 0)"
| "to_Decimal (JList xs) = Inl (ValueError ''Invalid tuple size in creation of Decimal'')"
| "to_Decimal _ = Inl (TypeError ''conversion to Decimal is not supported'')"

definition opt_str_json :: "string option \<Rightarrow> json" where
  "opt_str_json x = (case x of None \<Rightarrow> JNull | Some s \<Rightarrow> JStr s)"

section \<open>Assets and valid quantities\<close>

text \<open>The dataclass \<^verbatim>\<open>Asset\<close> of \<^verbatim>\<open>src/core/asset.py\<close>.\<close>

record asset =
  symbol :: string
  asset_type :: string
  exchange_id :: string
  min_quantity :: "decimal option"
  max_quantity :: "decimal option"
  step_size :: "decimal option"
  price_precision :: "int option"
  quote_precision :: "int option"

text \<open>
  \<^verbatim>\<open>Asset.ensure_valid_quantity\<close> (lines 40-67): the minimum and then the maximum are
  enforced; with a positive step size the quantity is truncated to a multiple of the step,
  and a result below the minimum is replaced by \<^verbatim>\<open>Decimal('0')\<close>. The method has no
  handler, so the \<^verbatim>\<open>decimal.InvalidOperation\<close> of \<^verbatim>\<open>//\<close> or of \<^verbatim>\<open>quantize\<close> leaves it.
\<close>

definition ensure_valid_quantity :: "asset \<Rightarrow> decimal \<Rightarrow> error + decimal" where
  "ensure_valid_quantity a quantity =
     (let q1 = (case min_quantity a of Some m \<Rightarrow> py_max m quantity | None \<Rightarrow> quantity);
          q2 = (case max_quantity a of Some mx \<Rightarrow> py_min mx q1 | None \<Rightarrow> q1)
      in case step_size a of
           None \<Rightarrow> Inr q2
         | Some s \<Rightarrow>
             if dec_pos s then
               try_bind (dec_floordiv q2 s) (\<lambda>k.
               try_bind (quantize_down (dec_mul k s) s) (\<lambda>q3.
                 case min_quantity a of
                   Some m \<Rightarrow> if dec_lt q3 m then Inr dec_zero else Inr q3
                 | None \<Rightarrow> Inr q3))
             else Inr q2)"
section \<open>Positions\<close>

text \<open>The enumerations and dataclasses of \<^verbatim>\<open>src/core/position.py\<close>.\<close>

datatype position_direction = LONG | SHORT

datatype position_status = OPEN | CLOSED

fun direction_value :: "position_direction \<Rightarrow> string" where
  "direction_value LONG = ''LONG''"
| "direction_value SHORT = ''SHORT''"

fun status_value :: "position_status \<Rightarrow> string" where
  "status_value OPEN = ''OPEN''"
| "status_value CLOSED = ''CLOSED''"

text \<open>\<^verbatim>\<open>PositionDirection(s)\<close> and \<^verbatim>\<open>PositionStatus(s)\<close>: the member with the value \<open>s\<close>.\<close>

definition PositionDirection_of :: "string \<Rightarrow> error + position_direction" where
  "PositionDirection_of s =
     (if s = ''LONG'' then Inr LONG else if s = ''SHORT'' then Inr SHORT
      else Inl (ValueError ''not a valid PositionDirection''))"

definition PositionStatus_of :: "string \<Rightarrow> error + position_status" where
  "PositionStatus_of s =
     (if s = ''OPEN'' then Inr OPEN else if s = ''CLOSED'' then Inr CLOSED
      else Inl (ValueError ''not a valid PositionStatus''))"

record take_profit =
  tp_level :: int
  tp_price :: decimal
  tp_quantity :: decimal
  tp_timestamp :: datetime

text \<open>
  \<open>close_data\<close> is \<^verbatim>\<open>Optional[Dict]\<close>: \<open>JNull\<close> is \<^verbatim>\<open>None\<close>. \<open>remaining_quantity\<close> is the
  field after \<^verbatim>\<open>__post_init__\<close>, which replaces \<^verbatim>\<open>None\<close> by the initial quantity.
\<close>

record position =
  asset :: asset
  direction :: position_direction
  initial_quantity :: decimal
  entry_price :: decimal
  bot_strategy :: string
  timeframe :: string
  bot_settings :: string
  leverage :: decimal
  margin_type :: "string option"
  pos_id :: string
  timestamp :: datetime
  take_profits :: "take_profit list"
  status :: position_status
  remaining_quantity :: decimal
  take_profit_max :: int
  external_id :: "string option"
  close_data :: json

definition is_closed :: "position \<Rightarrow> bool" where
  "is_closed p = (status p = CLOSED)"

text \<open>
  \<^verbatim>\<open>Position.close\<close> (lines 171-205). \<open>now\<close> is the value of \<^verbatim>\<open>datetime.now()\<close>. The method
  mutates the position; the model returns the position after the call.
\<close>

definition close ::
  "datetime \<Rightarrow> position \<Rightarrow> decimal \<Rightarrow> decimal \<Rightarrow> string \<Rightarrow> string option \<Rightarrow> error + position"
where
  "close now p price quantity reason ext_id =
     (if is_closed p then Inl (ValueError ''Position already closed'')
      else
        (let adjusted_quantity = py_min quantity (remaining_quantity p);
             cd = [(''timestamp'', JStr (isoformat now)),
                   (''price'', JStr (dec_str price)),
                   (''quantity'', JStr (dec_str adjusted_quantity)),
                   (''value'', JStr (dec_str (dec_mul price adjusted_quantity))),
                   (''reason'', JStr reason)]
                  @ (case ext_id of
                       None \<Rightarrow> []
                     | Some x \<Rightarrow> if x \<noteq> [] then [(''external_id'', JStr x)] else []);
             p1 = p\<lparr>close_data := JObj cd,
                    remaining_quantity := dec_sub (remaining_quantity p) adjusted_quantity\<rparr>
         in if dec_le (remaining_quantity p1) dec_zero
            then Inr (p1\<lparr>status := CLOSED, remaining_quantity := dec_zero\<rparr>)
            else Inr p1))"

text \<open>
  \<^verbatim>\<open>Position.add_take_profit\<close> (lines 126-169). \<open>now\<close> is the time the take profit is
  stamped with, \<open>close_now\<close> the time of the automatic close. The result is the take
  profit returned and the position after the call.
\<close>

definition add_take_profit ::
  "datetime \<Rightarrow> datetime \<Rightarrow> position \<Rightarrow> decimal \<Rightarrow> decimal \<Rightarrow> int
     \<Rightarrow> error + (take_profit \<times> position)"
where
  "add_take_profit now close_now p price quantity lvl =
     (if is_closed p then Inl (ValueError ''Cannot add take profit to closed position'')
      else if take_profit_max p < lvl
        then Inl (ValueError ''Take profit level exceeds maximum'')
      else if list_ex (\<lambda>tp. tp_level tp = lvl) (take_profits p)
        then Inl (ValueError ''Take profit level already executed'')
      else
        (let adjusted_quantity = py_min quantity (remaining_quantity p)
         in if dec_le adjusted_quantity dec_zero
            then Inl (ValueError ''No quantity available for take profit'')
            else
              (let tp = \<lparr>tp_level = lvl, tp_price = price, tp_quantity = adjusted_quantity,
                         tp_timestamp = now\<rparr>;
                   p1 = p\<lparr>take_profits := take_profits p @ [tp],
                          remaining_quantity :=
                            dec_sub (remaining_quantity p) adjusted_quantity\<rparr>
               in if lvl = take_profit_max p \<or> dec_le (remaining_quantity p1) dec_zero
                  then try_bind (close close_now p1 price dec_zero ''Manual close'' None)
                         (\<lambda>p2. Inr (tp, p2))
                  else Inr (tp, p1))))"

text \<open>
  The quantity that \<open>close_data\<close> records, as \<^verbatim>\<open>get_realized_pnl\<close> reads it (lines
  233-239): \<^verbatim>\<open>Decimal(self.close_data['quantity'])\<close>, and 0 when there is no close data.
\<close>

definition close_quantity :: "position \<Rightarrow> error + decimal" where
  "close_quantity p =
     (if truthy (close_data p)
      then try_bind (as_dict (close_data p))
             (\<lambda>cd. try_bind (dict_item cd ''quantity'') to_Decimal)
      else Inr dec_zero)"

text \<open>\<^verbatim>\<open>Position.to_dict\<close> (lines 276-310).\<close>

definition take_profit_to_dict :: "take_profit \<Rightarrow> json" where
  "take_profit_to_dict tp =
     JObj [(''level'', JInt (tp_level tp)),
           (''price'', JStr (dec_str (tp_price tp))),
           (''quantity'', JStr (dec_str (tp_quantity tp))),
           (''timestamp'', JStr (isoformat (tp_timestamp tp))),
           (''value'', JStr (dec_str (dec_mul (tp_price tp) (tp_quantity tp))))]"

definition to_dict :: "position \<Rightarrow> json" where
  "to_dict p =
     JObj [(''id'', JStr (pos_id p)),
           (''external_id'', opt_str_json (external_id p)),
           (''asset'', JStr (symbol (asset p))),
           (''direction'', JStr (direction_value (direction p))),
           (''initial_quantity'', JStr (dec_str (initial_quantity p))),
           (''remaining_quantity'', JStr (dec_str (remaining_quantity p))),
           (''entry_price'', JStr (dec_str (entry_price p))),
           (''bot_strategy'', JStr (bot_strategy p)),
           (''bot_settings'', JStr (bot_settings p)),
           (''timeframe'', JStr (timeframe p)),
           (''leverage'', JStr (dec_str (leverage p))),
           (''margin_type'', opt_str_json (margin_type p)),
           (''timestamp'', JStr (isoformat (timestamp p))),
           (''status'', JStr (status_value (status p))),
           (''take_profit_max'', JInt (take_profit_max p)),
           (''take_profits'', JList (map take_profit_to_dict (take_profits p))),
           (''close_data'', close_data p)]"

text \<open>
  \<^verbatim>\<open>Position.from_dict\<close> (lines 312-353), with the \<^verbatim>\<open>__post_init__\<close> of the dataclass
  (lines 90-102), which turns the direction and the status from strings into members of
  the enumerations. \<open>fresh_id\<close> is the \<^verbatim>\<open>uuid4\<close> drawn when the record has no id.
\<close>

definition take_profit_from_dict :: "json \<Rightarrow> error + take_profit" where
  "take_profit_from_dict tp_data =
     try_bind (as_dict tp_data) (\<lambda>d.
     try_bind (try_bind (dict_item d ''level'') as_int) (\<lambda>lvl.
     try_bind (try_bind (dict_item d ''price'') to_Decimal) (\<lambda>pr.
     try_bind (try_bind (dict_item d ''quantity'') to_Decimal) (\<lambda>qty.
     try_bind (try_bind (try_bind (dict_item d ''timestamp'') as_str) fromisoformat) (\<lambda>ts.
     Inr \<lparr>tp_level = lvl, tp_price = pr, tp_quantity = qty, tp_timestamp = ts\<rparr>)))))"

definition from_dict :: "string \<Rightarrow> json \<Rightarrow> asset \<Rightarrow> error + position" where
  "from_dict fresh_id data a =
     try_bind (as_dict data) (\<lambda>d.
     try_bind (try_bind (as_list (dict_get d ''take_profits'' (JList [])))
                 (map_err take_profit_from_dict)) (\<lambda>tps.
     try_bind (as_str (dict_get d ''id'' (JStr fresh_id))) (\<lambda>i.
     try_bind (try_bind (dict_item d ''direction'') as_str) (\<lambda>dir.
     try_bind (try_bind (dict_item d ''initial_quantity'') to_Decimal) (\<lambda>iq.
     try_bind (try_bind (dict_item d ''initial_quantity'')
                 (\<lambda>dflt. to_Decimal (dict_get d ''remaining_quantity'' dflt))) (\<lambda>rq.
     try_bind (try_bind (dict_item d ''entry_price'') to_Decimal) (\<lambda>ep.
     try_bind (try_bind (dict_item d ''bot_strategy'') as_str) (\<lambda>bs.
     try_bind (try_bind (dict_item d ''timeframe'') as_str) (\<lambda>tf.
     try_bind (as_str (dict_get d ''bot_settings'' (JStr ''default''))) (\<lambda>bset.
     try_bind (to_Decimal (dict_get d ''leverage'' (JStr ''1''))) (\<lambda>lev.
     try_bind (as_opt_str (dict_get d ''margin_type'' JNull)) (\<lambda>mt.
     try_bind (try_bind (try_bind (dict_item d ''timestamp'') as_str) fromisoformat) (\<lambda>ts.
     try_bind (as_str (dict_get d ''status'' (JStr (status_value OPEN)))) (\<lambda>st.
     try_bind (as_int (dict_get d ''take_profit_max'' (JInt 3))) (\<lambda>tpm.
     try_bind (as_opt_str (dict_get d ''external_id'' JNull)) (\<lambda>ext.
     try_bind (PositionDirection_of (py_upper dir)) (\<lambda>dir'.
     try_bind (PositionStatus_of (py_upper st)) (\<lambda>st'.
     Inr \<lparr>asset = a, direction = dir', initial_quantity = iq, entry_price = ep,
          bot_strategy = bs, timeframe = tf, bot_settings = bset, leverage = lev,
          margin_type = mt, pos_id = i, timestamp = ts, take_profits = tps,
          status = st', remaining_quantity = rq, take_profit_max = tpm,
          external_id = ext, close_data = dict_get d ''close_data'' JNull\<rparr>))))))))))))))))))"

text \<open>Every \<^verbatim>\<open>datetime\<close> object of a position is a date and time of the calendar.\<close>

definition timestamps_valid :: "position \<Rightarrow> bool" where
  "timestamps_valid p =
     (valid_datetime (timestamp p)
      \<and> list_all (\<lambda>tp. valid_datetime (tp_timestamp tp)) (take_profits p))"

subsection \<open>Sequences of operations\<close>

text \<open>
  The two mutating methods as operations, and their application one after the other; the
  first exception ends the run.
\<close>

datatype position_op =
    AddTakeProfit datetime datetime decimal decimal int
  | Close datetime decimal decimal string "string option"

fun apply_op :: "position \<Rightarrow> position_op \<Rightarrow> error + position" where
  "apply_op p (AddTakeProfit now close_now price quantity lvl) =
     try_bind (add_take_profit now close_now p price quantity lvl) (\<lambda>r. Inr (snd r))"
| "apply_op p (Close now price quantity reason ext_id) =
     close now p price quantity reason ext_id"

fun run_ops :: "position \<Rightarrow> position_op list \<Rightarrow> error + position" where
  "run_ops p [] = Inr p"
| "run_ops p (x # xs) = try_bind (apply_op p x) (\<lambda>p'. run_ops p' xs)"

text \<open>
  A position as the constructor returns it for a non-negative quantity: open, no take
  profit, no close data, the remaining quantity equal to the initial one.
\<close>

definition new_position :: "position \<Rightarrow> bool" where
  "new_position p =
     (status p = OPEN \<and> take_profits p = [] \<and> close_data p = JNull
      \<and> remaining_quantity p = initial_quantity p \<and> dec_le dec_zero (initial_quantity p))"

text \<open>
  The equation of the data model, on the values of the decimals: the remaining quantity is
  the initial quantity minus the take profit quantities minus the quantity recorded in the
  close data.
\<close>

definition balance_eq :: "position \<Rightarrow> bool" where
  "balance_eq p =
     (case close_quantity p of
        Inl e \<Rightarrow> False
      | Inr cq \<Rightarrow>
          dval (remaining_quantity p) =
            dval (initial_quantity p) - sum_list (map (\<lambda>tp. dval (tp_quantity tp)) (take_profits p))
              - dval cq)"

definition close_quantity_is_zero :: "position \<Rightarrow> bool" where
  "close_quantity_is_zero p =
     (case close_quantity p of Inl e \<Rightarrow> False | Inr cq \<Rightarrow> dec_eq cq dec_zero)"

text \<open>
  The operations that rewrite the close data: every \<open>close\<close>, and the \<open>add_take_profit\<close>
  that goes on to close, at the last level or when nothing remains (line 161).
\<close>

fun calls_close :: "position \<Rightarrow> position_op \<Rightarrow> bool" where
  "calls_close p (Close now price quantity reason ext_id) = True"
| "calls_close p (AddTakeProfit now close_now price quantity lvl) =
     (lvl = take_profit_max p
      \<or> dec_le (dec_sub (remaining_quantity p) (py_min quantity (remaining_quantity p))) dec_zero)"

text \<open>
  No operation of the run rewrites close data that already record a quantity other than
  zero.
\<close>

fun no_overwrite :: "position \<Rightarrow> position_op list \<Rightarrow> bool" where
  "no_overwrite p [] = True"
| "no_overwrite p (x # xs) =
     ((calls_close p x \<longrightarrow> close_quantity_is_zero p)
      \<and> (case apply_op p x of Inl e \<Rightarrow> True | Inr p' \<Rightarrow> no_overwrite p' xs))"

text \<open>
  The quantities of a run stay within the precision: for an exponent \<open>e \<le> 0\<close>, the initial
  quantity is a multiple of \<open>10 ^ e\<close> below \<open>10 ^ (28 + e)\<close> (at most \<open>- e\<close> decimal places
  and \<open>28 + e\<close> digits before the point), and the quantity of every operation is a
  non-negative multiple of \<open>10 ^ e\<close>. Then no subtraction of the run is rounded.
\<close>

fun op_quantity :: "position_op \<Rightarrow> decimal" where
  "op_quantity (AddTakeProfit now close_now price quantity lvl) = quantity"
| "op_quantity (Close now price quantity reason ext_id) = quantity"

definition within_precision :: "int \<Rightarrow> position \<Rightarrow> position_op list \<Rightarrow> bool" where
  "within_precision e p ops =
     (e \<le> 0 \<and> e \<le> expo (initial_quantity p)
      \<and> \<bar>coef (initial_quantity p)\<bar> * 10 ^ nat (expo (initial_quantity p) - e) < 10 ^ prec
      \<and> list_all (\<lambda>x. e \<le> expo (op_quantity x) \<and> dec_le dec_zero (op_quantity x)) ops)"
section \<open>The position repository\<close>

subsection \<open>Reading a stored record\<close>

text \<open>
  \<^verbatim>\<open>FilePositionRepository._create_position_from_dict\<close> (lines 802-868). \<open>now\<close> is the
  value of \<^verbatim>\<open>datetime.now()\<close>, used where a record has no timestamp. The position is first
  constructed without remaining quantity, status, take profits and close data (so it is
  open, with the initial quantity remaining); these are then set from the record.
\<close>

definition stored_take_profit :: "datetime \<Rightarrow> json \<Rightarrow> error + take_profit" where
  "stored_take_profit now tp_data =
     try_bind (as_dict tp_data) (\<lambda>d.
     try_bind (as_int (dict_get d ''level'' (JInt 1))) (\<lambda>lvl.
     try_bind (to_Decimal (dict_get d ''price'' (JStr ''0''))) (\<lambda>pr.
     try_bind (to_Decimal (dict_get d ''quantity'' (JStr ''0''))) (\<lambda>qty.
     try_bind (try_bind (as_str (dict_get d ''timestamp'' (JStr (isoformat now)))) fromisoformat)
       (\<lambda>ts.
     Inr \<lparr>tp_level = lvl, tp_price = pr, tp_quantity = qty, tp_timestamp = ts\<rparr>)))))"

definition create_position_from_dict :: "datetime \<Rightarrow> json \<Rightarrow> asset \<Rightarrow> error + position" where
  "create_position_from_dict now data a =
     try_bind (as_dict data) (\<lambda>d.
     try_bind (try_bind (as_str (dict_get d ''direction'' (JStr ''LONG'')))
                 (\<lambda>s. PositionDirection_of (py_upper s))) (\<lambda>dir.
     try_bind (let b = dict_get d ''bot_strategy'' JNull
               in if truthy b then as_str b else Inr []) (\<lambda>bs.
     try_bind (to_Decimal (dict_get d ''initial_quantity'' (JStr ''0''))) (\<lambda>iq.
     try_bind (to_Decimal (dict_get d ''entry_price'' (JStr ''0''))) (\<lambda>ep.
     try_bind (as_str (dict_get d ''timeframe'' (JStr []))) (\<lambda>tf.
     try_bind (as_str (dict_get d ''bot_settings'' (JStr ''default''))) (\<lambda>bset.
     try_bind (to_Decimal (dict_get d ''leverage'' (JStr ''1''))) (\<lambda>lev.
     try_bind (as_str (dict_get d ''id'' (JStr []))) (\<lambda>i.
     try_bind (try_bind (as_str (dict_get d ''timestamp'' (JStr (isoformat now)))) fromisoformat)
       (\<lambda>ts.
     try_bind (as_int (dict_get d ''take_profit_max'' (JInt 3))) (\<lambda>tpm.
     try_bind (as_opt_str (dict_get d ''external_id'' JNull)) (\<lambda>ext.
     try_bind (case map_of d ''remaining_quantity'' of
                 None \<Rightarrow> Inr iq
               | Some v \<Rightarrow> to_Decimal v) (\<lambda>rq.
     try_bind (case map_of d ''status'' of
                 None \<Rightarrow> Inr OPEN
               | Some v \<Rightarrow> try_bind (as_str v) (\<lambda>s. PositionStatus_of (py_upper s))) (\<lambda>st.
     try_bind (try_bind (as_list (dict_get d ''take_profits'' (JList [])))
                 (map_err (stored_take_profit now))) (\<lambda>tps.
     (let cd = dict_get d ''close_data'' JNull;
          position =
            \<lparr>asset = a, direction = dir, initial_quantity = iq, entry_price = ep,
             bot_strategy = bs, timeframe = tf, bot_settings = bset, leverage = lev,
             margin_type = None, pos_id = i, timestamp = ts, take_profits = tps,
             status = (if truthy cd then CLOSED else st), remaining_quantity = rq,
             take_profit_max = tpm, external_id = ext,
             close_data = (if truthy cd then cd else JNull)\<rparr>
      in if is_closed position \<and> dec_lt dec_zero (remaining_quantity position)
         then Inr (position\<lparr>remaining_quantity := dec_zero\<rparr>)
         else Inr position))))))))))))))))"

text \<open>
  The remaining quantity a record stores: its field \<^verbatim>\<open>remaining_quantity\<close>, and without
  that field the initial quantity, which the constructor takes as the remaining one.
\<close>

definition stored_remaining_quantity :: "(string \<times> json) list \<Rightarrow> error + decimal" where
  "stored_remaining_quantity d =
     (case map_of d ''remaining_quantity'' of
        None \<Rightarrow> to_Decimal (dict_get d ''initial_quantity'' (JStr ''0''))
      | Some v \<Rightarrow> to_Decimal v)"

section \<open>Closing a position through the exchange\<close>

text \<open>
  The exchange adapter is a collaborator of the service: it is given by what its calls
  answer, a value or an exception. An order is given by the two things the service reads
  from it: its \<^verbatim>\<open>orderId\<close> and the average fill price that \<^verbatim>\<open>_get_average_fill_price\<close>
  computes from its fills.
\<close>

record order =
  order_id :: "string option"
  average_fill_price :: "decimal option"

record exchange =
  get_current_price :: "asset \<Rightarrow> error + decimal"
  get_asset_info :: "string \<Rightarrow> error + asset"
  place_market_order ::
    "asset \<Rightarrow> position_direction \<Rightarrow> decimal \<Rightarrow> bool option \<Rightarrow> string option \<Rightarrow> error + order"

text \<open>
  The repository is modelled by the positions it holds after \<^verbatim>\<open>reload_positions\<close>: the open
  ones of its cache and the ledger of closed ones. Its files, backups and the trade
  outcome ledger are left out. The service works on the position object that the cache
  holds, so what it assigns to the position is seen in the cache at once: \<open>store\<close>.
\<close>

record repository =
  open_positions :: "position list"
  closed_positions :: "position list"

definition get_by_id :: "repository \<Rightarrow> string \<Rightarrow> position option" where
  "get_by_id repo i = find (\<lambda>p. pos_id p = i) (open_positions repo)"

definition store :: "position \<Rightarrow> repository \<Rightarrow> repository" where
  "store p repo =
     repo\<lparr>open_positions := map (\<lambda>q. if pos_id q = pos_id p then p else q) (open_positions repo)\<rparr>"

text \<open>
  \<^verbatim>\<open>update\<close> (lines 276-298): the position must exist; it is saved, and a closed position is
  moved to the closed ones (\<^verbatim>\<open>_handle_closed_position\<close>).
\<close>

definition update :: "repository \<Rightarrow> position \<Rightarrow> error + repository" where
  "update repo p =
     (case get_by_id repo (pos_id p) of
        None \<Rightarrow> Inl (ValueError ''Position not found'')
      | Some existing \<Rightarrow>
          (let saved = store p repo
           in if is_closed p
              then Inr (saved\<lparr>open_positions :=
                                filter (\<lambda>q. pos_id q \<noteq> pos_id p) (open_positions saved),
                              closed_positions :=
                                filter (\<lambda>q. pos_id q \<noteq> pos_id p) (closed_positions saved) @ [p]\<rparr>)
              else Inr saved))"

text \<open>
  Two expressions of \<^verbatim>\<open>close_position\<close> cannot be evaluated. The dataclass \<^verbatim>\<open>Position\<close>
  declares no field \<^verbatim>\<open>last_price\<close> and nothing assigns one, so reading
  \<^verbatim>\<open>position.last_price\<close> (line 415) raises \<^verbatim>\<open>AttributeError\<close>. And \<^verbatim>\<open>Position.close\<close> has the
  parameters \<^verbatim>\<open>price, quantity, reason, external_id\<close>, so the call with the keyword
  \<^verbatim>\<open>margin_details\<close> (lines 540-545) raises \<^verbatim>\<open>TypeError\<close> before the method runs.
\<close>

definition last_price :: "position \<Rightarrow> error + decimal option" where
  "last_price p = Inl (AttributeError ''Position object has no attribute last_price'')"

definition close_with_margin_details ::
  "datetime \<Rightarrow> position \<Rightarrow> decimal \<Rightarrow> decimal \<Rightarrow> string \<Rightarrow> string \<Rightarrow> error + position"
where
  "close_with_margin_details now p price quantity reason margin_details =
     Inl (TypeError ''close() got an unexpected keyword argument margin_details'')"

text \<open>
  The handler of the outer \<^verbatim>\<open>try\<close> (lines 524-561), entered with the position as the
  \<^verbatim>\<open>try\<close> block left it and the exception \<open>e\<close>.
\<close>

definition close_position_failed ::
  "exchange \<Rightarrow> datetime \<Rightarrow> repository \<Rightarrow> position \<Rightarrow> string \<Rightarrow> error
     \<Rightarrow> (error + position \<times> order option) \<times> repository"
where
  "close_position_failed ex now repo p reason e =
     (case get_current_price ex (asset p) of
        Inl e' \<Rightarrow> (Inl e', repo)
      | Inr current_price \<Rightarrow>
          (case close_with_margin_details now p current_price (remaining_quantity p)
                  (reason @ '' (Exchange Failed: '' @ error_str e @ '')'') ''N/A - Order Failed'' of
             Inl e' \<Rightarrow> (Inl e', repo)
           | Inr p' \<Rightarrow>
               (case update (store p' repo) p' of
                  Inl e' \<Rightarrow> (Inl e', store p' repo)
                | Inr repo' \<Rightarrow> (Inr (p', None), repo'))))"

text \<open>
  The order and what follows it (lines 471-520), with the quantity to execute when the
  inner \<^verbatim>\<open>try\<close> has bound it: without a binding the call of \<^verbatim>\<open>place_market_order\<close> raises
  \<^verbatim>\<open>UnboundLocalError\<close>. The executed price is the average fill price \<^verbatim>\<open>or\<close> the
  current price: an average that is missing or zero is replaced. Every exception goes to
  the handler.
\<close>

definition close_position_order ::
  "exchange \<Rightarrow> datetime \<Rightarrow> repository \<Rightarrow> position \<Rightarrow> string \<Rightarrow> decimal option
     \<Rightarrow> (error + position \<times> order option) \<times> repository"
where
  "close_position_order ex now repo p reason quantity_to_execute =
     (let reverse_direction = (if direction p = LONG then SHORT else LONG);
          is_margin_position = (dec_lt (Decimal 1 0) (leverage p) \<or> direction p = SHORT);
          is_isolated = (if is_margin_position then Some (margin_type p = Some ''ISOLATED'') else None);
          side_effect_type = (if is_margin_position then Some ''AUTO_REPAY'' else None)
      in case quantity_to_execute of
           None \<Rightarrow>
             close_position_failed ex now repo p reason
               (UnboundLocalError ''local variable quantity_to_execute referenced before assignment'')
         | Some q \<Rightarrow>
             (case place_market_order ex (asset p) reverse_direction q is_isolated side_effect_type of
                Inl e \<Rightarrow> close_position_failed ex now repo p reason e
              | Inr ord \<Rightarrow>
                  (case (case average_fill_price ord of
                           Some pr \<Rightarrow>
                             if coef pr = 0 then get_current_price ex (asset p) else Inr pr
                         | None \<Rightarrow> get_current_price ex (asset p)) of
                     Inl e \<Rightarrow> close_position_failed ex now repo p reason e
                   | Inr executed_price \<Rightarrow>
                       (case close now p executed_price (remaining_quantity p) reason
                               (Some (case order_id ord of Some i \<Rightarrow> i | None \<Rightarrow> ''N/A'')) of
                          Inl e \<Rightarrow> close_position_failed ex now repo p reason e
                        | Inr p' \<Rightarrow>
                            (case update (store p' repo) p' of
                               Inl e \<Rightarrow> close_position_failed ex now (store p' repo) p' reason e
                             | Inr repo' \<Rightarrow> (Inr (p', Some ord), repo'))))))"

text \<open>
  \<^verbatim>\<open>PositionService.close_position\<close> (lines 385-561). The result is what the call returns
  or raises, and the repository after the call. An exception inside the inner \<^verbatim>\<open>try\<close>
  (lines 447-467) is logged, and the order is placed with the quantity bound so far: the
  remaining quantity when the step adjustment itself raised.
\<close>

definition close_position ::
  "exchange \<Rightarrow> datetime \<Rightarrow> repository \<Rightarrow> string \<Rightarrow> string
     \<Rightarrow> (error + position \<times> order option) \<times> repository"
where
  "close_position ex now repo position_id reason =
     (case get_by_id repo position_id of
        None \<Rightarrow> (Inl (ValueError ''Position not found''), repo)
      | Some p \<Rightarrow>
          if is_closed p then (Inr (p, None), repo)
          else if dec_le (remaining_quantity p) dec_zero then
            (case try_bind (last_price p)
                    (\<lambda>lp. case lp of Some pr \<Rightarrow> Inr pr | None \<Rightarrow> get_current_price ex (asset p)) of
               Inl e \<Rightarrow> (Inl e, repo)
             | Inr close_price \<Rightarrow>
                 (case close now p close_price dec_zero ''Manual close'' None of
                    Inl e \<Rightarrow> (Inl e, repo)
                  | Inr p' \<Rightarrow>
                      (case update (store p' repo) p' of
                         Inl e \<Rightarrow> (Inl e, store p' repo)
                       | Inr repo' \<Rightarrow> (Inr (p', None), repo'))))
          else
            (case get_asset_info ex (symbol (asset p)) of
               Inl e \<Rightarrow> close_position_order ex now repo p reason None
             | Inr a \<Rightarrow>
                 (let p1 = p\<lparr>asset := a\<rparr>;
                      repo1 = store p1 repo;
                      adjusted =
                        (case step_size a of
                           Some s \<Rightarrow>
                             if dec_pos s
                             then try_bind (dec_floordiv (remaining_quantity p1) s)
                                    (\<lambda>k. quantize_down (dec_mul k s) s)
                             else Inr (remaining_quantity p1)
                         | None \<Rightarrow> Inr (remaining_quantity p1))
                  in case adjusted of
                       Inl e \<Rightarrow>
                         close_position_order ex now repo1 p1 reason (Some (remaining_quantity p1))
                     | Inr q \<Rightarrow>
                         if (case min_quantity a of Some m \<Rightarrow> dec_lt q m | None \<Rightarrow> False) then
                           (case get_current_price ex a of
                              Inl e \<Rightarrow> close_position_order ex now repo1 p1 reason (Some q)
                            | Inr current_price \<Rightarrow>
                                (case close now p1 current_price (remaining_quantity p1)
                                        (reason @ '' (Below minimum quantity)'') None of
                                   Inl e \<Rightarrow> close_position_order ex now repo1 p1 reason (Some q)
                                 | Inr p' \<Rightarrow>
                                     (case update (store p' repo1) p' of
                                        Inl e \<Rightarrow>
                                          close_position_order ex now (store p' repo1) p' reason
                                            (Some q)
                                      | Inr repo' \<Rightarrow> (Inr (p', None), repo'))))
                         else close_position_order ex now repo1 p1 reason (Some q))))"
section \<open>Signals\<close>

text \<open>
  An inbound signal is a dictionary of strings. \<^verbatim>\<open>SignalProcessor._clean_signal_data\<close>
  (lines 152-189) drops empty values and values that still are a placeholder
  \<^verbatim>\<open>{{...}}\<close> of the sender.
\<close>

definition is_placeholder :: "string \<Rightarrow> bool" where
  "is_placeholder v = (startswith v ''{{'' \<and> endswith v ''}}'')"

definition clean_signal_data :: "(string \<times> string) list \<Rightarrow> (string \<times> string) list" where
  "clean_signal_data signal_data =
     filter (\<lambda>kv. snd kv \<noteq> [] \<and> \<not> is_placeholder (snd kv)) signal_data"

text \<open>\<^verbatim>\<open>s.split(c, 1)\<close>: at most one split, at the first occurrence of \<open>c\<close>.\<close>

definition split_once :: "char \<Rightarrow> string \<Rightarrow> string list" where
  "split_once c s =
     (if c \<in> set s
      then [takeWhile (\<lambda>x. x \<noteq> c) s, tl (dropWhile (\<lambda>x. x \<noteq> c) s)]
      else [s])"

definition str_get :: "(string \<times> string) list \<Rightarrow> string \<Rightarrow> string \<Rightarrow> string" where
  "str_get d k dflt = (case map_of d k of None \<Rightarrow> dflt | Some v \<Rightarrow> v)"

record resolved_signal =
  sig_command :: string
  sig_asset_symbol :: string
  sig_interval :: string
  sig_bot_strategy :: string
  sig_bot_settings :: string

text \<open>
  The first part of \<^verbatim>\<open>SignalProcessor.process_signal\<close> (lines 102-132): the parameters
  that are handed to the handler of the command, or the \<^verbatim>\<open>ValueError\<close> that ends the
  processing.
\<close>

definition process_signal_parameters :: "(string \<times> string) list \<Rightarrow> error + resolved_signal" where
  "process_signal_parameters signal_data =
     (let cleaned_data = clean_signal_data signal_data;
          command = py_strip (py_upper (str_get cleaned_data ''command'' []));
          asset_symbol = str_get cleaned_data ''asset'' [];
          interval = str_get cleaned_data ''interval'' []
      in if command = [] then Inl (ValueError ''Command parameter is required'')
         else if asset_symbol = [] then Inl (ValueError ''Asset parameter is required'')
         else if interval = [] then Inl (ValueError ''Interval parameter is required'')
         else
           (let bot_raw = str_get cleaned_data ''bot'' [];
                bot_settings_raw = map_of cleaned_data ''botSettings'';
                no_settings = (case bot_settings_raw of None \<Rightarrow> True | Some s \<Rightarrow> s = []);
                parts = split_once (CHR ''_'') bot_raw;
                strategy =
                  (if no_settings \<and> CHR ''_'' \<in> set bot_raw
                   then (case parts of [] \<Rightarrow> [] | x # xs \<Rightarrow> x)
                   else bot_raw);
                settings =
                  (if no_settings \<and> CHR ''_'' \<in> set bot_raw
                   then (case parts of x # y # ys \<Rightarrow> y | _ \<Rightarrow> ''default'')
                   else if no_settings then ''default''
                   else (case bot_settings_raw of None \<Rightarrow> ''default'' | Some s \<Rightarrow> s))
            in if strategy = [] then Inl (ValueError ''Bot strategy (bot) parameter is required'')
               else Inr \<lparr>sig_command = command, sig_asset_symbol = asset_symbol,
                         sig_interval = interval, sig_bot_strategy = strategy,
                         sig_bot_settings = settings\<rparr>))"

text \<open>
  The split as the specification words it, on the last underscore: the part before the
  last underscore and the part after it.
\<close>

definition split_at_last_underscore :: "string \<Rightarrow> string \<times> string" where
  "split_at_last_underscore s =
     (rev (tl (dropWhile (\<lambda>x. x \<noteq> CHR ''_'') (rev s))),
      rev (takeWhile (\<lambda>x. x \<noteq> CHR ''_'') (rev s)))"

section \<open>Writing the positions file\<close>

text \<open>
  The file system is a map from paths to contents. A save is a sequence of operations
  on it, each of which reaches the disk on its own; after a crash the files are as some
  prefix of the sequence has left them. \<^verbatim>\<open>json.dump\<close> writes the text of the data in
  chunks, which are given.
\<close>

type_synonym file_system = "string \<Rightarrow> string option"

datatype file_op =
    Truncate string
  | Append string string
  | Create string
  | Remove string
  | Replace string string

fun exec_op :: "file_op \<Rightarrow> file_system \<Rightarrow> file_system" where
  "exec_op (Truncate f) fs = fs(f \<mapsto> [])"
| "exec_op (Append f chunk) fs = fs(f \<mapsto> (case fs f of None \<Rightarrow> [] | Some c \<Rightarrow> c) @ chunk)"
| "exec_op (Create f) fs = fs(f \<mapsto> [])"
| "exec_op (Remove f) fs = fs(f := None)"
| "exec_op (Replace src dst) fs = (fs(dst := fs src))(src := None)"

definition exec_ops :: "file_op list \<Rightarrow> file_system \<Rightarrow> file_system" where
  "exec_ops ops fs = foldl (\<lambda>s x. exec_op x s) fs ops"

text \<open>The states of the file system that a crash during the operations can leave.\<close>

definition crash_states :: "file_op list \<Rightarrow> file_system \<Rightarrow> file_system list" where
  "crash_states ops fs = map (\<lambda>n. exec_ops (take n ops) fs) [0 ..< Suc (length ops)]"

text \<open>
  \<^verbatim>\<open>_save_positions_with_tempfile\<close> (lines 507-541): the data are written to a new
  temporary file in the directory of the positions file, which then replaces the
  positions file; on Windows the positions file is removed first.
\<close>

definition save_positions_with_tempfile ::
  "string \<Rightarrow> string \<Rightarrow> bool \<Rightarrow> string list \<Rightarrow> file_op list"
where
  "save_positions_with_tempfile positions_file temp_file windows chunks =
     Create temp_file # map (Append temp_file) chunks
     @ (if windows then [Remove positions_file] else [])
     @ [Replace temp_file positions_file]"

text \<open>
  \<^verbatim>\<open>_save_positions_transactional\<close> (lines 437-505), the write of the positions file (the
  daily backup, a write to another file, is left out). With the write lock, the file
  itself is opened, emptied by \<^verbatim>\<open>f.seek(0); f.truncate()\<close> and written by \<^verbatim>\<open>json.dump\<close>; the
  temporary file is used only when the lock cannot be had.
\<close>

definition save_positions_transactional ::
  "string \<Rightarrow> string \<Rightarrow> bool \<Rightarrow> bool \<Rightarrow> string list \<Rightarrow> file_op list"
where
  "save_positions_transactional positions_file temp_file windows lock_acquired chunks =
     (if lock_acquired
      then Truncate positions_file # map (Append positions_file) chunks
      else save_positions_with_tempfile positions_file temp_file windows chunks)"

text \<open>
  What the specification asks of a write: whatever prefix of it has happened, the file
  holds the complete old content or the complete new content.
\<close>

definition atomic_write :: "file_op list \<Rightarrow> file_system \<Rightarrow> string \<Rightarrow> bool" where
  "atomic_write ops fs f =
     list_all (\<lambda>s. s f = fs f \<or> s f = exec_ops ops fs f) (crash_states ops fs)"

section \<open>Auxiliary notions of the proofs\<close>

text \<open>Truncation towards zero, and the values that the quantity rule computes, on rationals.\<close>

definition trunc_rat :: "rat \<Rightarrow> int" where
  "trunc_rat r = (if 0 \<le> r then \<lfloor>r\<rfloor> else - \<lfloor>- r\<rfloor>)"

definition stepdown :: "rat \<Rightarrow> rat \<Rightarrow> rat" where
  "stepdown s x = of_int (trunc_rat (x / s)) * s"

definition clamp_val :: "rat option \<Rightarrow> rat option \<Rightarrow> rat \<Rightarrow> rat" where
  "clamp_val m mx x =
     (let x1 = (case m of Some v \<Rightarrow> max v x | None \<Rightarrow> x)
      in case mx of Some v \<Rightarrow> min v x1 | None \<Rightarrow> x1)"

definition evq_val :: "rat option \<Rightarrow> rat option \<Rightarrow> rat option \<Rightarrow> rat \<Rightarrow> rat" where
  "evq_val m mx st x =
     (case st of
        None \<Rightarrow> clamp_val m mx x
      | Some s \<Rightarrow>
          if 0 < s then
            (let y = stepdown s (clamp_val m mx x)
             in case m of Some v \<Rightarrow> if y < v then 0 else y | None \<Rightarrow> y)
          else clamp_val m mx x)"

text \<open>
  For a positive step size, the multiple of the step below the clamped quantity has a
  coefficient of at most 28 digits at the exponent of the step.
\<close>

definition steps_fit :: "asset \<Rightarrow> rat \<Rightarrow> bool" where
  "steps_fit a x =
     (case step_size a of
        None \<Rightarrow> True
      | Some s \<Rightarrow>
          dec_pos s \<longrightarrow>
          \<bar>trunc_rat (clamp_val (map_option dval (min_quantity a)) (map_option dval (max_quantity a)) x
                        / dval s) * coef s\<bar> < 10 ^ prec)"
section \<open>Example values\<close>

text \<open>Concrete assets, positions and records, at which the properties are evaluated.\<close>

definition asset_btc :: asset where
  "asset_btc = \<lparr>symbol = ''BTCUSDT'', asset_type = ''crypto'', exchange_id = ''binance'',
     min_quantity = Some (Decimal 1 (- 3)), max_quantity = Some (Decimal 9000 0),
     step_size = Some (Decimal 1 (- 3)), price_precision = Some 2, quote_precision = Some 8\<rparr>"

definition asset_inverted :: asset where
  "asset_inverted = \<lparr>symbol = ''X'', asset_type = ''crypto'', exchange_id = ''binance'',
     min_quantity = Some (Decimal 2 0), max_quantity = Some (Decimal 1 0),
     step_size = None, price_precision = None, quote_precision = None\<rparr>"

text \<open>
  An asset with a step size and no bounds, and an asset whose minimum has 29 digits at the
  exponent of its step size.
\<close>

definition asset_step :: asset where
  "asset_step = \<lparr>symbol = ''BTCUSDT'', asset_type = ''crypto'', exchange_id = ''binance'',
     min_quantity = None, max_quantity = None,
     step_size = Some (Decimal 1 (- 3)), price_precision = None, quote_precision = None\<rparr>"

definition asset_huge_min :: asset where
  "asset_huge_min = \<lparr>symbol = ''X'', asset_type = ''crypto'', exchange_id = ''binance'',
     min_quantity = Some (Decimal 1 28), max_quantity = None,
     step_size = Some (Decimal 1 0), price_precision = None, quote_precision = None\<rparr>"

definition t0 :: datetime where
  "t0 = Datetime 2024 1 15 10 30 0 0"

definition t1 :: datetime where
  "t1 = Datetime 2024 1 15 11 0 5 250000"

definition t2 :: datetime where
  "t2 = Datetime 2024 1 15 11 0 5 250017"

text \<open>A new long position of 10 units entered at 100, with three take profit levels.\<close>

definition pos_new :: position where
  "pos_new = \<lparr>asset = asset_btc, direction = LONG, initial_quantity = Decimal 10 0,
     entry_price = Decimal 100 0, bot_strategy = ''alpha'', timeframe = ''1h'',
     bot_settings = ''default'', leverage = Decimal 1 0, margin_type = None,
     pos_id = ''p-1'', timestamp = t0, take_profits = [], status = OPEN,
     remaining_quantity = Decimal 10 0, take_profit_max = 3, external_id = None,
     close_data = JNull\<rparr>"

text \<open>A take profit followed by a close of the rest, and two partial closes.\<close>

definition ops_tp_then_close :: "position_op list" where
  "ops_tp_then_close =
     [AddTakeProfit t1 t2 (Decimal 110 0) (Decimal 3 0) 1,
      Close t2 (Decimal 120 0) (Decimal 7 0) ''Manual close'' None]"

definition ops_two_closes :: "position_op list" where
  "ops_two_closes =
     [Close t1 (Decimal 110 0) (Decimal 3 0) ''Manual close'' None,
      Close t2 (Decimal 120 0) (Decimal 3 0) ''Manual close'' None]"

text \<open>
  A partial close followed by a take profit below the last level. A new position of a third
  of 100 units, as \<^verbatim>\<open>Decimal(100) / Decimal(3)\<close> gives it with 28 digits, and two take
  profits of a quantity with 28 digits and one decimal place more.
\<close>

definition ops_close_then_tp :: "position_op list" where
  "ops_close_then_tp =
     [Close t1 (Decimal 110 0) (Decimal 3 0) ''Manual close'' None,
      AddTakeProfit t2 t2 (Decimal 120 0) (Decimal 2 0) 1]"

definition pos_third :: position where
  "pos_third =
     pos_new\<lparr>initial_quantity := Decimal 3333333333333333333333333333 (- 26),
              remaining_quantity := Decimal 3333333333333333333333333333 (- 26)\<rparr>"

definition ops_two_tps :: "position_op list" where
  "ops_two_tps =
     [AddTakeProfit t1 t1 (Decimal 110 0) (Decimal 3666666666666666666666666666 (- 27)) 1,
      AddTakeProfit t2 t2 (Decimal 120 0) (Decimal 3666666666666666666666666666 (- 27)) 2]"

text \<open>
  The position \<open>pos_new\<close> after the partial close of 3 units at the time \<open>t1\<close>: still open, 7
  units remaining, with close data. And a position whose remaining quantity is negative.
\<close>

definition pos_partly_closed :: position where
  "pos_partly_closed =
     pos_new\<lparr>remaining_quantity := Decimal 7 0,
              close_data :=
                JObj [(''timestamp'', JStr (isoformat t1)),
                      (''price'', JStr (dec_str (Decimal 110 0))),
                      (''quantity'', JStr (dec_str (Decimal 3 0))),
                      (''value'', JStr (dec_str (Decimal 330 0))),
                      (''reason'', JStr ''Manual close'')]\<rparr>"

definition pos_negative :: position where
  "pos_negative = pos_partly_closed\<lparr>remaining_quantity := Decimal (- 1) 0\<rparr>"

text \<open>The position \<open>pos_new\<close> after a first take profit of 3 units.\<close>

definition pos_with_tp :: position where
  "pos_with_tp =
     pos_new\<lparr>take_profits := [\<lparr>tp_level = 1, tp_price = Decimal 110 0,
                                 tp_quantity = Decimal 3 0, tp_timestamp = t1\<rparr>],
              remaining_quantity := Decimal 7 0\<rparr>"

text \<open>
  The asset as \<^verbatim>\<open>_load_positions\<close> builds it for a stored position, an open position with
  nothing remaining, repositories that hold one position, an exchange that answers every
  call, and an exchange whose orders fail.
\<close>

definition asset_plain :: asset where
  "asset_plain = \<lparr>symbol = ''BTCUSDT'', asset_type = ''crypto'', exchange_id = ''binance'',
     min_quantity = None, max_quantity = None, step_size = None,
     price_precision = None, quote_precision = None\<rparr>"

definition pos_loaded :: position where
  "pos_loaded = pos_new\<lparr>asset := asset_plain\<rparr>"

definition pos_drained :: position where
  "pos_drained = pos_loaded\<lparr>remaining_quantity := Decimal 0 0\<rparr>"

definition repo_loaded :: repository where
  "repo_loaded = \<lparr>open_positions = [pos_loaded], closed_positions = []\<rparr>"

definition repo_drained :: repository where
  "repo_drained = \<lparr>open_positions = [pos_drained], closed_positions = []\<rparr>"

definition exchange_up :: exchange where
  "exchange_up =
     \<lparr>get_current_price = (\<lambda>a. Inr (Decimal 105 0)),
      get_asset_info = (\<lambda>s. Inr asset_plain),
      place_market_order =
        (\<lambda>a d q iso se. Inr \<lparr>order_id = Some ''77'', average_fill_price = Some (Decimal 105 0)\<rparr>)\<rparr>"

definition exchange_down :: exchange where
  "exchange_down =
     exchange_up\<lparr>place_market_order := (\<lambda>a d q iso se. Inl (ExchangeError ''Service unavailable''))\<rparr>"

text \<open>An entry signal whose bot name has two underscores and that carries no settings.\<close>

definition signal_two_underscores :: "(string \<times> string) list" where
  "signal_two_underscores =
     [(''command'', ''long''), (''asset'', ''BTCUSDT''), (''interval'', ''1h''),
      (''bot'', ''trend_follow_v2''), (''price'', ''{{close}}'')]"

text \<open>A file system with a positions file, and the chunks of its new content.\<close>

definition fs_old :: file_system where
  "fs_old = Map.empty(''data/positions.json'' \<mapsto> ''{old}'')"

definition new_chunks :: "string list" where
  "new_chunks = [''{'', ''new'', ''}'']"

chapter \<open>Properties\<close>

section \<open>Decimal arithmetic\<close>

lemma pow10_split: "m \<le> e \<Longrightarrow> (10::rat) ^ nat (e - m) * 10 powi m = 10 powi e"
proof -
  assume h: "m \<le> e"
  have "(10::rat) ^ nat (e - m) = 10 powi (e - m)"
    using h by (simp add: power_int_def)
  then show ?thesis
    by (simp add: power_int_add[symmetric])
qed

lemma pow10_pos: "(0::rat) < 10 powi m"
  by (simp add: power_int_def)

lemma align_fst: "of_int (fst (align a b)) * 10 powi (min (expo a) (expo b)) = dval a"
  using pow10_split[of "min (expo a) (expo b)" "expo a"]
  by (simp add: align_def Let_def dval_def mult.assoc)

lemma align_snd: "of_int (snd (align a b)) * 10 powi (min (expo a) (expo b)) = dval b"
  using pow10_split[of "min (expo a) (expo b)" "expo b"]
  by (simp add: align_def Let_def dval_def mult.assoc)

lemma dec_lt_iff: "dec_lt a b \<longleftrightarrow> dval a < dval b"
proof -
  obtain x y where xy: "align a b = (x, y)" by (cases "align a b")
  have "dval a < dval b \<longleftrightarrow>
        (of_int x :: rat) * 10 powi (min (expo a) (expo b))
          < of_int y * 10 powi (min (expo a) (expo b))"
    using align_fst[of a b] align_snd[of a b] xy by simp
  also have "\<dots> \<longleftrightarrow> x < y"
    using pow10_pos[of "min (expo a) (expo b)"] by (simp add: mult_less_cancel_right_pos)
  finally show ?thesis by (simp add: dec_lt_def xy)
qed

lemma dec_le_iff: "dec_le a b \<longleftrightarrow> dval a \<le> dval b"
proof -
  obtain x y where xy: "align a b = (x, y)" by (cases "align a b")
  have "dval a \<le> dval b \<longleftrightarrow>
        (of_int x :: rat) * 10 powi (min (expo a) (expo b))
          \<le> of_int y * 10 powi (min (expo a) (expo b))"
    using align_fst[of a b] align_snd[of a b] xy by simp
  also have "\<dots> \<longleftrightarrow> x \<le> y"
    using pow10_pos[of "min (expo a) (expo b)"] by (simp add: mult_le_cancel_right_pos)
  finally show ?thesis by (simp add: dec_le_def xy)
qed

lemma dec_eq_iff: "dec_eq a b \<longleftrightarrow> dval a = dval b"
proof -
  obtain x y where xy: "align a b = (x, y)" by (cases "align a b")
  have "dval a = dval b \<longleftrightarrow>
        (of_int x :: rat) * 10 powi (min (expo a) (expo b))
          = of_int y * 10 powi (min (expo a) (expo b))"
    using align_fst[of a b] align_snd[of a b] xy by simp
  also have "\<dots> \<longleftrightarrow> x = y"
    using pow10_pos[of "min (expo a) (expo b)"] by simp
  finally show ?thesis by (simp add: dec_eq_def xy)
qed

lemma dval_Decimal: "dval (Decimal c e) = of_int c * 10 powi e"
  by (simp add: dval_def)

lemma dval_pos_iff: "0 < dval d \<longleftrightarrow> 0 < coef d"
  using pow10_pos[of "expo d"]
  by (auto simp: dval_def zero_less_mult_iff dest: order.asym)

lemma dval_neg_iff: "dval d < 0 \<longleftrightarrow> coef d < 0"
  using pow10_pos[of "expo d"]
  by (auto simp: dval_def mult_less_0_iff dest: order.asym)

lemma dec_pos_iff: "dec_pos d \<longleftrightarrow> 0 < dval d"
  by (simp add: dec_pos_def dval_pos_iff)

lemma dval_zero: "dval dec_zero = 0"
  by (simp add: dec_zero_def dval_def)

lemma dval_py_max: "dval (py_max a b) = max (dval a) (dval b)"
  by (simp add: py_max_def dec_lt_iff max_def)

lemma dval_py_min: "dval (py_min a b) = min (dval a) (dval b)"
  by (simp add: py_min_def dec_lt_iff min_def)

lemma try_bind_assoc:
  "try_bind (try_bind m f) g = try_bind m (\<lambda>x. try_bind (f x) g)"
  by (simp add: try_bind_def split: sum.splits)

subsection \<open>The precision of the context\<close>

lemma ndigits_upper: "n < 10 ^ ndigits n"
proof (induction n rule: ndigits.induct)
  case (1 n)
  show ?case
  proof (cases "n < 10")
    case True
    then show ?thesis by (simp add: ndigits.simps[of n])
  next
    case False
    then have "n div 10 < 10 ^ ndigits (n div 10)" using 1 by simp
    then have "n < 10 * 10 ^ ndigits (n div 10)" by linarith
    then show ?thesis using False by (simp add: ndigits.simps[of n])
  qed
qed

lemma ndigits_lower: "0 < n \<Longrightarrow> 10 ^ (ndigits n - 1) \<le> n"
proof (induction n rule: ndigits.induct)
  case (1 n)
  show ?case
  proof (cases "n < 10")
    case True
    then show ?thesis using 1(2) by (simp add: ndigits.simps[of n])
  next
    case False
    then have p: "0 < n div 10" by simp
    have "10 ^ (ndigits (n div 10) - 1) \<le> n div 10" using 1(1)[OF False p] .
    then have "10 * 10 ^ (ndigits (n div 10) - 1) \<le> n" by linarith
    moreover have "0 < ndigits (n div 10)" by (simp add: ndigits.simps[of "n div 10"])
    ultimately show ?thesis
      using False by (simp add: ndigits.simps[of n] power_eq_if)
  qed
qed

lemma ndigits_pos: "0 < ndigits n"
  by (simp add: ndigits.simps[of n])

lemma ndigits_le_iff: "0 < k \<Longrightarrow> ndigits n \<le> k \<longleftrightarrow> n < 10 ^ k"
proof
  assume "ndigits n \<le> k"
  then have "(10::nat) ^ ndigits n \<le> 10 ^ k" by (simp add: power_increasing)
  then show "n < 10 ^ k" using ndigits_upper[of n] by linarith
next
  assume k: "0 < k" and n: "n < 10 ^ k"
  show "ndigits n \<le> k"
  proof (rule ccontr)
    assume "\<not> ndigits n \<le> k"
    then have g: "k \<le> ndigits n - 1" by simp
    then have n0: "0 < n" using k by (cases "n = 0") (simp_all add: ndigits.simps[of 0])
    have "(10::nat) ^ k \<le> 10 ^ (ndigits n - 1)" using g by (simp add: power_increasing)
    then show False using ndigits_lower[OF n0] n by linarith
  qed
qed

lemma ndigits_eq: "0 < k \<Longrightarrow> 10 ^ (k - 1) \<le> n \<Longrightarrow> n < 10 ^ k \<Longrightarrow> ndigits n = k"
proof -
  assume k: "0 < k" and lo: "10 ^ (k - 1) \<le> n" and hi: "n < 10 ^ k"
  have le: "ndigits n \<le> k" using ndigits_le_iff[OF k] hi by simp
  have "\<not> ndigits n \<le> k - 1"
  proof
    assume a: "ndigits n \<le> k - 1"
    then have "0 < k - 1" using ndigits_pos[of n] by linarith
    then have "n < 10 ^ (k - 1)" using ndigits_le_iff[of "k - 1" n] a by simp
    then show False using lo by simp
  qed
  then show ?thesis using le by linarith
qed

lemma dec_fix_id: "\<bar>c\<bar> < 10 ^ prec \<Longrightarrow> dec_fix (Decimal c e) = Decimal c e"
proof -
  assume "\<bar>c\<bar> < 10 ^ prec"
  then have "nat \<bar>c\<bar> < 10 ^ prec" by (simp add: nat_less_iff)
  then have "ndigits (nat \<bar>c\<bar>) \<le> prec"
    using ndigits_le_iff[of prec "nat \<bar>c\<bar>"] by (simp add: prec_def)
  then show ?thesis by (simp add: dec_fix_def)
qed

text \<open>
  A coefficient beyond the precision is rounded to one of exactly 28 digits, at a larger
  exponent.
\<close>

lemma dec_fix_rounded:
  assumes "10 ^ prec \<le> \<bar>c\<bar>"
  shows "\<exists>c' j. dec_fix (Decimal c e) = Decimal (sgn c * int c') (e + int j) \<and> 0 < j
               \<and> 10 ^ (prec - 1) \<le> c' \<and> c' < 10 ^ prec"
proof -
  define n where "n = ndigits (nat \<bar>c\<bar>)"
  define a where "a = nat \<bar>c\<bar>"
  have a: "10 ^ prec \<le> a" using assms by (simp add: a_def le_nat_iff)
  have gt: "prec < n"
    using ndigits_le_iff[of prec a] a by (simp add: n_def a_def prec_def)
  define k where "k = n - prec"
  have k: "0 < k" and nk: "n = prec + k" using gt by (simp_all add: k_def)
  define q where "q = a div 10 ^ k"
  define m where "m = round_half_even a k"
  have na: "ndigits a = prec + k" using nk by (simp add: n_def a_def)
  have a0: "0 < a" using a by (cases "a = 0") simp_all
  have hi: "a < 10 ^ (prec + k)" using ndigits_upper[of a] by (simp add: na)
  have lo: "10 ^ (prec + k - 1) \<le> a" using ndigits_lower[OF a0] by (simp add: na)
  have qhi: "q < 10 ^ prec"
    using hi by (simp add: q_def power_add less_mult_imp_div_less mult.commute)
  have "prec + k - 1 = (prec - 1) + k" by (simp add: prec_def)
  then have "(10::nat) ^ (prec + k - 1) = 10 ^ (prec - 1) * 10 ^ k"
    by (simp only: power_add)
  then have "10 ^ (prec - 1) * 10 ^ k \<le> a" using lo by simp
  then have qlo: "10 ^ (prec - 1) \<le> q"
    by (simp add: q_def less_eq_div_iff_mult_less_eq)
  have mq: "m = q \<or> m = q + 1" by (simp add: m_def round_half_even_def q_def Let_def)
  have mlo: "10 ^ (prec - 1) \<le> m" using mq qlo by auto
  have mhi: "m \<le> 10 ^ prec" using mq qhi by auto
  have fx: "dec_fix (Decimal c e) =
            (if prec < ndigits m then Decimal (sgn c * int (m div 10)) (e + int k + 1)
             else Decimal (sgn c * int m) (e + int k))"
    unfolding m_def k_def n_def a_def
    using gt[unfolded n_def] by (simp add: dec_fix_def Let_def)
  show ?thesis
  proof (cases "prec < ndigits m")
    case True
    then have "\<not> m < 10 ^ prec" using ndigits_le_iff[of prec m] by (simp add: prec_def)
    then have m: "m = 10 ^ prec" using mhi by simp
    have d: "m div 10 = 10 ^ (prec - 1)" by (simp add: m prec_def)
    have "dec_fix (Decimal c e) = Decimal (sgn c * int (m div 10)) (e + int (k + 1))"
      using fx True by simp
    moreover have "(10::nat) ^ (prec - 1) < 10 ^ prec" by (simp add: prec_def)
    ultimately show ?thesis using d by (intro exI[of _ "m div 10"] exI[of _ "k + 1"]) simp
  next
    case False
    then have "m < 10 ^ prec" using ndigits_le_iff[of prec m] by (simp add: prec_def)
    then show ?thesis
      using fx False mlo k by (intro exI[of _ m] exI[of _ k]) simp
  qed
qed

lemma prec_pos: "0 < prec"
  by (simp add: prec_def)

lemma ndigits_gt_prec: "prec < ndigits m \<longleftrightarrow> \<not> m < 10 ^ prec"
  using ndigits_le_iff[OF prec_pos, of m] by linarith

text \<open>The rounding of a coefficient of 29 digits.\<close>

lemma dec_fix_one_digit:
  assumes "10 ^ prec \<le> \<bar>c\<bar>" and "\<bar>c\<bar> < 10 ^ (prec + 1)"
  shows "dec_fix (Decimal c e) =
           (let m = round_half_even (nat \<bar>c\<bar>) 1
            in if m < 10 ^ prec then Decimal (sgn c * int m) (e + 1)
               else Decimal (sgn c * int (m div 10)) (e + 2))"
proof -
  have lo: "10 ^ (prec + 1 - 1) \<le> nat \<bar>c\<bar>" using assms(1) by (simp add: le_nat_iff)
  have hi: "nat \<bar>c\<bar> < 10 ^ (prec + 1)" using assms(2) by (simp add: nat_less_iff)
  have n: "ndigits (nat \<bar>c\<bar>) = prec + 1" using ndigits_eq[OF _ lo hi] by simp
  have k: "ndigits (nat \<bar>c\<bar>) - prec = 1" and g: "\<not> ndigits (nat \<bar>c\<bar>) \<le> prec"
    by (simp_all add: n)
  show ?thesis
    unfolding dec_fix_def Let_def decimal.sel k
    using g by (simp add: ndigits_gt_prec)
qed

lemma dec_fix_sgn: "sgn (coef (dec_fix d)) = sgn (coef d)"
proof (cases d)
  case (Decimal c e)
  show ?thesis
  proof (cases "\<bar>c\<bar> < 10 ^ prec")
    case True
    then show ?thesis by (simp add: Decimal dec_fix_id)
  next
    case False
    then have "10 ^ prec \<le> \<bar>c\<bar>" by simp
    from dec_fix_rounded[OF this, of e] obtain c' j where
      f: "dec_fix (Decimal c e) = Decimal (sgn c * int c') (e + int j)" and c': "10 ^ (prec - 1) \<le> c'"
      by blast
    have "0 < c'" using c' by (simp add: prec_def)
    then show ?thesis by (simp add: Decimal f sgn_mult)
  qed
qed

lemma dval_fix_pos_iff: "0 < dval (dec_fix d) \<longleftrightarrow> 0 < dval d"
  using dec_fix_sgn[of d] by (simp add: dval_pos_iff sgn_if split: if_splits)

lemma dval_fix_neg_iff: "dval (dec_fix d) < 0 \<longleftrightarrow> dval d < 0"
  using dec_fix_sgn[of d] by (simp add: dval_neg_iff sgn_if split: if_splits)

subsection \<open>Subtraction\<close>

lemma dval_sub_exact_result:
  "dval (case align a b of (x, y) \<Rightarrow> Decimal (x - y) (min (expo a) (expo b))) = dval a - dval b"
proof -
  obtain x y where xy: "align a b = (x, y)" by (cases "align a b")
  show ?thesis
    using align_fst[of a b] align_snd[of a b] xy
    by (simp add: dval_Decimal left_diff_distrib)
qed

lemma dec_sub_pos_iff: "0 < dval (dec_sub a b) \<longleftrightarrow> dval b < dval a"
proof -
  obtain x y where xy: "align a b = (x, y)" by (cases "align a b")
  have "0 < dval (dec_sub a b) \<longleftrightarrow> 0 < dval (Decimal (x - y) (min (expo a) (expo b)))"
    by (simp add: dec_sub_def xy dval_fix_pos_iff)
  then show ?thesis using dval_sub_exact_result[of a b] xy by simp
qed

lemma dec_sub_neg_iff: "dval (dec_sub a b) < 0 \<longleftrightarrow> dval a < dval b"
proof -
  obtain x y where xy: "align a b = (x, y)" by (cases "align a b")
  have "dval (dec_sub a b) < 0 \<longleftrightarrow> dval (Decimal (x - y) (min (expo a) (expo b))) < 0"
    by (simp add: dec_sub_def xy dval_fix_neg_iff)
  then show ?thesis using dval_sub_exact_result[of a b] xy by simp
qed

lemma dec_sub_le_zero_iff: "dec_le (dec_sub a b) dec_zero \<longleftrightarrow> dval a \<le> dval b"
  using dec_sub_pos_iff[of a b] by (auto simp: dec_le_iff dval_zero not_less[symmetric])

text \<open>
  A difference of two multiples of \<open>10 ^ e\<close> whose magnitude is below \<open>10 ^ (28 + e)\<close> is not
  rounded.
\<close>

lemma dec_sub_exact:
  assumes ea: "e \<le> expo a" and eb: "e \<le> expo b"
      and bd: "\<bar>dval a - dval b\<bar> < 10 powi (int prec + e)"
  shows "dval (dec_sub a b) = dval a - dval b" and "e \<le> expo (dec_sub a b)"
proof -
  obtain x y where xy: "align a b = (x, y)" by (cases "align a b")
  let ?m = "min (expo a) (expo b)"
  have em: "e \<le> ?m" using ea eb by simp
  have v: "of_int (x - y) * 10 powi ?m = dval a - dval b"
    using dval_sub_exact_result[of a b] xy by (simp add: dval_Decimal)
  have "(10::rat) powi (int prec + e) \<le> 10 powi (int prec + ?m)"
    using em by (simp add: power_int_increasing)
  then have "\<bar>(of_int (x - y) :: rat) * 10 powi ?m\<bar> < 10 powi (int prec + ?m)"
    using bd v by linarith
  then have "\<bar>of_int (x - y) :: rat\<bar> * 10 powi ?m < 10 ^ prec * 10 powi ?m"
    using pow10_pos[of ?m] by (simp add: abs_mult power_int_add)
  then have "\<bar>of_int (x - y) :: rat\<bar> < 10 ^ prec"
    using pow10_pos[of ?m] by (simp add: mult_less_cancel_right_pos)
  then have "(of_int \<bar>x - y\<bar> :: rat) < of_int (10 ^ prec)" by simp
  then have "\<bar>x - y\<bar> < 10 ^ prec" by (simp only: of_int_less_iff)
  then have f: "dec_sub a b = Decimal (x - y) ?m"
    by (simp add: dec_sub_def xy dec_fix_id)
  show "dval (dec_sub a b) = dval a - dval b" using f v by (simp add: dval_Decimal)
  show "e \<le> expo (dec_sub a b)" using f em by simp
qed

lemma trunc_rat_of_int_div:
  "y \<noteq> 0 \<Longrightarrow> trunc_rat (of_int x / of_int y) = sgn x * sgn y * (\<bar>x\<bar> div \<bar>y\<bar>)"
proof -
  assume y: "y \<noteq> 0"
  have fl: "\<lfloor>(of_int \<bar>x\<bar> :: rat) / of_int \<bar>y\<bar>\<rfloor> = \<bar>x\<bar> div \<bar>y\<bar>"
    by (rule floor_divide_of_int_eq)
  have ab: "\<bar>(of_int x :: rat) / of_int y\<bar> = of_int \<bar>x\<bar> / of_int \<bar>y\<bar>"
    by simp
  show ?thesis
  proof (cases "0 \<le> (of_int x :: rat) / of_int y")
    case True
    then have "(of_int x :: rat) / of_int y = of_int \<bar>x\<bar> / of_int \<bar>y\<bar>"
      using ab by linarith
    moreover have "sgn x * sgn y = 1 \<or> x = 0"
      using True y by (auto simp: sgn_if zero_le_divide_iff split: if_splits)
    ultimately show ?thesis using True fl by (auto simp: trunc_rat_def)
  next
    case False
    then have "- ((of_int x :: rat) / of_int y) = of_int \<bar>x\<bar> / of_int \<bar>y\<bar>"
      using ab by linarith
    moreover have "sgn x * sgn y = - 1"
      using False y by (auto simp: sgn_if zero_le_divide_iff not_le split: if_splits)
    ultimately show ?thesis using False fl by (simp add: trunc_rat_def)
  qed
qed

subsection \<open>Division and quantisation\<close>

lemma dec_floordiv_eq:
  assumes "dval b \<noteq> 0"
  shows "dec_floordiv a b =
           (if \<bar>trunc_rat (dval a / dval b)\<bar> < 10 ^ prec
            then Inr (Decimal (trunc_rat (dval a / dval b)) 0) else Inl InvalidOperation)"
proof -
  obtain x y where xy: "align a b = (x, y)" by (cases "align a b")
  let ?p = "(10::rat) powi (min (expo a) (expo b))"
  have a: "dval a = of_int x * ?p" and b: "dval b = of_int y * ?p"
    using align_fst[of a b] align_snd[of a b] xy by simp_all
  have p: "?p \<noteq> 0" using pow10_pos[of "min (expo a) (expo b)"] by simp
  have y: "y \<noteq> 0" using assms b by auto
  have "dval a / dval b = of_int x / of_int y"
    using p by (simp add: a b)
  then have t: "trunc_rat (dval a / dval b) = sgn x * sgn y * (\<bar>x\<bar> div \<bar>y\<bar>)"
    using trunc_rat_of_int_div[OF y, of x] by simp
  have "\<bar>sgn x * sgn y * (\<bar>x\<bar> div \<bar>y\<bar>)\<bar> = \<bar>x\<bar> div \<bar>y\<bar>"
    using y by (cases "x = 0") (simp_all add: abs_mult pos_imp_zdiv_nonneg_iff)
  then show ?thesis
    using y by (simp add: dec_floordiv_def xy t)
qed

lemma quantize_down_fix:
  assumes "expo s = e"
  shows "quantize_down (dec_fix (Decimal c e)) s =
           (if \<bar>c\<bar> < 10 ^ prec then Inr (Decimal c e) else Inl InvalidOperation)"
proof (cases "\<bar>c\<bar> < 10 ^ prec")
  case True
  then have "nat \<bar>c\<bar> < 10 ^ prec" by (simp add: nat_less_iff)
  then have "ndigits (nat \<bar>c\<bar>) \<le> prec"
    using ndigits_le_iff[of prec "nat \<bar>c\<bar>"] by (simp add: prec_def)
  then show ?thesis
    using True assms by (simp add: dec_fix_id quantize_down_def)
next
  case False
  then have "10 ^ prec \<le> \<bar>c\<bar>" by simp
  from dec_fix_rounded[OF this, of e] obtain c' j where
    f: "dec_fix (Decimal c e) = Decimal (sgn c * int c') (e + int j)" and j: "0 < j"
    and lo: "10 ^ (prec - 1) \<le> c'" and hi: "c' < 10 ^ prec"
    by blast
  have c0: "c \<noteq> 0" using False by auto
  have c'0: "0 < c'" using lo by (simp add: prec_def)
  have ab: "nat \<bar>sgn c * int c'\<bar> = c'" using c0 by (simp add: abs_mult)
  have nd: "ndigits c' = prec" using ndigits_eq[OF _ lo hi] by (simp add: prec_def)
  have nz: "sgn c * int c' \<noteq> 0" using c0 c'0 by (simp add: sgn_if)
  show ?thesis
    using False assms j nz by (simp add: f quantize_down_def ab nd)
qed

text \<open>
  The step adjustment \<^verbatim>\<open>(q // s * s).quantize(s, rounding=ROUND_DOWN)\<close> for a positive
  step: it returns the multiple of the step when the coefficient of that multiple, at the
  exponent of the step, has at most 28 digits, and raises otherwise.
\<close>

lemma dec_step:
  assumes "dec_pos s"
  shows "try_bind (dec_floordiv q s) (\<lambda>k. quantize_down (dec_mul k s) s) =
           (if \<bar>trunc_rat (dval q / dval s) * coef s\<bar> < 10 ^ prec
            then Inr (Decimal (trunc_rat (dval q / dval s) * coef s) (expo s))
            else Inl InvalidOperation)"
proof -
  let ?k = "trunc_rat (dval q / dval s)"
  have cs: "1 \<le> coef s" using assms by (simp add: dec_pos_def)
  have s0: "dval s \<noteq> 0" using assms dval_pos_iff[of s] by (simp add: dec_pos_def)
  have le: "\<bar>?k\<bar> \<le> \<bar>?k * coef s\<bar>"
    using cs by (simp add: abs_mult mult_le_cancel_left1)
  show ?thesis
  proof (cases "\<bar>?k\<bar> < 10 ^ prec")
    case True
    have "quantize_down (dec_mul (Decimal ?k 0) s) s =
            (if \<bar>?k * coef s\<bar> < 10 ^ prec then Inr (Decimal (?k * coef s) (expo s))
             else Inl InvalidOperation)"
      using quantize_down_fix[of s "expo s" "?k * coef s"] by (simp add: dec_mul_def)
    then show ?thesis
      using True by (simp add: dec_floordiv_eq[OF s0] try_bind_def)
  next
    case False
    then have "\<not> \<bar>?k * coef s\<bar> < 10 ^ prec" using le by linarith
    then show ?thesis
      using False by (simp add: dec_floordiv_eq[OF s0] try_bind_def)
  qed
qed

lemma dval_units: "dval (Decimal (k * coef s) (expo s)) = of_int k * dval s"
  by (simp add: dval_def mult.assoc)

subsection \<open>The quantity rule on values\<close>

lemma dval_clamped:
  "dval (case max_quantity a of
           None \<Rightarrow> (case min_quantity a of None \<Rightarrow> q | Some m \<Rightarrow> py_max m q)
         | Some mx \<Rightarrow> py_min mx (case min_quantity a of None \<Rightarrow> q | Some m \<Rightarrow> py_max m q))
   = clamp_val (map_option dval (min_quantity a)) (map_option dval (max_quantity a)) (dval q)"
  by (cases "min_quantity a"; cases "max_quantity a")
     (simp_all add: clamp_val_def dval_py_max dval_py_min)

lemma ensure_valid_quantity_no_step:
  assumes "step_size a = None \<or> (\<exists>s. step_size a = Some s \<and> \<not> dec_pos s)"
  shows "\<exists>r. ensure_valid_quantity a q = Inr r
           \<and> dval r = clamp_val (map_option dval (min_quantity a))
                        (map_option dval (max_quantity a)) (dval q)"
  using assms dval_clamped[where a = a and q = q]
  by (auto simp: ensure_valid_quantity_def Let_def)

lemma ensure_valid_quantity_step:
  assumes st: "step_size a = Some s" and p: "dec_pos s"
  shows "ensure_valid_quantity a q =
           (let k = trunc_rat (clamp_val (map_option dval (min_quantity a))
                                 (map_option dval (max_quantity a)) (dval q) / dval s)
            in if \<bar>k * coef s\<bar> < 10 ^ prec
               then (case min_quantity a of
                       Some m \<Rightarrow> if dec_lt (Decimal (k * coef s) (expo s)) m then Inr dec_zero
                                 else Inr (Decimal (k * coef s) (expo s))
                     | None \<Rightarrow> Inr (Decimal (k * coef s) (expo s)))
               else Inl InvalidOperation)"
proof -
  let ?q2 = "case max_quantity a of
               None \<Rightarrow> (case min_quantity a of None \<Rightarrow> q | Some m \<Rightarrow> py_max m q)
             | Some mx \<Rightarrow> py_min mx (case min_quantity a of None \<Rightarrow> q | Some m \<Rightarrow> py_max m q)"
  let ?F = "\<lambda>q3. case min_quantity a of
                    Some m \<Rightarrow> if dec_lt q3 m then Inr dec_zero else Inr q3
                  | None \<Rightarrow> Inr q3"
  have "ensure_valid_quantity a q =
          try_bind (dec_floordiv ?q2 s) (\<lambda>k. try_bind (quantize_down (dec_mul k s) s) ?F)"
    using st p by (simp add: ensure_valid_quantity_def Let_def)
  also have "\<dots> = try_bind (try_bind (dec_floordiv ?q2 s) (\<lambda>k. quantize_down (dec_mul k s) s)) ?F"
    by (simp only: try_bind_assoc)
  also have "\<dots> = try_bind (if \<bar>trunc_rat (dval ?q2 / dval s) * coef s\<bar> < 10 ^ prec
                             then Inr (Decimal (trunc_rat (dval ?q2 / dval s) * coef s) (expo s))
                             else Inl InvalidOperation) ?F"
    by (simp only: dec_step[OF p])
  finally show ?thesis
    by (simp only: dval_clamped) (simp add: try_bind_def Let_def)
qed

lemma ensure_valid_quantity_Inr:
  assumes "ensure_valid_quantity a q = Inr r"
  shows "steps_fit a (dval q)"
    and "dval r = evq_val (map_option dval (min_quantity a)) (map_option dval (max_quantity a))
                    (map_option dval (step_size a)) (dval q)"
proof -
  let ?c = "clamp_val (map_option dval (min_quantity a)) (map_option dval (max_quantity a)) (dval q)"
  have main: "steps_fit a (dval q)
      \<and> dval r = evq_val (map_option dval (min_quantity a)) (map_option dval (max_quantity a))
                    (map_option dval (step_size a)) (dval q)"
  proof (cases "\<exists>s. step_size a = Some s \<and> dec_pos s")
    case False
    then have n: "step_size a = None \<or> (\<exists>s. step_size a = Some s \<and> \<not> dec_pos s)"
      by (cases "step_size a") auto
    from ensure_valid_quantity_no_step[OF n, of q] have "dval r = ?c" using assms by auto
    then show ?thesis
      using False by (auto simp: steps_fit_def evq_val_def dec_pos_iff split: option.splits)
  next
    case True
    then obtain s where st: "step_size a = Some s" and p: "dec_pos s" by blast
    let ?k = "trunc_rat (?c / dval s)"
    let ?q3 = "Decimal (?k * coef s) (expo s)"
    note e = ensure_valid_quantity_step[OF st p, of q]
    have fit: "\<bar>?k * coef s\<bar> < 10 ^ prec"
      using e assms by (auto simp: Let_def split: if_splits)
    define R :: "error + decimal" where "R = (case min_quantity a of
                           Some m \<Rightarrow> if dec_lt ?q3 m then Inr dec_zero else Inr ?q3
                         | None \<Rightarrow> Inr ?q3)"
    have "ensure_valid_quantity a q = R"
      using e fit by (simp add: Let_def R_def)
    then have "R = Inr r" using assms by simp
    note r = this[unfolded R_def]
    have v: "dval ?q3 = stepdown (dval s) ?c" by (simp add: dval_units stepdown_def)
    have s: "0 < dval s" using p by (simp add: dec_pos_iff)
    have "dval r = evq_val (map_option dval (min_quantity a)) (map_option dval (max_quantity a))
                     (Some (dval s)) (dval q)"
      using r v s by (cases "min_quantity a") (auto simp: evq_val_def Let_def dec_lt_iff dval_zero
                                                split: if_splits)
    then show ?thesis using st p fit by (simp add: steps_fit_def)
  qed
  show "steps_fit a (dval q)" using main by blast
  show "dval r = evq_val (map_option dval (min_quantity a)) (map_option dval (max_quantity a))
                    (map_option dval (step_size a)) (dval q)"
    using main by blast
qed

lemma ensure_valid_quantity_returns:
  assumes "steps_fit a (dval q)"
  shows "\<exists>r. ensure_valid_quantity a q = Inr r"
proof (cases "\<exists>s. step_size a = Some s \<and> dec_pos s")
  case False
  then have n: "step_size a = None \<or> (\<exists>s. step_size a = Some s \<and> \<not> dec_pos s)"
    by (cases "step_size a") auto
  from ensure_valid_quantity_no_step[OF n, of q] show ?thesis by blast
next
  case True
  then obtain s where st: "step_size a = Some s" and p: "dec_pos s" by blast
  have fit: "\<bar>trunc_rat (clamp_val (map_option dval (min_quantity a))
                            (map_option dval (max_quantity a)) (dval q) / dval s) * coef s\<bar> < 10 ^ prec"
    using assms st p by (simp add: steps_fit_def)
  show ?thesis
    using fit by (cases "min_quantity a") (simp_all add: ensure_valid_quantity_step[OF st p] Let_def)
qed

lemma trunc_rat_of_int: "trunc_rat (of_int k) = k"
  by (simp add: trunc_rat_def)

lemma trunc_rat_mono: "x \<le> y \<Longrightarrow> trunc_rat x \<le> trunc_rat y"
proof -
  assume xy: "x \<le> y"
  consider "0 \<le> x" | "x < 0" "y < 0" | "x < 0" "0 \<le> y" by linarith
  then show ?thesis
  proof cases
    case 1
    then show ?thesis using xy by (simp add: trunc_rat_def floor_mono)
  next
    case 2
    have "\<lfloor>- y\<rfloor> \<le> \<lfloor>- x\<rfloor>" using xy by (simp add: floor_mono)
    then show ?thesis using 2 by (simp add: trunc_rat_def)
  next
    case 3
    have "0 \<le> \<lfloor>- x\<rfloor>" using 3 by simp
    moreover have "0 \<le> \<lfloor>y\<rfloor>" using 3 by simp
    ultimately have "- \<lfloor>- x\<rfloor> \<le> \<lfloor>y\<rfloor>" by linarith
    then show ?thesis using 3 by (simp add: trunc_rat_def)
  qed
qed

lemma stepdown_mono: "0 < s \<Longrightarrow> x \<le> y \<Longrightarrow> stepdown s x \<le> stepdown s y"
  by (simp add: stepdown_def trunc_rat_mono divide_right_mono)

lemma stepdown_idem: "0 < s \<Longrightarrow> stepdown s (stepdown s x) = stepdown s x"
  by (simp add: stepdown_def trunc_rat_of_int)

lemma stepdown_multiple: "0 < s \<Longrightarrow> stepdown s (of_int k * s) = of_int k * s"
  by (simp add: stepdown_def trunc_rat_of_int)

lemma clamp_val_mono: "x \<le> y \<Longrightarrow> clamp_val m mx x \<le> clamp_val m mx y"
  by (auto simp: clamp_val_def split: option.splits)

lemma clamp_val_idem: "clamp_val m mx (clamp_val m mx x) = clamp_val m mx x"
  by (auto simp: clamp_val_def split: option.splits)

lemma evq_val_idem:
  assumes x: "0 \<le> x"
  shows "evq_val m mx st (evq_val m mx st x) = evq_val m mx st x"
proof (cases "\<exists>s. st = Some s \<and> 0 < s")
  case False
  then have "\<And>z. evq_val m mx st z = clamp_val m mx z"
    by (auto simp: evq_val_def split: option.splits)
  then show ?thesis by (simp add: clamp_val_idem)
next
  case True
  then obtain s where st: "st = Some s" and s: "0 < s" by blast
  define g where "g z = stepdown s (clamp_val m mx z)" for z
  have ev: "\<And>z. evq_val m mx st z = (case m of Some v \<Rightarrow> if g z < v then 0 else g z | None \<Rightarrow> g z)"
    by (simp add: evq_val_def st s g_def Let_def split: option.splits)
  have g_mono: "\<And>u v. u \<le> v \<Longrightarrow> g u \<le> g v"
    by (simp add: g_def stepdown_mono[OF s] clamp_val_mono)
  show ?thesis
  proof (cases "\<exists>v. m = Some v \<and> g x < v")
    case True
    then obtain v where m: "m = Some v" and lt: "g x < v" by blast
    have "g 0 \<le> g x" using g_mono x by blast
    then have lt0: "g 0 < v" using lt by linarith
    have r1: "evq_val m mx st x = 0" using ev[of x] m lt by simp
    have r2: "evq_val m mx st 0 = 0" using ev[of 0] m lt0 by simp
    show ?thesis by (simp only: r1 r2)
  next
    case False
    then have res: "evq_val m mx st x = g x"
      by (auto simp: ev split: option.splits)
    have ge: "\<And>v. m = Some v \<Longrightarrow> v \<le> g x"
      using False by (auto simp: not_less)
    let ?w = "clamp_val m mx x"
    have gx: "g x = stepdown s ?w" by (simp add: g_def)
    have c1: "(case m of Some v \<Rightarrow> max v (g x) | None \<Rightarrow> g x) = g x"
      using ge by (auto split: option.splits)
    have gg: "g (g x) = g x"
    proof (cases "\<exists>v. mx = Some v \<and> v < g x")
      case False
      then have cl: "clamp_val m mx (g x) = g x"
        using c1 by (auto simp: clamp_val_def Let_def split: option.splits)
      have "g (g x) = stepdown s (clamp_val m mx (g x))" by (rule g_def)
      also have "\<dots> = stepdown s (g x)" by (simp only: cl)
      also have "\<dots> = g x" by (simp add: gx stepdown_idem[OF s])
      finally show ?thesis .
    next
      case True
      then obtain v where mx: "mx = Some v" and v: "v < g x" by blast
      have cl: "clamp_val m mx (g x) = v"
        using c1 mx v by (simp add: clamp_val_def Let_def)
      have wv: "?w \<le> v" using mx by (simp add: clamp_val_def Let_def)
      have "stepdown s ?w \<le> stepdown s v" using wv stepdown_mono[OF s] by blast
      moreover have "stepdown s v \<le> stepdown s (g x)"
        using v stepdown_mono[OF s, of v "g x"] by simp
      moreover have "stepdown s (g x) = g x"
        by (simp add: gx stepdown_idem[OF s])
      ultimately have sv: "stepdown s v = g x" using gx by linarith
      have "g (g x) = stepdown s (clamp_val m mx (g x))" by (rule g_def)
      also have "\<dots> = stepdown s v" by (simp only: cl)
      finally show ?thesis using sv by simp
    qed
    have "evq_val m mx st (g x) = g x"
      using ev[of "g x"] ge gg by (auto split: option.splits)
    then show ?thesis by (simp only: res)
  qed
qed

lemma clamp_val_zero_units:
  assumes x: "0 \<le> x" and s: "0 < s"
  shows "\<bar>trunc_rat (clamp_val m mx 0 / s)\<bar> \<le> \<bar>trunc_rat (clamp_val m mx x / s)\<bar>"
proof (cases "0 \<le> clamp_val m mx 0")
  case True
  have le: "clamp_val m mx 0 / s \<le> clamp_val m mx x / s"
    using clamp_val_mono[OF x, of m mx] s by (simp add: divide_right_mono)
  have "0 \<le> clamp_val m mx 0 / s" using True s by simp
  then have "0 \<le> trunc_rat (clamp_val m mx 0 / s)" by (simp add: trunc_rat_def)
  then show ?thesis using trunc_rat_mono[OF le] by linarith
next
  case False
  then have "clamp_val m mx x = clamp_val m mx 0"
    using x by (auto simp: clamp_val_def Let_def max_def min_def split: option.splits if_splits)
  then show ?thesis by simp
qed

lemma evq_val_zero_or_same:
  assumes x: "0 \<le> x" and s: "0 < s"
  shows "evq_val m mx (Some s) x = 0
       \<or> stepdown s (clamp_val m mx (evq_val m mx (Some s) x)) = stepdown s (clamp_val m mx x)"
proof -
  define g where "g z = stepdown s (clamp_val m mx z)" for z
  define y where "y = evq_val m mx (Some s) x"
  have ev: "\<And>z. evq_val m mx (Some s) z = 0 \<or> evq_val m mx (Some s) z = g z"
    using s by (auto simp: evq_val_def g_def Let_def split: option.splits)
  have idem: "evq_val m mx (Some s) y = y" unfolding y_def by (rule evq_val_idem[OF x])
  show ?thesis
  proof (cases "y = 0")
    case True
    then show ?thesis by (simp add: y_def)
  next
    case False
    then have yx: "y = g x" using ev[of x] by (simp add: y_def)
    have "g y = y" using ev[of y] idem False by auto
    then have "g y = g x" using yx by simp
    then show ?thesis by (simp add: g_def y_def)
  qed
qed

text \<open>A result of the quantity rule is a quantity on which the rule returns again.\<close>

lemma steps_fit_result:
  assumes q: "0 \<le> dval q" and r: "ensure_valid_quantity a q = Inr r"
  shows "steps_fit a (dval r)"
proof (cases "\<exists>s. step_size a = Some s \<and> dec_pos s")
  case False
  then show ?thesis by (auto simp: steps_fit_def split: option.splits)
next
  case True
  then obtain s where st: "step_size a = Some s" and p: "dec_pos s" by blast
  have s: "0 < dval s" using p by (simp add: dec_pos_iff)
  have cs: "0 < coef s" using p by (simp add: dec_pos_def)
  let ?m = "map_option dval (min_quantity a)" and ?mx = "map_option dval (max_quantity a)"
  let ?K = "\<lambda>z. trunc_rat (clamp_val ?m ?mx z / dval s)"
  note e = ensure_valid_quantity_Inr[OF r]
  have fit: "\<bar>?K (dval q) * coef s\<bar> < 10 ^ prec"
    using e(1) st p by (simp add: steps_fit_def)
  have v: "dval r = evq_val ?m ?mx (Some (dval s)) (dval q)" using e(2) st by simp
  have "\<bar>?K (dval r)\<bar> \<le> \<bar>?K (dval q)\<bar>"
    using evq_val_zero_or_same[OF q s, of ?m ?mx]
  proof
    assume "evq_val ?m ?mx (Some (dval s)) (dval q) = 0"
    then have "dval r = 0" using v by simp
    then show ?thesis using clamp_val_zero_units[OF q s, of ?m ?mx] by simp
  next
    assume "stepdown (dval s) (clamp_val ?m ?mx (evq_val ?m ?mx (Some (dval s)) (dval q)))
            = stepdown (dval s) (clamp_val ?m ?mx (dval q))"
    then have "(of_int (?K (dval r)) :: rat) * dval s = of_int (?K (dval q)) * dval s"
      by (simp add: stepdown_def v)
    then have "(of_int (?K (dval r)) :: rat) = of_int (?K (dval q))" using s by simp
    then have "?K (dval r) = ?K (dval q)" by (simp only: of_int_eq_iff)
    then show ?thesis by simp
  qed
  then have "\<bar>?K (dval r) * coef s\<bar> \<le> \<bar>?K (dval q) * coef s\<bar>"
    using cs by (simp add: abs_mult mult_right_mono)
  then show ?thesis using fit st p by (simp add: steps_fit_def)
qed
section \<open>Valid quantities\<close>

text \<open>
  C6, as amended. For every asset and every non-negative quantity \<open>q\<close> on which
  \<open>ensure_valid_quantity\<close> returns, it returns again on its own result, with an equal
  decimal; and when the step size is set and positive, the result is an integer multiple
  of the step size (zero is the multiple with factor 0).
\<close>

theorem ensure_valid_quantity_idempotent:
  assumes "dec_le dec_zero q" and "ensure_valid_quantity a q = Inr r"
  shows "(\<exists>r'. ensure_valid_quantity a r = Inr r' \<and> dec_eq r' r)
       \<and> (\<forall>s. step_size a = Some s \<and> dec_pos s \<longrightarrow> (\<exists>k::int. dval r = of_int k * dval s))"
proof
  let ?m = "map_option dval (min_quantity a)" and ?mx = "map_option dval (max_quantity a)"
  let ?st = "map_option dval (step_size a)"
  have q: "0 \<le> dval q" using assms(1) by (simp add: dec_le_iff dval_zero)
  have v: "dval r = evq_val ?m ?mx ?st (dval q)"
    by (rule ensure_valid_quantity_Inr(2)[OF assms(2)])
  obtain r' where r': "ensure_valid_quantity a r = Inr r'"
    using ensure_valid_quantity_returns[OF steps_fit_result[OF q assms(2)]] by blast
  have "dval r' = evq_val ?m ?mx ?st (dval r)"
    by (rule ensure_valid_quantity_Inr(2)[OF r'])
  then have "dval r' = dval r"
    using evq_val_idem[OF q, of ?m ?mx ?st] by (simp add: v)
  then show "\<exists>r'. ensure_valid_quantity a r = Inr r' \<and> dec_eq r' r"
    using r' by (auto simp: dec_eq_iff)
  show "\<forall>s. step_size a = Some s \<and> dec_pos s \<longrightarrow> (\<exists>k::int. dval r = of_int k * dval s)"
  proof (intro allI impI)
    fix s assume h: "step_size a = Some s \<and> dec_pos s"
    then have s: "0 < dval s" by (simp add: dec_pos_iff)
    let ?y = "stepdown (dval s) (clamp_val ?m ?mx (dval q))"
    have "dval r = ?y \<or> dval r = 0"
      using h s by (auto simp: v evq_val_def Let_def split: option.splits)
    then show "\<exists>k::int. dval r = of_int k * dval s"
    proof
      assume "dval r = ?y"
      then show ?thesis unfolding stepdown_def by blast
    next
      assume "dval r = 0"
      then have "dval r = of_int 0 * dval s" by simp
      then show ?thesis by blast
    qed
  qed
qed

lemmas quantity_eval =
  ensure_valid_quantity_def py_max_def py_min_def dec_lt_def align_def dec_pos_def
  dec_floordiv_def dec_mul_def dec_fix_id quantize_down_def ndigits.simps dec_zero_def
  try_bind_def prec_def Let_def

lemma ensure_valid_quantity_example:
  "ensure_valid_quantity asset_btc (Decimal 12345 (- 4)) = Inr (Decimal 1234 (- 3))"
  by (simp add: asset_btc_def quantity_eval)

lemma ensure_valid_quantity_example_again:
  "ensure_valid_quantity asset_btc (Decimal 1234 (- 3)) = Inr (Decimal 1234 (- 3))"
  by (simp add: asset_btc_def quantity_eval)

theorem ensure_valid_quantity_idempotent_witness:
  "dec_le dec_zero (Decimal 12345 (- 4))
   \<and> ensure_valid_quantity asset_btc (Decimal 12345 (- 4)) = Inr (Decimal 1234 (- 3))
   \<and> (\<exists>r'. ensure_valid_quantity asset_btc (Decimal 1234 (- 3)) = Inr r'
          \<and> dec_eq r' (Decimal 1234 (- 3)))
   \<and> (\<exists>k::int. dval (Decimal 1234 (- 3)) = of_int k * dval (Decimal 1 (- 3)))"
proof -
  have h: "dec_le dec_zero (Decimal 12345 (- 4))"
    by (simp add: dec_le_def dec_zero_def align_def Let_def)
  have s: "step_size asset_btc = Some (Decimal 1 (- 3)) \<and> dec_pos (Decimal 1 (- 3))"
    by (simp add: asset_btc_def dec_pos_def)
  show ?thesis
    using h s ensure_valid_quantity_example
      ensure_valid_quantity_idempotent[OF h ensure_valid_quantity_example]
    by blast
qed

text \<open>
  The statement for every non-negative quantity fails, because the method does not return
  on every quantity: with the step size 0.001 and no bounds, the quantity \<open>10 ^ 25\<close> has
  \<open>10 ^ 28\<close> steps, a quotient of 29 digits, and \<^verbatim>\<open>//\<close> raises
  \<^verbatim>\<open>decimal.InvalidOperation\<close>.
\<close>

theorem ensure_valid_quantity_too_many_steps:
  "dec_le dec_zero (Decimal 1 25)
   \<and> step_size asset_step = Some (Decimal 1 (- 3))
   \<and> ensure_valid_quantity asset_step (Decimal 1 25) = Inl InvalidOperation"
  by (simp add: asset_step_def dec_le_def quantity_eval)

text \<open>
  C10, as amended. For an asset whose minimum \<open>m\<close> is set, whose step size is unset or is
  positive with \<open>m\<close> an integer multiple \<open>k\<close> of it within the precision (the coefficient of
  \<open>m\<close> at the exponent of the step size, \<open>k\<close> times the coefficient of the step size, has at
  most 28 digits), and whose maximum is unset or at least \<open>m\<close>, the method returns on every
  quantity \<open>q\<close> with \<open>0 < q < m\<close> and raises it to \<open>m\<close>: the result is larger than the
  quantity asked for, not zero.
\<close>

theorem ensure_valid_quantity_raises_to_minimum:
  assumes m: "min_quantity a = Some m"
      and st: "step_size a = None \<or>
               (\<exists>s k. step_size a = Some s \<and> dec_pos s \<and> dval m = of_int (k::int) * dval s
                  \<and> \<bar>k * coef s\<bar> < 10 ^ prec)"
      and q0: "dec_lt dec_zero q" and qm: "dec_lt q m"
      and mx: "max_quantity a = None \<or> (\<exists>mx. max_quantity a = Some mx \<and> dec_le m mx)"
  shows "\<exists>r. ensure_valid_quantity a q = Inr r \<and> dec_eq r m"
proof -
  have lt: "dval q < dval m" using qm by (simp add: dec_lt_iff)
  have cl: "clamp_val (Some (dval m)) (map_option dval (max_quantity a)) (dval q) = dval m"
    using lt mx by (auto simp: clamp_val_def dec_le_iff)
  have fit: "steps_fit a (dval q)"
    using st
  proof
    assume "step_size a = None"
    then show ?thesis by (simp add: steps_fit_def)
  next
    assume "\<exists>s k. step_size a = Some s \<and> dec_pos s \<and> dval m = of_int (k::int) * dval s
                  \<and> \<bar>k * coef s\<bar> < 10 ^ prec"
    then obtain s k where s: "step_size a = Some s" and p: "0 < dval s"
      and k: "dval m = of_int (k::int) * dval s" and b: "\<bar>k * coef s\<bar> < 10 ^ prec"
      by (auto simp: dec_pos_iff)
    have "trunc_rat (dval m / dval s) = k" using k p by (simp add: trunc_rat_of_int)
    then show ?thesis using s b by (simp add: steps_fit_def m cl)
  qed
  then obtain r where r: "ensure_valid_quantity a q = Inr r"
    using ensure_valid_quantity_returns by blast
  have "evq_val (Some (dval m)) (map_option dval (max_quantity a))
          (map_option dval (step_size a)) (dval q) = dval m"
    using st
  proof
    assume "step_size a = None"
    then show ?thesis by (simp add: evq_val_def cl)
  next
    assume "\<exists>s k. step_size a = Some s \<and> dec_pos s \<and> dval m = of_int (k::int) * dval s
                  \<and> \<bar>k * coef s\<bar> < 10 ^ prec"
    then obtain s k where s: "step_size a = Some s" and p: "0 < dval s"
      and k: "dval m = of_int (k::int) * dval s"
      by (auto simp: dec_pos_iff)
    have "stepdown (dval s) (dval m) = dval m"
      using stepdown_multiple[OF p, of k] k by simp
    then show ?thesis using s p by (simp add: evq_val_def cl)
  qed
  then have "dval r = dval m"
    using ensure_valid_quantity_Inr(2)[OF r] by (simp add: m)
  then show ?thesis using r by (auto simp: dec_eq_iff)
qed

theorem ensure_valid_quantity_raises_to_minimum_witness:
  "dec_lt (Decimal 5 (- 4)) (Decimal 1 (- 3))
   \<and> (\<exists>r. ensure_valid_quantity asset_btc (Decimal 5 (- 4)) = Inr r \<and> dec_eq r (Decimal 1 (- 3)))"
proof -
  have m: "min_quantity asset_btc = Some (Decimal 1 (- 3))" by (simp add: asset_btc_def)
  have st: "step_size asset_btc = None \<or>
            (\<exists>s k. step_size asset_btc = Some s \<and> dec_pos s
                \<and> dval (Decimal 1 (- 3)) = of_int (k::int) * dval s \<and> \<bar>k * coef s\<bar> < 10 ^ prec)"
  proof -
    have "step_size asset_btc = Some (Decimal 1 (- 3)) \<and> dec_pos (Decimal 1 (- 3))
          \<and> dval (Decimal 1 (- 3)) = of_int (1::int) * dval (Decimal 1 (- 3))
          \<and> \<bar>(1::int) * coef (Decimal 1 (- 3))\<bar> < 10 ^ prec"
      by (simp add: asset_btc_def dec_pos_def prec_def)
    then show ?thesis by blast
  qed
  have q0: "dec_lt dec_zero (Decimal 5 (- 4))"
    by (simp add: dec_lt_def dec_zero_def align_def Let_def)
  have qm: "dec_lt (Decimal 5 (- 4)) (Decimal 1 (- 3))"
    by (simp add: dec_lt_def align_def Let_def)
  have mx: "max_quantity asset_btc = None \<or>
            (\<exists>mx. max_quantity asset_btc = Some mx \<and> dec_le (Decimal 1 (- 3)) mx)"
    by (simp add: asset_btc_def dec_le_def align_def Let_def)
  show ?thesis
    using ensure_valid_quantity_raises_to_minimum[OF m st q0 qm mx] qm by simp
qed

text \<open>
  Without the condition on the maximum the statement fails: the maximum is enforced after
  the minimum, so an asset whose maximum 1 lies below its minimum 2 answers 1, not 2, to
  the request 1. Without the condition on the digits it fails as well: with the minimum
  \<open>10 ^ 28\<close> and the step size 1 the request 1 is raised to the minimum, whose quotient by
  the step has 29 digits, and \<^verbatim>\<open>//\<close> raises \<^verbatim>\<open>decimal.InvalidOperation\<close>.
\<close>

theorem ensure_valid_quantity_max_below_min:
  "ensure_valid_quantity asset_inverted (Decimal 1 0) = Inr (Decimal 1 0)
   \<and> \<not> dec_eq (Decimal 1 0) (Decimal 2 0)
   \<and> ensure_valid_quantity asset_huge_min (Decimal 1 0) = Inl InvalidOperation"
  by (simp add: asset_inverted_def asset_huge_min_def dec_eq_def quantity_eval)
section \<open>Strings of digits\<close>

lemma of_char_digit_char: "d < 10 \<Longrightarrow> (of_char (digit_char d) :: nat) = 48 + d"
  by (simp add: digit_char_def)

lemma is_digit_digit_char: "d < 10 \<Longrightarrow> is_digit (digit_char d)"
  by (simp add: is_digit_def of_char_digit_char)

lemma digit_val_digit_char: "d < 10 \<Longrightarrow> digit_val (digit_char d) = d"
  by (simp add: digit_val_def of_char_digit_char)

lemma digits_of_nonempty: "digits_of n \<noteq> []"
  by (subst digits_of.simps) simp

lemma digits_of_all_digits: "list_all is_digit (digits_of n)"
proof (induction n rule: digits_of.induct)
  case (1 n)
  show ?case
  proof (cases "n < 10")
    case True
    then show ?thesis by (subst digits_of.simps) (simp add: is_digit_digit_char)
  next
    case False
    then show ?thesis
      using 1 by (subst digits_of.simps) (simp add: is_digit_digit_char)
  qed
qed

lemma int_of_digits_snoc: "int_of_digits (xs @ [c]) = 10 * int_of_digits xs + digit_val c"
  by (simp add: int_of_digits_def)

lemma int_of_digits_digits_of: "int_of_digits (digits_of n) = n"
proof (induction n rule: digits_of.induct)
  case (1 n)
  show ?case
  proof (cases "n < 10")
    case True
    then show ?thesis
      by (subst digits_of.simps) (simp add: int_of_digits_def digit_val_digit_char)
  next
    case False
    then have "int_of_digits (digits_of (n div 10)) = n div 10" using 1 by simp
    then show ?thesis
      using False
      by (subst digits_of.simps) (simp add: int_of_digits_snoc digit_val_digit_char)
  qed
qed

lemma int_of_digits_append:
  "int_of_digits (xs @ ys) = int_of_digits xs * 10 ^ length ys + int_of_digits ys"
proof (induction ys rule: rev_induct)
  case Nil
  then show ?case by (simp add: int_of_digits_def)
next
  case (snoc y ys)
  have "int_of_digits (xs @ ys @ [y]) = 10 * int_of_digits (xs @ ys) + digit_val y"
    using int_of_digits_snoc[of "xs @ ys" y] by simp
  then show ?case
    using snoc by (simp add: int_of_digits_snoc algebra_simps)
qed

lemma int_of_digits_nil: "int_of_digits [] = 0"
  by (simp add: int_of_digits_def)

lemma int_of_digits_zeros: "int_of_digits (replicate k (CHR ''0'')) = 0"
proof (induction k)
  case 0
  then show ?case by (simp add: int_of_digits_nil)
next
  case (Suc k)
  have "replicate (Suc k) (CHR ''0'') = replicate k (CHR ''0'') @ [CHR ''0'']"
    by (simp add: replicate_append_same)
  then show ?case
    using Suc by (simp only: int_of_digits_snoc) (simp add: digit_val_def)
qed

lemma is_digit_zero: "is_digit (CHR ''0'')"
  by (simp add: is_digit_def)

lemma length_digits_of: "0 < k \<Longrightarrow> n < 10 ^ k \<Longrightarrow> length (digits_of n) \<le> k"
proof (induction n arbitrary: k rule: digits_of.induct)
  case (1 n)
  show ?case
  proof (cases "n < 10")
    case True
    then show ?thesis using 1(2) by (subst digits_of.simps) simp
  next
    case False
    then obtain j where k: "k = Suc j" using 1(2) by (cases k) auto
    have "j \<noteq> 0" using False 1(3) k by (cases j) auto
    moreover have "n div 10 < 10 ^ j" using 1(3) k by (simp add: less_mult_imp_div_less mult.commute)
    ultimately have "length (digits_of (n div 10)) \<le> j" using 1(1)[OF False, of j] by simp
    then show ?thesis using False k by (subst digits_of.simps) simp
  qed
qed

lemma length_zero_pad: "0 < w \<Longrightarrow> n < 10 ^ w \<Longrightarrow> length (zero_pad w n) = w"
  using length_digits_of[of w n] by (simp add: zero_pad_def)

lemma zero_pad_all_digits: "list_all is_digit (zero_pad w n)"
  using digits_of_all_digits[of n] by (auto simp: zero_pad_def list_all_iff is_digit_zero)

lemma int_of_digits_zero_pad: "int_of_digits (zero_pad w n) = n"
  by (simp add: zero_pad_def int_of_digits_append int_of_digits_zeros int_of_digits_digits_of)

section \<open>Reading back the string of a decimal\<close>

lemma is_digit_plain:
  "is_digit c \<Longrightarrow> \<not> py_isspace c \<and> c \<noteq> CHR ''_'' \<and> c \<noteq> CHR ''-'' \<and> c \<noteq> CHR ''+''
     \<and> c \<noteq> CHR ''.'' \<and> c \<noteq> CHR ''E'' \<and> c \<noteq> CHR ''e''"
  by (auto simp: is_digit_def py_isspace_def)

lemma dropWhile_none: "(\<forall>c\<in>set s. \<not> P c) \<Longrightarrow> dropWhile P s = s"
  by (cases s) auto

lemma py_strip_id: "(\<forall>c\<in>set s. \<not> py_isspace c) \<Longrightarrow> py_strip s = s"
  by (simp add: py_strip_def dropWhile_none)

lemma takeWhile_digits_stop:
  "list_all is_digit xs \<Longrightarrow> (ys = [] \<or> \<not> is_digit (hd ys)) \<Longrightarrow> takeWhile is_digit (xs @ ys) = xs"
  by (cases ys) (auto simp: list_all_iff takeWhile_append2)

lemma dropWhile_digits_stop:
  "list_all is_digit xs \<Longrightarrow> (ys = [] \<or> \<not> is_digit (hd ys)) \<Longrightarrow> dropWhile is_digit (xs @ ys) = ys"
  by (cases ys) (auto simp: list_all_iff dropWhile_append2)

lemma split_sign_digit: "xs \<noteq> [] \<Longrightarrow> is_digit (hd xs) \<Longrightarrow> split_sign xs = (1, xs)"
  using is_digit_plain[of "hd xs"] by (cases xs) auto

lemma parse_exponent_signed_str: "parse_exponent (signed_str e) = Some e"
proof -
  let ?ds = "digits_of (nat \<bar>e\<bar>)"
  have d: "?ds \<noteq> []" "list_all is_digit ?ds" "int (int_of_digits ?ds) = \<bar>e\<bar>"
    by (simp_all add: digits_of_nonempty digits_of_all_digits int_of_digits_digits_of)
  show ?thesis
  proof (cases "e < 0")
    case True
    then have "split_sign (signed_str e) = (- 1, ?ds)" by (simp add: signed_str_def)
    then show ?thesis using d True by (simp add: parse_exponent_def)
  next
    case False
    then have "split_sign (signed_str e) = (1, ?ds)" by (simp add: signed_str_def)
    then show ?thesis using d False by (simp add: parse_exponent_def)
  qed
qed

lemma signed_str_plain: "c \<in> set (signed_str e) \<Longrightarrow> \<not> py_isspace c \<and> c \<noteq> CHR ''_''"
  using digits_of_all_digits[of "nat \<bar>e\<bar>"] is_digit_plain[of c]
  by (auto simp: signed_str_def list_all_iff py_isspace_def split: if_splits)

lemma dec_parse_steps:
  assumes "filter (\<lambda>c. c \<noteq> CHR ''_'') (py_strip s) = s"
      and "split_sign s = (sg, s2)"
      and "takeWhile is_digit s2 = ip"
      and "dropWhile is_digit s2 = r1"
      and "(if r1 \<noteq> [] \<and> hd r1 = CHR ''.'' then takeWhile is_digit (tl r1) else []) = fp"
      and "(if r1 \<noteq> [] \<and> hd r1 = CHR ''.'' then dropWhile is_digit (tl r1) else r1) = r2"
      and "(if r2 = [] then Some 0
            else if hd r2 = CHR ''E'' \<or> hd r2 = CHR ''e'' then parse_exponent (tl r2)
            else None) = Some e"
      and "ip \<noteq> []"
  shows "dec_parse s = Some (Decimal (sg * int (int_of_digits (ip @ fp))) (e - int (length fp)))"
  unfolding dec_parse_def Let_def
  apply (simp only: assms(1-7) fst_conv snd_conv)
  apply (simp add: assms(8))
  done

lemma dec_parse_rendered:
  assumes ip: "ip \<noteq> []" "list_all is_digit ip"
      and fp: "list_all is_digit fp"
      and F: "F = [] \<and> fp = [] \<or> F = CHR ''.'' # fp"
      and X: "X = [] \<and> e = 0 \<or> X = CHR ''E'' # signed_str e"
      and S: "S = [] \<and> sg = 1 \<or> S = ''-'' \<and> sg = - 1"
  shows "dec_parse (S @ ip @ F @ X)
         = Some (Decimal (sg * int (int_of_digits (ip @ fp))) (e - int (length fp)))"
proof -
  let ?s = "S @ ip @ F @ X"
  have plain: "\<forall>c\<in>set ?s. \<not> py_isspace c \<and> c \<noteq> CHR ''_''"
  proof
    fix c assume "c \<in> set ?s"
    then consider "c \<in> set S" | "c \<in> set ip" | "c \<in> set F" | "c \<in> set X" by auto
    then show "\<not> py_isspace c \<and> c \<noteq> CHR ''_''"
    proof cases
      case 1 then show ?thesis using S by (auto simp: py_isspace_def)
    next
      case 2 then show ?thesis using ip is_digit_plain[of c] by (auto simp: list_all_iff)
    next
      case 3 then show ?thesis
        using F fp is_digit_plain[of c] by (auto simp: list_all_iff py_isspace_def)
    next
      case 4 then show ?thesis
        using X signed_str_plain[of c e] by (auto simp: py_isspace_def)
    qed
  qed
  have s1: "filter (\<lambda>c. c \<noteq> CHR ''_'') (py_strip ?s) = ?s"
    using plain by (simp add: py_strip_id)
  have hd_ip: "is_digit (hd (ip @ F @ X))" using ip by (cases ip) auto
  have sp: "split_sign ?s = (sg, ip @ F @ X)"
  proof (cases "S = []")
    case True
    then show ?thesis using S split_sign_digit[of "ip @ F @ X"] hd_ip ip by auto
  next
    case False
    then show ?thesis using S by auto
  qed
  have stopFX: "F @ X = [] \<or> \<not> is_digit (hd (F @ X))"
    using F X by (auto simp: is_digit_def)
  have tw: "takeWhile is_digit (ip @ F @ X) = ip"
    using takeWhile_digits_stop[OF ip(2) stopFX] by simp
  have dw: "dropWhile is_digit (ip @ F @ X) = F @ X"
    using dropWhile_digits_stop[OF ip(2) stopFX] by simp
  have stopX: "X = [] \<or> \<not> is_digit (hd X)"
    using X by (auto simp: is_digit_def)
  have ex: "(if X = [] then Some 0
             else if hd X = CHR ''E'' \<or> hd X = CHR ''e'' then parse_exponent (tl X) else None)
            = Some e"
    using X by (auto simp: parse_exponent_signed_str)
  have fr: "(if F @ X \<noteq> [] \<and> hd (F @ X) = CHR ''.'' then takeWhile is_digit (tl (F @ X)) else [])
            = fp"
  proof (cases "F = []")
    case True
    then have "fp = []" using F by auto
    moreover have "\<not> (X \<noteq> [] \<and> hd X = CHR ''.'')" using X by auto
    ultimately show ?thesis using True by auto
  next
    case False
    then have Fd: "F = CHR ''.'' # fp" using F by auto
    show ?thesis using takeWhile_digits_stop[OF fp stopX] by (simp add: Fd)
  qed
  have rs: "(if F @ X \<noteq> [] \<and> hd (F @ X) = CHR ''.'' then dropWhile is_digit (tl (F @ X)) else F @ X)
            = X"
  proof (cases "F = []")
    case True
    moreover have "\<not> (X \<noteq> [] \<and> hd X = CHR ''.'')" using X by auto
    ultimately show ?thesis by auto
  next
    case False
    then have Fd: "F = CHR ''.'' # fp" using F by auto
    show ?thesis using dropWhile_digits_stop[OF fp stopX] by (simp add: Fd)
  qed
  show ?thesis
    by (rule dec_parse_steps[OF s1 sp tw dw fr rs ex ip(1)])
qed

lemma int_of_digits_leading_zeros:
  "int_of_digits (''0'' @ replicate k (CHR ''0'') @ ds) = int_of_digits ds"
proof -
  have "''0'' @ replicate k (CHR ''0'') = replicate (Suc k) (CHR ''0'')" by simp
  then have "int_of_digits (''0'' @ replicate k (CHR ''0'')) = 0"
    using int_of_digits_zeros[of "Suc k"] by simp
  then show ?thesis
    using int_of_digits_append[of "''0'' @ replicate k (CHR ''0'')" ds] by simp
qed

text \<open>\<^verbatim>\<open>Decimal(str(d))\<close> is \<open>d\<close>, coefficient and exponent.\<close>

lemma dec_parse_dec_str: "dec_parse (dec_str d) = Some d"
proof -
  obtain c x where d: "d = Decimal c x" by (cases d)
  define ds where "ds = digits_of (nat \<bar>c\<bar>)"
  define n where "n = int (length ds)"
  define ld where "ld = x + n"
  define dp where "dp = (if x \<le> 0 \<and> - 6 < ld then ld else 1)"
  define IP where "IP = (if dp \<le> 0 then ''0''
                         else if n \<le> dp then ds @ replicate (nat (dp - n)) (CHR ''0'')
                         else take (nat dp) ds)"
  define FP where "FP = (if dp \<le> 0 then ''.'' @ replicate (nat (- dp)) (CHR ''0'') @ ds
                         else if n \<le> dp then [] else ''.'' @ drop (nat dp) ds)"
  define XP where "XP = (if ld = dp then [] else ''E'' @ signed_str (ld - dp))"
  define S where "S = (if c < 0 then ''-'' else [])"
  define sg where "sg = (if c < 0 then - 1 else (1::int))"
  have str: "dec_str (Decimal c x) = S @ IP @ FP @ XP"
    unfolding dec_str_def Let_def decimal.sel
    unfolding S_def IP_def FP_def XP_def dp_def ld_def n_def ds_def ..
  have ds: "ds \<noteq> []" "list_all is_digit ds" "int (int_of_digits ds) = \<bar>c\<bar>"
    by (simp_all add: ds_def digits_of_nonempty digits_of_all_digits int_of_digits_digits_of)
  have n: "0 < n" using ds(1) by (simp add: n_def)
  have S: "S = [] \<and> sg = 1 \<or> S = ''-'' \<and> sg = - 1" by (simp add: S_def sg_def)
  have sgc: "sg * \<bar>c\<bar> = c" by (simp add: sg_def)
  consider (p1) "x \<le> 0" "- 6 < ld" "ld \<le> 0"
    | (p2) "x \<le> 0" "- 6 < ld" "n \<le> ld"
    | (p3) "x \<le> 0" "- 6 < ld" "0 < ld" "ld < n"
    | (s1) "\<not> (x \<le> 0 \<and> - 6 < ld)" "n \<le> 1"
    | (s2) "\<not> (x \<le> 0 \<and> - 6 < ld)" "1 < n"
    by linarith
  then show ?thesis
  proof cases
    case p1
    let ?fp = "replicate (nat (- ld)) (CHR ''0'') @ ds"
    have dp: "dp = ld" using p1 by (simp add: dp_def)
    have parts: "IP = ''0''" "FP = CHR ''.'' # ?fp" "XP = []"
      using p1 by (simp_all add: IP_def FP_def XP_def dp)
    have fpd: "list_all is_digit ?fp" using ds(2) by (auto simp: list_all_iff is_digit_zero)
    have "dec_parse (S @ ''0'' @ (CHR ''.'' # ?fp) @ [])
          = Some (Decimal (sg * int (int_of_digits (''0'' @ ?fp))) (0 - int (length ?fp)))"
      by (rule dec_parse_rendered[OF _ _ fpd _ _ S]) (simp_all add: is_digit_zero)
    moreover have "int (int_of_digits (''0'' @ ?fp)) = \<bar>c\<bar>"
      using int_of_digits_leading_zeros[of "nat (- ld)" ds] ds(3) by simp
    moreover have "0 - int (length ?fp) = x"
      using p1 by (simp add: ld_def n_def)
    ultimately have "dec_parse (S @ ''0'' @ (CHR ''.'' # ?fp) @ []) = Some (Decimal c x)"
      using sgc by simp
    then show ?thesis by (simp only: d str parts)
  next
    case p2
    then have x0: "x = 0" by (simp add: ld_def)
    have dp: "dp = ld" using p2 by (simp add: dp_def)
    have ldn: "ld = n" using x0 by (simp add: ld_def)
    have parts: "IP = ds" "FP = []" "XP = []"
      using n by (simp_all add: IP_def FP_def XP_def dp ldn)
    have "dec_parse (S @ ds @ [] @ [])
          = Some (Decimal (sg * int (int_of_digits (ds @ []))) (0 - int (length ([]::string))))"
      by (rule dec_parse_rendered[OF ds(1) ds(2) _ _ _ S]) simp_all
    then have "dec_parse (S @ ds @ [] @ []) = Some (Decimal c x)"
      using sgc ds(3) x0 by simp
    then show ?thesis by (simp only: d str parts)
  next
    case p3
    let ?ip = "take (nat ld) ds" and ?fp = "drop (nat ld) ds"
    have dp: "dp = ld" using p3 by (simp add: dp_def)
    have parts: "IP = ?ip" "FP = CHR ''.'' # ?fp" "XP = []"
      using p3 by (simp_all add: IP_def FP_def XP_def dp)
    have ipn: "?ip \<noteq> []" using p3 ds(1) by simp
    have ipd: "list_all is_digit ?ip" using ds(2) by (auto simp: list_all_iff dest: in_set_takeD)
    have fpd: "list_all is_digit ?fp" using ds(2) by (auto simp: list_all_iff dest: in_set_dropD)
    have "dec_parse (S @ ?ip @ (CHR ''.'' # ?fp) @ [])
          = Some (Decimal (sg * int (int_of_digits (?ip @ ?fp))) (0 - int (length ?fp)))"
      by (rule dec_parse_rendered[OF ipn ipd fpd _ _ S]) simp_all
    moreover have "0 - int (length ?fp) = x"
      using p3 by (simp add: ld_def n_def)
    ultimately have "dec_parse (S @ ?ip @ (CHR ''.'' # ?fp) @ []) = Some (Decimal c x)"
      using sgc ds(3) by simp
    then show ?thesis by (simp only: d str parts)
  next
    case s1
    then have n1: "n = 1" using n by simp
    have dp: "dp = 1" using s1 by (auto simp: dp_def)
    have ld1: "ld \<noteq> 1" using s1 n1 by (auto simp: ld_def)
    have parts: "IP = ds" "FP = []" "XP = CHR ''E'' # signed_str (ld - 1)"
      using n1 ld1 by (simp_all add: IP_def FP_def XP_def dp)
    have "dec_parse (S @ ds @ [] @ (CHR ''E'' # signed_str (ld - 1)))
          = Some (Decimal (sg * int (int_of_digits (ds @ []))) ((ld - 1) - int (length ([]::string))))"
      by (rule dec_parse_rendered[OF ds(1) ds(2) _ _ _ S]) simp_all
    moreover have "ld - 1 = x" using n1 by (simp add: ld_def)
    ultimately have "dec_parse (S @ ds @ [] @ (CHR ''E'' # signed_str (ld - 1))) = Some (Decimal c x)"
      using sgc ds(3) by simp
    then show ?thesis by (simp only: d str parts)
  next
    case s2
    have dp: "dp = 1" using s2 by (auto simp: dp_def)
    have ld1: "ld \<noteq> 1" using s2 by (auto simp: ld_def)
    let ?ip = "take 1 ds" and ?fp = "drop 1 ds"
    have parts: "IP = ?ip" "FP = CHR ''.'' # ?fp" "XP = CHR ''E'' # signed_str (ld - 1)"
      using s2 ld1 by (simp_all add: IP_def FP_def XP_def dp)
    have ipn: "?ip \<noteq> []" using ds(1) by simp
    have ipd: "list_all is_digit ?ip" using ds(2) by (auto simp: list_all_iff dest: in_set_takeD)
    have fpd: "list_all is_digit ?fp" using ds(2) by (auto simp: list_all_iff dest: in_set_dropD)
    have "dec_parse (S @ ?ip @ (CHR ''.'' # ?fp) @ (CHR ''E'' # signed_str (ld - 1)))
          = Some (Decimal (sg * int (int_of_digits (?ip @ ?fp))) ((ld - 1) - int (length ?fp)))"
      by (rule dec_parse_rendered[OF ipn ipd fpd _ _ S]) simp_all
    moreover have "(ld - 1) - int (length ?fp) = x"
      using s2 by (simp add: ld_def n_def)
    ultimately have "dec_parse (S @ ?ip @ (CHR ''.'' # ?fp) @ (CHR ''E'' # signed_str (ld - 1)))
                     = Some (Decimal c x)"
      using sgc ds(3) by simp
    then show ?thesis by (simp only: d str parts)
  qed
qed

section \<open>The position state machine\<close>

lemma to_Decimal_dec_str: "to_Decimal (JStr (dec_str d)) = Inr d"
  by (simp add: dec_parse_dec_str)

text \<open>What a successful \<open>close\<close> leaves behind.\<close>

lemma close_result:
  assumes "close now p price quantity reason ext_id = Inr p'"
  shows "status p = OPEN"
    and "close_quantity p' = Inr (py_min quantity (remaining_quantity p))"
    and "remaining_quantity p'
         = (if dval (remaining_quantity p) \<le> dval quantity then dec_zero
            else dec_sub (remaining_quantity p) (py_min quantity (remaining_quantity p)))"
    and "take_profits p' = take_profits p"
    and "initial_quantity p' = initial_quantity p"
    and "take_profit_max p' = take_profit_max p"
    and "status p' = (if dval (remaining_quantity p) \<le> dval quantity then CLOSED else OPEN)"
proof -
  let ?adj = "py_min quantity (remaining_quantity p)"
  let ?r = "dec_sub (remaining_quantity p) ?adj"
  have op: "\<not> is_closed p" using assms by (auto simp: close_def split: if_splits)
  then show "status p = OPEN" by (cases "status p") (simp_all add: is_closed_def)
  have rle: "dec_le ?r dec_zero \<longleftrightarrow> dval (remaining_quantity p) \<le> dval quantity"
    by (auto simp: dec_sub_le_zero_iff dval_py_min min_def)
  have rem: "remaining_quantity p' = (if dec_le ?r dec_zero then dec_zero else ?r)"
    using assms op by (auto simp: close_def Let_def split: if_splits)
  have st: "status p' = (if dec_le ?r dec_zero then CLOSED else status p)"
    using assms op by (auto simp: close_def Let_def split: if_splits)
  have cd: "\<exists>rest. close_data p' =
              JObj ([(''timestamp'', JStr (isoformat now)), (''price'', JStr (dec_str price)),
                     (''quantity'', JStr (dec_str ?adj)),
                     (''value'', JStr (dec_str (dec_mul price ?adj))),
                     (''reason'', JStr reason)] @ rest)"
    using assms op by (auto simp: close_def Let_def split: if_splits)
  then show "close_quantity p' = Inr ?adj"
    by (auto simp: close_quantity_def try_bind_def dict_item_def dec_parse_dec_str)
  show "remaining_quantity p'
         = (if dval (remaining_quantity p) \<le> dval quantity then dec_zero else ?r)"
    using rem rle by simp
  show "take_profits p' = take_profits p"
    using assms op by (auto simp: close_def Let_def split: if_splits)
  show "initial_quantity p' = initial_quantity p"
    using assms op by (auto simp: close_def Let_def split: if_splits)
  show "take_profit_max p' = take_profit_max p"
    using assms op by (auto simp: close_def Let_def split: if_splits)
  show "status p' = (if dval (remaining_quantity p) \<le> dval quantity then CLOSED else OPEN)"
    using st rle \<open>status p = OPEN\<close> by simp
qed

text \<open>What a successful \<open>add_take_profit\<close> leaves behind.\<close>

lemma add_take_profit_result:
  assumes "add_take_profit now close_now p price quantity lvl = Inr (tp, p')"
  shows "status p = OPEN"
    and "lvl \<le> take_profit_max p"
    and "tp = \<lparr>tp_level = lvl, tp_price = price,
                tp_quantity = py_min quantity (remaining_quantity p), tp_timestamp = now\<rparr>"
    and "0 < min (dval quantity) (dval (remaining_quantity p))"
    and "take_profits p' = take_profits p @ [tp]"
    and "initial_quantity p' = initial_quantity p"
    and "remaining_quantity p'
         = (if dval (remaining_quantity p) \<le> dval quantity then dec_zero
            else if lvl = take_profit_max p
              then dec_sub (dec_sub (remaining_quantity p) (py_min quantity (remaining_quantity p)))
                           dec_zero
            else dec_sub (remaining_quantity p) (py_min quantity (remaining_quantity p)))"
    and "status p' = (if dval (remaining_quantity p) \<le> dval quantity then CLOSED else OPEN)"
    and "close_quantity p' =
           (if lvl = take_profit_max p \<or> dval (remaining_quantity p) \<le> dval quantity
            then Inr dec_zero else close_quantity p)"
proof -
  let ?adj = "py_min quantity (remaining_quantity p)"
  let ?r1 = "dec_sub (remaining_quantity p) ?adj"
  let ?tp = "\<lparr>tp_level = lvl, tp_price = price, tp_quantity = ?adj, tp_timestamp = now\<rparr>"
  let ?p1 = "p\<lparr>take_profits := take_profits p @ [?tp], remaining_quantity := ?r1\<rparr>"
  have op: "\<not> is_closed p" using assms by (auto simp: add_take_profit_def split: if_splits)
  then show o: "status p = OPEN" by (cases "status p") (simp_all add: is_closed_def)
  show "lvl \<le> take_profit_max p"
    using assms by (auto simp: add_take_profit_def split: if_splits)
  have pos: "\<not> dec_le ?adj dec_zero"
    using assms by (auto simp: add_take_profit_def Let_def split: if_splits)
  have adj: "dval ?adj = min (dval quantity) (dval (remaining_quantity p))"
    by (simp add: dval_py_min)
  show apos: "0 < min (dval quantity) (dval (remaining_quantity p))"
    using pos adj by (auto simp: dec_le_iff dval_zero min_def not_le split: if_splits)
  have le1: "dec_le ?r1 dec_zero \<longleftrightarrow> dval (remaining_quantity p) \<le> dval quantity"
    by (auto simp: dec_sub_le_zero_iff dval_py_min min_def)
  have nn1: "\<not> dec_lt ?r1 dec_zero"
    using dec_sub_neg_iff[of "remaining_quantity p" ?adj]
    by (simp add: dec_lt_iff dval_zero adj)
  have pm: "py_min dec_zero ?r1 = dec_zero" using nn1 by (simp add: py_min_def)
  have res: "(if lvl = take_profit_max p \<or> dec_le (remaining_quantity ?p1) dec_zero
              then try_bind (close close_now ?p1 price dec_zero ''Manual close'' None)
                     (\<lambda>p2. Inr (?tp, p2))
              else Inr (?tp, ?p1)) = Inr (tp, p')"
    using assms op pos by (auto simp: add_take_profit_def Let_def split: if_splits)
  show tp: "tp = ?tp"
    using res by (auto simp: try_bind_def split: if_splits sum.splits)
  have main: "take_profits p' = take_profits p @ [tp]
         \<and> initial_quantity p' = initial_quantity p
         \<and> remaining_quantity p'
           = (if dval (remaining_quantity p) \<le> dval quantity then dec_zero
              else if lvl = take_profit_max p then dec_sub ?r1 dec_zero else ?r1)
         \<and> status p' = (if dval (remaining_quantity p) \<le> dval quantity then CLOSED else OPEN)
         \<and> close_quantity p' =
             (if lvl = take_profit_max p \<or> dval (remaining_quantity p) \<le> dval quantity
              then Inr dec_zero else close_quantity p)"
  proof (cases "lvl = take_profit_max p \<or> dec_le (remaining_quantity ?p1) dec_zero")
    case False
    then have p': "p' = ?p1" using res by auto
    have "close_quantity ?p1 = close_quantity p" by (simp add: close_quantity_def)
    then show ?thesis
      using False le1 o tp by (simp add: p')
  next
    case True
    then have c: "close close_now ?p1 price dec_zero ''Manual close'' None = Inr p'"
      using res by (auto simp: try_bind_def split: sum.splits)
    note cr = close_result[OF c]
    have z: "dval ?r1 \<le> dval dec_zero \<longleftrightarrow> dval (remaining_quantity p) \<le> dval quantity"
      using le1 by (simp add: dec_le_iff)
    have "remaining_quantity p'
           = (if dval (remaining_quantity p) \<le> dval quantity then dec_zero
              else dec_sub ?r1 dec_zero)"
      using cr(3) z pm by simp
    moreover have "status p' = (if dval (remaining_quantity p) \<le> dval quantity then CLOSED else OPEN)"
      using cr(7) z by simp
    moreover have "close_quantity p' = Inr dec_zero" using cr(2) pm by simp
    ultimately show ?thesis
      using True le1 cr(4) cr(5) tp by auto
  qed
  show "take_profits p' = take_profits p @ [tp]" using main by blast
  show "initial_quantity p' = initial_quantity p" using main by blast
  show "remaining_quantity p'
         = (if dval (remaining_quantity p) \<le> dval quantity then dec_zero
            else if lvl = take_profit_max p then dec_sub ?r1 dec_zero else ?r1)"
    using main by blast
  show "status p' = (if dval (remaining_quantity p) \<le> dval quantity then CLOSED else OPEN)"
    using main by blast
  show "close_quantity p' =
           (if lvl = take_profit_max p \<or> dval (remaining_quantity p) \<le> dval quantity
            then Inr dec_zero else close_quantity p)"
    using main by blast
qed

text \<open>
  C1 does not hold of the code. The automatic close at the maximal level is
  \<^verbatim>\<open>self.close(price, Decimal("0"))\<close>, and \<open>close\<close> with the quantity 0 only marks the position
  closed when nothing remains. So a take profit at the level \<open>take_profit_max\<close> that leaves
  a remainder records close data and leaves the position open, with its remainder.
\<close>

theorem add_take_profit_final_level_stays_open:
  assumes "add_take_profit now close_now p price quantity (take_profit_max p) = Inr (tp, p')"
      and "dec_lt quantity (remaining_quantity p)"
  shows "status p' = OPEN \<and> dec_lt dec_zero (remaining_quantity p')"
proof -
  have lt: "dval quantity < dval (remaining_quantity p)"
    using assms(2) by (simp add: dec_lt_iff)
  let ?r1 = "dec_sub (remaining_quantity p) (py_min quantity (remaining_quantity p))"
  note r = add_take_profit_result[OF assms(1)]
  have "status p' = OPEN" using r(8) lt by simp
  moreover have "remaining_quantity p' = dec_sub ?r1 dec_zero" using r(7) lt by simp
  moreover have "0 < dval ?r1" using lt by (simp add: dec_sub_pos_iff dval_py_min)
  ultimately show ?thesis by (simp add: dec_lt_iff dval_zero dec_sub_pos_iff)
qed

lemma add_take_profit_example:
  "\<exists>tp p'. add_take_profit t1 t2 pos_new (Decimal 110 0) (Decimal 3 0) 3 = Inr (tp, p')"
  by (simp add: add_take_profit_def close_def pos_new_def is_closed_def py_min_def dec_lt_def
        dec_le_def dec_sub_def dec_fix_id dec_zero_def align_def try_bind_def prec_def Let_def)

theorem add_take_profit_final_level_stays_open_witness:
  "take_profit_max pos_new = 3
   \<and> dec_lt (Decimal 3 0) (remaining_quantity pos_new)
   \<and> status (snd (projr (add_take_profit t1 t2 pos_new (Decimal 110 0) (Decimal 3 0) 3))) = OPEN
   \<and> dec_lt dec_zero
        (remaining_quantity
           (snd (projr (add_take_profit t1 t2 pos_new (Decimal 110 0) (Decimal 3 0) 3))))"
proof -
  have m: "take_profit_max pos_new = 3" by (simp add: pos_new_def)
  have lt: "dec_lt (Decimal 3 0) (remaining_quantity pos_new)"
    by (simp add: pos_new_def dec_lt_def align_def Let_def)
  obtain tp p' where
    e: "add_take_profit t1 t2 pos_new (Decimal 110 0) (Decimal 3 0) (take_profit_max pos_new)
        = Inr (tp, p')"
    using add_take_profit_example m by auto
  show ?thesis
    using add_take_profit_final_level_stays_open[OF e lt] e m lt by simp
qed

section \<open>The balance of quantities\<close>

lemma step_nonneg:
  assumes "apply_op p x = Inr p'"
  shows "0 \<le> dval (remaining_quantity p')"
proof (cases x)
  case (AddTakeProfit now close_now price quantity lvl)
  then obtain tp where "add_take_profit now close_now p price quantity lvl = Inr (tp, p')"
    using assms by (auto simp: try_bind_def split: sum.splits)
  note r = add_take_profit_result(7)[OF this]
  let ?r1 = "dec_sub (remaining_quantity p) (py_min quantity (remaining_quantity p))"
  have "dval quantity < dval (remaining_quantity p) \<Longrightarrow> 0 < dval ?r1"
    by (simp add: dec_sub_pos_iff dval_py_min)
  moreover have "0 < dval ?r1 \<Longrightarrow> 0 < dval (dec_sub ?r1 dec_zero)"
    by (simp add: dec_sub_pos_iff dval_zero)
  ultimately show ?thesis
    using r by (auto simp: dval_zero not_le intro: less_imp_le)
next
  case (Close now price quantity reason ext_id)
  then have "close now p price quantity reason ext_id = Inr p'" using assms by simp
  note r = close_result(3)[OF this]
  let ?r = "dec_sub (remaining_quantity p) (py_min quantity (remaining_quantity p))"
  have "dval quantity < dval (remaining_quantity p) \<Longrightarrow> 0 < dval ?r"
    by (simp add: dec_sub_pos_iff dval_py_min)
  then show ?thesis
    using r by (auto simp: dval_zero not_le intro: less_imp_le)
qed

lemma run_ops_nonneg:
  "0 \<le> dval (remaining_quantity p0) \<Longrightarrow> run_ops p0 ops = Inr p
   \<Longrightarrow> 0 \<le> dval (remaining_quantity p)"
proof (induction ops arbitrary: p0)
  case Nil
  then show ?case by simp
next
  case (Cons x xs)
  then obtain p1 where a: "apply_op p0 x = Inr p1" and r: "run_ops p1 xs = Inr p"
    by (auto simp: try_bind_def split: sum.splits)
  show ?case using Cons.IH[OF step_nonneg[OF a] r] .
qed

text \<open>
  Within the precision no subtraction is rounded: an operation takes its quantity, or all
  that remains, off the remaining quantity.
\<close>

lemma step_exact:
  assumes e0: "e \<le> 0"
      and bd: "dval (initial_quantity p) < 10 powi (int prec + e)"
      and eR: "e \<le> expo (remaining_quantity p)"
      and nn: "0 \<le> dval (remaining_quantity p)"
      and le: "dval (remaining_quantity p) \<le> dval (initial_quantity p)"
      and eq: "e \<le> expo (op_quantity x)" and qn: "0 \<le> dval (op_quantity x)"
      and ap: "apply_op p x = Inr p'"
  shows "dval (remaining_quantity p')
         = dval (remaining_quantity p) - min (dval (op_quantity x)) (dval (remaining_quantity p))"
    and "e \<le> expo (remaining_quantity p')"
    and "initial_quantity p' = initial_quantity p"
proof -
  let ?R = "remaining_quantity p" and ?q = "op_quantity x"
  let ?adj = "py_min ?q ?R"
  let ?r1 = "dec_sub ?R ?adj"
  have ea: "e \<le> expo ?adj" using eR eq by (simp add: py_min_def)
  have adj: "dval ?adj = min (dval ?q) (dval ?R)" by (simp add: dval_py_min)
  have d0: "0 \<le> dval ?R - dval ?adj" and d1: "dval ?R - dval ?adj \<le> dval ?R"
    using nn qn by (simp_all add: adj min_def)
  have b1: "\<bar>dval ?R - dval ?adj\<bar> < 10 powi (int prec + e)"
    using d0 d1 le bd by linarith
  note s1 = dec_sub_exact[OF eR ea b1]
  have ez: "e \<le> expo dec_zero" using e0 by (simp add: dec_zero_def)
  have b2: "\<bar>dval ?r1 - dval dec_zero\<bar> < 10 powi (int prec + e)"
    using s1(1) d0 d1 le bd by (simp add: dval_zero)
  note s2 = dec_sub_exact[OF s1(2) ez b2]
  have main: "dval (remaining_quantity p') = dval ?R - min (dval ?q) (dval ?R)
              \<and> e \<le> expo (remaining_quantity p') \<and> initial_quantity p' = initial_quantity p"
  proof (cases x)
    case (AddTakeProfit now close_now price quantity lvl)
    then obtain tp where t: "add_take_profit now close_now p price quantity lvl = Inr (tp, p')"
      using ap by (auto simp: try_bind_def split: sum.splits)
    note r = add_take_profit_result[OF t]
    have q: "?q = quantity" by (simp add: AddTakeProfit)
    show ?thesis
      using r(6) r(7) s1 s2 ez adj
      by (auto simp: q dval_zero min_def split: if_splits)
  next
    case (Close now price quantity reason ext_id)
    then have c: "close now p price quantity reason ext_id = Inr p'" using ap by simp
    note r = close_result[OF c]
    have q: "?q = quantity" by (simp add: Close)
    show ?thesis
      using r(3) r(5) s1 ez adj
      by (auto simp: q dval_zero min_def split: if_splits)
  qed
  show "dval (remaining_quantity p') = dval ?R - min (dval ?q) (dval ?R)" using main by blast
  show "e \<le> expo (remaining_quantity p')" using main by blast
  show "initial_quantity p' = initial_quantity p" using main by blast
qed

lemma balance_eq_iff:
  "balance_eq p \<longleftrightarrow>
   (\<exists>cq. close_quantity p = Inr cq
      \<and> dval (remaining_quantity p)
          = dval (initial_quantity p)
            - sum_list (map (\<lambda>tp. dval (tp_quantity tp)) (take_profits p)) - dval cq)"
  by (auto simp: balance_eq_def split: sum.splits)

lemma close_quantity_is_zero_iff:
  "close_quantity_is_zero p \<longleftrightarrow> (\<exists>cq. close_quantity p = Inr cq \<and> dval cq = 0)"
  by (auto simp: close_quantity_is_zero_def dec_eq_iff dval_zero split: sum.splits)

text \<open>
  An operation that is not rounded keeps the equation, unless it rewrites close data that
  record a quantity.
\<close>

lemma step_balance:
  assumes b: "balance_eq p"
      and z: "calls_close p x \<longrightarrow> close_quantity_is_zero p"
      and ex: "dval (remaining_quantity p')
               = dval (remaining_quantity p)
                 - min (dval (op_quantity x)) (dval (remaining_quantity p))"
      and ap: "apply_op p x = Inr p'"
  shows "balance_eq p'"
proof -
  let ?T = "\<lambda>p. sum_list (map (\<lambda>tp. dval (tp_quantity tp)) (take_profits p))"
  obtain cq where cq: "close_quantity p = Inr cq"
    and bal: "dval (remaining_quantity p) = dval (initial_quantity p) - ?T p - dval cq"
    using b by (auto simp: balance_eq_iff)
  show ?thesis
  proof (cases x)
    case (AddTakeProfit now close_now price quantity lvl)
    then obtain tp where e: "add_take_profit now close_now p price quantity lvl = Inr (tp, p')"
      using ap by (auto simp: try_bind_def split: sum.splits)
    note r = add_take_profit_result[OF e]
    let ?a = "min (dval quantity) (dval (remaining_quantity p))"
    have tq: "dval (tp_quantity tp) = ?a" using r(3) by (simp add: dval_py_min)
    have t: "?T p' = ?T p + ?a" using r(5) tq by simp
    have ex': "dval (remaining_quantity p') = dval (remaining_quantity p) - ?a"
      using ex by (simp add: AddTakeProfit)
    have cc: "calls_close p x \<longleftrightarrow>
              lvl = take_profit_max p \<or> dval (remaining_quantity p) \<le> dval quantity"
      by (auto simp: AddTakeProfit dec_sub_le_zero_iff dval_py_min min_def)
    have "\<exists>cq'. close_quantity p' = Inr cq' \<and> dval cq' = dval cq"
    proof (cases "calls_close p x")
      case True
      then have "dval cq = 0" using z cq by (auto simp: close_quantity_is_zero_iff)
      moreover have "close_quantity p' = Inr dec_zero" using r(9) True cc by simp
      ultimately show ?thesis by (simp add: dval_zero)
    next
      case False
      then show ?thesis using r(9) cq cc by simp
    qed
    then show ?thesis
      using r(6) ex' t bal by (auto simp: balance_eq_iff)
  next
    case (Close now price quantity reason ext_id)
    then have e: "close now p price quantity reason ext_id = Inr p'" using ap by simp
    note r = close_result[OF e]
    have "dval cq = 0" using z cq by (auto simp: Close close_quantity_is_zero_iff)
    moreover have "dval (remaining_quantity p')
                   = dval (remaining_quantity p) - min (dval quantity) (dval (remaining_quantity p))"
      using ex by (simp add: Close)
    ultimately show ?thesis
      using r(2) r(4) r(5) bal by (simp add: balance_eq_iff dval_py_min)
  qed
qed

lemma run_ops_balance:
  assumes e0: "e \<le> 0"
  shows "dval (initial_quantity p0) < 10 powi (int prec + e)
   \<Longrightarrow> e \<le> expo (remaining_quantity p0)
   \<Longrightarrow> 0 \<le> dval (remaining_quantity p0)
   \<Longrightarrow> dval (remaining_quantity p0) \<le> dval (initial_quantity p0)
   \<Longrightarrow> list_all (\<lambda>x. e \<le> expo (op_quantity x) \<and> dec_le dec_zero (op_quantity x)) ops
   \<Longrightarrow> balance_eq p0 \<Longrightarrow> no_overwrite p0 ops
   \<Longrightarrow> run_ops p0 ops = Inr p \<Longrightarrow> balance_eq p"
proof (induction ops arbitrary: p0)
  case Nil
  then show ?case by simp
next
  case (Cons x xs)
  obtain p1 where a: "apply_op p0 x = Inr p1" and r: "run_ops p1 xs = Inr p"
    using Cons.prems(8) by (auto simp: try_bind_def split: sum.splits)
  have eq: "e \<le> expo (op_quantity x)" and qn: "0 \<le> dval (op_quantity x)"
    and rest: "list_all (\<lambda>x. e \<le> expo (op_quantity x) \<and> dec_le dec_zero (op_quantity x)) xs"
    using Cons.prems(5) by (simp_all add: dec_le_iff dval_zero)
  have z: "calls_close p0 x \<longrightarrow> close_quantity_is_zero p0" and n: "no_overwrite p1 xs"
    using Cons.prems(7) a by simp_all
  note s = step_exact[OF e0 Cons.prems(1) Cons.prems(2) Cons.prems(3) Cons.prems(4) eq qn a]
  have nn1: "0 \<le> dval (remaining_quantity p1)" by (rule step_nonneg[OF a])
  have le1: "dval (remaining_quantity p1) \<le> dval (initial_quantity p1)"
    using s(1) s(3) Cons.prems(3) Cons.prems(4) qn by (simp add: min_def split: if_splits)
  have bd1: "dval (initial_quantity p1) < 10 powi (int prec + e)"
    using s(3) Cons.prems(1) by simp
  show ?case
    using Cons.IH[OF bd1 s(2) nn1 le1 rest step_balance[OF Cons.prems(6) z s(1) a] n r] .
qed

lemma new_position_balance:
  assumes "new_position p"
  shows "0 \<le> dval (remaining_quantity p)" and "balance_eq p"
proof -
  show "0 \<le> dval (remaining_quantity p)"
    using assms by (simp add: new_position_def dec_le_iff dval_zero)
  have "close_quantity p = Inr dec_zero"
    using assms by (simp add: new_position_def close_quantity_def)
  then show "balance_eq p"
    using assms by (simp add: balance_eq_iff new_position_def dval_zero)
qed

lemma within_precision_bound:
  assumes "within_precision e p ops"
  shows "dval (initial_quantity p) < 10 powi (int prec + e)"
proof -
  let ?d = "initial_quantity p"
  have ee: "e \<le> expo ?d" and c: "\<bar>coef ?d\<bar> * 10 ^ nat (expo ?d - e) < 10 ^ prec"
    using assms by (simp_all add: within_precision_def)
  have "(of_int (\<bar>coef ?d\<bar> * 10 ^ nat (expo ?d - e)) :: rat) < of_int (10 ^ prec)"
    using c by (simp only: of_int_less_iff)
  then have "(of_int \<bar>coef ?d\<bar> :: rat) * 10 ^ nat (expo ?d - e) < 10 ^ prec" by simp
  then have "(of_int \<bar>coef ?d\<bar> :: rat) * 10 ^ nat (expo ?d - e) * 10 powi e < 10 ^ prec * 10 powi e"
    using pow10_pos[of e] by (simp add: mult_less_cancel_right_pos)
  then have "(of_int \<bar>coef ?d\<bar> :: rat) * 10 powi (expo ?d) < 10 powi (int prec + e)"
    using pow10_split[OF ee] by (simp add: mult.assoc power_int_add)
  moreover have "dval ?d \<le> of_int \<bar>coef ?d\<bar> * 10 powi (expo ?d)"
    using pow10_pos[of "expo ?d"] by (simp add: dval_def mult_right_mono)
  ultimately show ?thesis by linarith
qed

text \<open>
  C2, as amended. For a new position and every run of successful \<open>add_take_profit\<close> and
  \<open>close\<close> operations the remaining quantity is never negative. And the remaining quantity
  equals the initial quantity minus the take profit quantities minus the quantity recorded
  in the close data (0 without close data) when the quantities stay within the precision
  (non-negative multiples of \<open>10 ^ e\<close>, the initial quantity below \<open>10 ^ (28 + e)\<close>, so that
  no subtraction is rounded) and no \<open>close\<close>, explicit or made by \<open>add_take_profit\<close>,
  rewrites close data that already record a quantity other than zero. (The close data keep
  only the quantity of the last close.)
\<close>

theorem remaining_quantity_balance:
  assumes "new_position p0" and "run_ops p0 ops = Inr p"
  shows "dec_le dec_zero (remaining_quantity p)
       \<and> (within_precision e p0 ops \<and> no_overwrite p0 ops \<longrightarrow> balance_eq p)"
proof
  show "dec_le dec_zero (remaining_quantity p)"
    using run_ops_nonneg[OF new_position_balance(1)[OF assms(1)] assms(2)]
    by (simp add: dec_le_iff dval_zero)
  show "within_precision e p0 ops \<and> no_overwrite p0 ops \<longrightarrow> balance_eq p"
  proof
    assume h: "within_precision e p0 ops \<and> no_overwrite p0 ops"
    then have w: "within_precision e p0 ops" and n: "no_overwrite p0 ops" by simp_all
    have e0: "e \<le> 0" using w by (simp add: within_precision_def)
    have eR: "e \<le> expo (remaining_quantity p0)"
      using w assms(1) by (simp add: within_precision_def new_position_def)
    have le: "dval (remaining_quantity p0) \<le> dval (initial_quantity p0)"
      using assms(1) by (simp add: new_position_def)
    have ops: "list_all (\<lambda>x. e \<le> expo (op_quantity x) \<and> dec_le dec_zero (op_quantity x)) ops"
      using w by (simp add: within_precision_def)
    show "balance_eq p"
      using run_ops_balance[OF e0 within_precision_bound[OF w] eR
              new_position_balance(1)[OF assms(1)] le ops new_position_balance(2)[OF assms(1)]
              n assms(2)] .
  qed
qed

lemmas eval_defs =
  add_take_profit_def close_def pos_new_def is_closed_def py_min_def dec_lt_def
  dec_le_def dec_eq_def dec_sub_def dec_fix_id dec_zero_def align_def try_bind_def Let_def
  close_quantity_def close_quantity_is_zero_def dict_item_def dec_parse_dec_str
  balance_eq_def dval_def prec_def within_precision_def

lemma run_tp_then_close:
  "\<exists>p. run_ops pos_new ops_tp_then_close = Inr p"
  by (simp add: ops_tp_then_close_def eval_defs)

lemma no_overwrite_tp_then_close: "no_overwrite pos_new ops_tp_then_close"
  by (simp add: ops_tp_then_close_def eval_defs)

lemma within_precision_tp_then_close: "within_precision 0 pos_new ops_tp_then_close"
  by (simp add: ops_tp_then_close_def eval_defs)

lemma new_position_pos_new: "new_position pos_new"
  by (simp add: new_position_def pos_new_def dec_le_def dec_zero_def align_def Let_def)

theorem remaining_quantity_balance_witness:
  "new_position pos_new \<and> within_precision 0 pos_new ops_tp_then_close
   \<and> no_overwrite pos_new ops_tp_then_close
   \<and> dec_le dec_zero (remaining_quantity (projr (run_ops pos_new ops_tp_then_close)))
   \<and> balance_eq (projr (run_ops pos_new ops_tp_then_close))"
proof -
  obtain p where r: "run_ops pos_new ops_tp_then_close = Inr p"
    using run_tp_then_close by blast
  show ?thesis
    using remaining_quantity_balance[OF new_position_pos_new r, of 0]
      new_position_pos_new no_overwrite_tp_then_close within_precision_tp_then_close r by simp
qed

text \<open>
  A take profit below the last level after a partial close rewrites no close data: the
  run is within the proviso, and the equation holds of it (5 = 10 - 2 - 3).
\<close>

lemma close_then_tp_balance:
  "no_overwrite pos_new ops_close_then_tp
   \<and> remaining_quantity (projr (run_ops pos_new ops_close_then_tp)) = Decimal 5 0
   \<and> balance_eq (projr (run_ops pos_new ops_close_then_tp))"
  by (simp add: ops_close_then_tp_def eval_defs)

text \<open>
  Beyond the precision the subtractions are rounded: of 33.33333333333333333333333333
  units, two take profits of 3.666666666666666666666666666 leave
  25.99999999999999999999999999.
\<close>

lemma dec_sub_third_first:
  "dec_sub (Decimal 3333333333333333333333333333 (- 26))
           (Decimal 3666666666666666666666666666 (- 27))
   = Decimal 2966666666666666666666666666 (- 26)"
  by (simp add: dec_sub_def align_def dec_fix_one_digit round_half_even_def prec_def Let_def)

lemma dec_sub_third_second:
  "dec_sub (Decimal 2966666666666666666666666666 (- 26))
           (Decimal 3666666666666666666666666666 (- 27))
   = Decimal 2599999999999999999999999999 (- 26)"
  by (simp add: dec_sub_def align_def dec_fix_one_digit round_half_even_def prec_def Let_def)

lemmas run_defs =
  add_take_profit_def close_def pos_new_def is_closed_def py_min_def dec_lt_def
  dec_le_def dec_zero_def align_def try_bind_def Let_def

lemma run_two_tps:
  "run_ops pos_third ops_two_tps =
     Inr (pos_third\<lparr>take_profits :=
                       [\<lparr>tp_level = 1, tp_price = Decimal 110 0,
                         tp_quantity = Decimal 3666666666666666666666666666 (- 27),
                         tp_timestamp = t1\<rparr>,
                        \<lparr>tp_level = 2, tp_price = Decimal 120 0,
                         tp_quantity = Decimal 3666666666666666666666666666 (- 27),
                         tp_timestamp = t2\<rparr>],
                     remaining_quantity := Decimal 2599999999999999999999999999 (- 26)\<rparr>)"
  by (simp add: ops_two_tps_def pos_third_def run_defs dec_sub_third_first dec_sub_third_second)

lemma new_position_pos_third: "new_position pos_third"
  by (simp add: new_position_def pos_third_def pos_new_def dec_le_def dec_zero_def align_def Let_def)

lemma no_overwrite_two_tps: "no_overwrite pos_third ops_two_tps"
  by (simp add: ops_two_tps_def pos_third_def run_defs dec_sub_third_first dec_sub_third_second)

lemma two_tps_remaining:
  "remaining_quantity (projr (run_ops pos_third ops_two_tps))
   = Decimal 2599999999999999999999999999 (- 26)"
  by (simp add: run_two_tps)

lemma two_tps_unbalanced: "\<not> balance_eq (projr (run_ops pos_third ops_two_tps))"
  by (simp add: run_two_tps)
     (simp add: balance_eq_def close_quantity_def pos_third_def pos_new_def dval_def dec_zero_def)

lemma two_closes_facts:
  "within_precision 0 pos_new ops_two_closes
   \<and> \<not> isl (run_ops pos_new ops_two_closes)
   \<and> remaining_quantity (projr (run_ops pos_new ops_two_closes)) = Decimal 4 0
   \<and> close_quantity (projr (run_ops pos_new ops_two_closes)) = Inr (Decimal 3 0)
   \<and> initial_quantity (projr (run_ops pos_new ops_two_closes)) = Decimal 10 0
   \<and> take_profits (projr (run_ops pos_new ops_two_closes)) = []
   \<and> \<not> balance_eq (projr (run_ops pos_new ops_two_closes))"
  by (simp add: ops_two_closes_def eval_defs)

text \<open>
  The equation as the data model states it fails after two partial closes, within the
  precision: of 10 units, 3 and again 3 are closed; 4 remain, the close data record 3, and
  \<open>10 - 0 - 3\<close> is not 4. And it fails without any close beyond the precision: after the
  two take profits above, 25.99999999999999999999999999 remain, which is not the
  difference 25.999999999999999999999999998.
\<close>

theorem two_partial_closes_break_balance:
  "new_position pos_new \<and> within_precision 0 pos_new ops_two_closes
   \<and> \<not> isl (run_ops pos_new ops_two_closes)
   \<and> remaining_quantity (projr (run_ops pos_new ops_two_closes)) = Decimal 4 0
   \<and> close_quantity (projr (run_ops pos_new ops_two_closes)) = Inr (Decimal 3 0)
   \<and> initial_quantity (projr (run_ops pos_new ops_two_closes)) = Decimal 10 0
   \<and> take_profits (projr (run_ops pos_new ops_two_closes)) = []
   \<and> \<not> balance_eq (projr (run_ops pos_new ops_two_closes))
   \<and> new_position pos_third \<and> no_overwrite pos_third ops_two_tps
   \<and> \<not> isl (run_ops pos_third ops_two_tps)
   \<and> remaining_quantity (projr (run_ops pos_third ops_two_tps))
       = Decimal 2599999999999999999999999999 (- 26)
   \<and> \<not> balance_eq (projr (run_ops pos_third ops_two_tps))"
  using new_position_pos_new two_closes_facts new_position_pos_third no_overwrite_two_tps
    two_tps_remaining two_tps_unbalanced
  by (simp add: run_two_tps)
section \<open>Timestamps\<close>

lemma number_at_field:
  "length pre = i \<Longrightarrow> length f = n \<Longrightarrow> list_all is_digit f
   \<Longrightarrow> number_at (pre @ f @ post) i n = Some (int_of_digits f)"
  by (simp add: number_at_def)

lemma nth_sep: "length pre = i \<Longrightarrow> (pre @ c # post) ! i = c"
  by (simp add: nth_append)

lemma fromisoformat_isoformat:
  assumes v: "valid_datetime t"
  shows "fromisoformat (isoformat t) = Inr t"
proof -
  obtain y mo d h mi sec us where t: "t = Datetime y mo d h mi sec us" by (cases t)
  define Y where "Y = zero_pad 4 y"
  define Mo where "Mo = zero_pad 2 mo"
  define D where "D = zero_pad 2 d"
  define H where "H = zero_pad 2 h"
  define Mi where "Mi = zero_pad 2 mi"
  define Sc where "Sc = zero_pad 2 sec"
  define Us where "Us = zero_pad 6 us"
  have bounds: "y < 10 ^ 4" "mo < 10 ^ 2" "d < 10 ^ 2" "h < 10 ^ 2" "mi < 10 ^ 2" "sec < 10 ^ 2"
    "us < 10 ^ 6"
    using v by (auto simp: valid_datetime_def t days_in_month_def split: if_splits)
  have len: "length Y = 4" "length Mo = 2" "length D = 2" "length H = 2" "length Mi = 2"
    "length Sc = 2" "length Us = 6"
    using bounds by (simp_all add: Y_def Mo_def D_def H_def Mi_def Sc_def Us_def length_zero_pad)
  have dig: "list_all is_digit Y" "list_all is_digit Mo" "list_all is_digit D"
    "list_all is_digit H" "list_all is_digit Mi" "list_all is_digit Sc" "list_all is_digit Us"
    by (simp_all add: Y_def Mo_def D_def H_def Mi_def Sc_def Us_def zero_pad_all_digits)
  have val: "int_of_digits Y = y" "int_of_digits Mo = mo" "int_of_digits D = d"
    "int_of_digits H = h" "int_of_digits Mi = mi" "int_of_digits Sc = sec" "int_of_digits Us = us"
    by (simp_all add: Y_def Mo_def D_def H_def Mi_def Sc_def Us_def int_of_digits_zero_pad)
  define fr where "fr = (if us = 0 then [] else CHR ''.'' # Us)"
  define s where "s = Y @ CHR ''-'' # Mo @ CHR ''-'' # D @ CHR ''T'' # H @ CHR '':'' # Mi @ CHR '':'' # Sc @ fr"
  have v': "valid_datetime (Datetime y mo d h mi sec us)" using v t by simp
  have iso: "isoformat (Datetime y mo d h mi sec us) = s"
    by (simp add: isoformat_def s_def fr_def Y_def Mo_def D_def H_def Mi_def Sc_def Us_def)
  have n0: "number_at s 0 4 = Some y"
    using number_at_field[of "[]" 0 Y 4] len dig val by (simp add: s_def)
  have n5: "number_at s 5 2 = Some mo"
    using number_at_field[of "Y @ ''-''" 5 Mo 2] len dig val by (simp add: s_def)
  have n8: "number_at s 8 2 = Some d"
    using number_at_field[of "Y @ CHR ''-'' # Mo @ ''-''" 8 D 2] len dig val by (simp add: s_def)
  have n11: "number_at s 11 2 = Some h"
    using number_at_field[of "Y @ CHR ''-'' # Mo @ CHR ''-'' # D @ ''T''" 11 H 2] len dig val
    by (simp add: s_def)
  have n14: "number_at s 14 2 = Some mi"
    using number_at_field[of "Y @ CHR ''-'' # Mo @ CHR ''-'' # D @ CHR ''T'' # H @ '':''" 14 Mi 2]
      len dig val by (simp add: s_def)
  have n17: "number_at s 17 2 = Some sec"
    using number_at_field[of "Y @ CHR ''-'' # Mo @ CHR ''-'' # D @ CHR ''T'' # H @ CHR '':'' # Mi @ '':''" 17 Sc 2]
      len dig val by (simp add: s_def)
  have seps: "s ! 4 = CHR ''-''" "s ! 7 = CHR ''-''" "s ! 10 = CHR ''T''" "s ! 13 = CHR '':''"
    "s ! 16 = CHR '':''"
    using len by (simp_all add: s_def nth_append)
  have "fromisoformat s = Inr (Datetime y mo d h mi sec us)"
  proof (cases "us = 0")
    case True
    then have l: "length s = 19" using len by (simp add: s_def fr_def)
    show ?thesis
      using l n0 n5 n8 n11 n14 n17 seps v' True
      by (simp add: fromisoformat_def)
  next
    case False
    then have l: "length s = 26" using len by (simp add: s_def fr_def)
    have dot: "s ! 19 = CHR ''.''" using len False by (simp add: s_def fr_def nth_append)
    have n20: "number_at s 20 6 = Some us"
      using number_at_field[of "Y @ CHR ''-'' # Mo @ CHR ''-'' # D @ CHR ''T'' # H @ CHR '':'' # Mi @ CHR '':'' # Sc @ ''.''" 20 Us 6 "[]"]
        len dig val False by (simp add: s_def fr_def)
    show ?thesis
      using l dot n0 n5 n8 n11 n14 n17 n20 seps v'
      by (simp add: fromisoformat_def)
  qed
  then show ?thesis by (simp only: t iso)
qed

section \<open>Serialisation of positions\<close>

lemma as_opt_str_opt_str_json: "as_opt_str (opt_str_json x) = Inr x"
  by (cases x) (simp_all add: opt_str_json_def)

lemma PositionDirection_of_value: "PositionDirection_of (py_upper (direction_value d)) = Inr d"
  by (cases d) (simp_all add: PositionDirection_of_def py_upper_def upper_char_def)

lemma PositionStatus_of_value: "PositionStatus_of (py_upper (status_value s)) = Inr s"
  by (cases s) (simp_all add: PositionStatus_of_def py_upper_def upper_char_def)

lemma take_profit_roundtrip:
  "valid_datetime (tp_timestamp tp) \<Longrightarrow> take_profit_from_dict (take_profit_to_dict tp) = Inr tp"
  by (simp add: take_profit_from_dict_def take_profit_to_dict_def try_bind_def dict_item_def
        dec_parse_dec_str fromisoformat_isoformat)

lemma take_profits_roundtrip:
  "list_all (\<lambda>tp. valid_datetime (tp_timestamp tp)) tps
   \<Longrightarrow> map_err take_profit_from_dict (map take_profit_to_dict tps) = Inr tps"
  by (induction tps) (simp_all add: take_profit_roundtrip try_bind_def)

text \<open>
  C7. A position whose timestamps are dates of the calendar is read back from its
  dictionary as the same position: \<open>from_dict\<close> applied to \<open>to_dict p\<close> and the asset of \<open>p\<close>
  returns \<open>p\<close>, with an identical remaining quantity, status and list of take profits (in
  the same order) in particular, whatever the take profits and the close data of \<open>p\<close> are.
\<close>

theorem from_dict_to_dict:
  assumes "timestamps_valid p"
  shows "from_dict fresh_id (to_dict p) (asset p) = Inr p"
proof -
  have ts: "fromisoformat (isoformat (timestamp p)) = Inr (timestamp p)"
    using assms by (simp add: timestamps_valid_def fromisoformat_isoformat)
  have tps: "map_err take_profit_from_dict (map take_profit_to_dict (take_profits p))
             = Inr (take_profits p)"
    using assms by (simp add: timestamps_valid_def take_profits_roundtrip)
  show ?thesis
    by (simp add: from_dict_def to_dict_def try_bind_def dict_item_def dict_get_def
          dec_parse_dec_str ts tps as_opt_str_opt_str_json PositionDirection_of_value
          PositionStatus_of_value)
qed

lemma valid_times: "valid_datetime t0" "valid_datetime t1" "valid_datetime t2"
  by (simp_all add: valid_datetime_def t0_def t1_def t2_def days_in_month_def is_leap_def)

theorem from_dict_to_dict_witness:
  "timestamps_valid pos_with_tp
   \<and> from_dict ''fresh-id'' (to_dict pos_with_tp) (asset pos_with_tp) = Inr pos_with_tp
   \<and> length (take_profits pos_with_tp) = 1"
proof -
  have v: "timestamps_valid pos_with_tp"
    by (simp add: timestamps_valid_def pos_with_tp_def pos_new_def valid_times)
  show ?thesis
    using v from_dict_to_dict[OF v, of "''fresh-id''"] by (simp add: pos_with_tp_def)
qed

section \<open>Reading stored records\<close>

lemma try_bind_Inr_iff: "try_bind m f = Inr y \<longleftrightarrow> (\<exists>x. m = Inr x \<and> f x = Inr y)"
  by (cases m) (simp_all add: try_bind_def)

text \<open>
  C9, as amended. When a stored record has non-empty close data and is read into a
  position, the position is closed, whatever status the record stores; its remaining
  quantity is \<^verbatim>\<open>Decimal('0')\<close> when the stored remaining quantity is positive, and the stored
  remaining quantity itself otherwise: zero for a stored zero, and a negative stored
  quantity is kept.
\<close>

theorem create_position_from_dict_close_data:
  assumes c: "create_position_from_dict now (JObj d) a = Inr p"
      and t: "truthy (dict_get d ''close_data'' JNull)"
  shows "status p = CLOSED
       \<and> (\<exists>r. stored_remaining_quantity d = Inr r
              \<and> remaining_quantity p = (if dec_lt dec_zero r then dec_zero else r))"
proof -
  from c obtain iq rq where
    iq: "to_Decimal (dict_get d ''initial_quantity'' (JStr ''0'')) = Inr iq"
    and rq: "(case map_of d ''remaining_quantity'' of None \<Rightarrow> Inr iq | Some v \<Rightarrow> to_Decimal v) = Inr rq"
    and st: "status p = CLOSED"
    and rem: "remaining_quantity p = (if dec_lt dec_zero rq then dec_zero else rq)"
    unfolding create_position_from_dict_def try_bind_Inr_iff as_dict.simps Let_def
    using t by (auto simp: is_closed_def split: if_splits)
  have "stored_remaining_quantity d = Inr rq"
    using iq rq by (auto simp: stored_remaining_quantity_def split: option.splits)
  then show ?thesis using st rem by blast
qed

lemmas record_eval =
  create_position_from_dict_def to_dict_def dict_get_def try_bind_def pos_new_def
  dec_parse_dec_str fromisoformat_isoformat valid_times as_opt_str_opt_str_json
  PositionDirection_of_def PositionStatus_of_def py_upper_def upper_char_def is_closed_def Let_def
  dec_lt_def dec_zero_def align_def opt_str_json_def

lemma reload_partly_closed:
  "create_position_from_dict t2 (to_dict pos_partly_closed) (asset pos_partly_closed)
   = Inr (pos_partly_closed\<lparr>status := CLOSED, remaining_quantity := dec_zero\<rparr>)"
  by (simp add: pos_partly_closed_def record_eval)

lemma reload_negative:
  "create_position_from_dict t2 (to_dict pos_negative) (asset pos_negative)
   = Inr (pos_negative\<lparr>status := CLOSED\<rparr>)"
  by (simp add: pos_negative_def pos_partly_closed_def record_eval)

lemma to_dict_items:
  "\<exists>d. to_dict p = JObj d \<and> dict_get d ''close_data'' JNull = close_data p
       \<and> stored_remaining_quantity d = Inr (remaining_quantity p)"
  by (simp add: to_dict_def dict_get_def stored_remaining_quantity_def dec_parse_dec_str)

text \<open>
  The open position with a partial close behind it is closed, with nothing remaining, once
  it has been written and read.
\<close>

theorem create_position_from_dict_close_data_witness:
  "status pos_partly_closed = OPEN
   \<and> dec_lt dec_zero (remaining_quantity pos_partly_closed)
   \<and> truthy (close_data pos_partly_closed)
   \<and> status (projr (create_position_from_dict t2 (to_dict pos_partly_closed) asset_btc)) = CLOSED
   \<and> remaining_quantity (projr (create_position_from_dict t2 (to_dict pos_partly_closed) asset_btc))
       = dec_zero"
proof -
  obtain d where d: "to_dict pos_partly_closed = JObj d"
      "dict_get d ''close_data'' JNull = close_data pos_partly_closed"
      "stored_remaining_quantity d = Inr (remaining_quantity pos_partly_closed)"
    using to_dict_items[of pos_partly_closed] by blast
  have a: "asset pos_partly_closed = asset_btc"
    by (simp add: pos_partly_closed_def pos_new_def)
  have t: "truthy (close_data pos_partly_closed)" by (simp add: pos_partly_closed_def)
  have o: "status pos_partly_closed = OPEN" by (simp add: pos_partly_closed_def pos_new_def)
  have r: "dec_lt dec_zero (remaining_quantity pos_partly_closed)"
    by (simp add: pos_partly_closed_def dec_lt_def dec_zero_def align_def Let_def)
  have c: "create_position_from_dict t2 (JObj d) asset_btc
           = Inr (pos_partly_closed\<lparr>status := CLOSED, remaining_quantity := dec_zero\<rparr>)"
    using reload_partly_closed by (simp add: d(1) a)
  have tt: "truthy (dict_get d ''close_data'' JNull)" using t d(2) by simp
  show ?thesis
    using create_position_from_dict_close_data[OF c tt] c d(1) d(3) t o r by simp
qed

text \<open>
  The claim as stated fails for a stored quantity below zero: the record of
  \<open>pos_negative\<close> stores \<^verbatim>\<open>'-1'\<close> and non-empty close data, and the position read from it is
  closed with the remaining quantity \<open>-1\<close>, which the test \<^verbatim>\<open>remaining_quantity > 0\<close> leaves
  as it is.
\<close>

lemma stored_negative_text: "dec_str (remaining_quantity pos_negative) = ''-1''"
  by (simp add: pos_negative_def) code_simp

theorem create_position_from_dict_negative_remaining:
  "truthy (close_data pos_negative)
   \<and> \<not> isl (create_position_from_dict t2 (to_dict pos_negative) asset_btc)
   \<and> status (projr (create_position_from_dict t2 (to_dict pos_negative) asset_btc)) = CLOSED
   \<and> remaining_quantity (projr (create_position_from_dict t2 (to_dict pos_negative) asset_btc))
       = Decimal (- 1) 0
   \<and> \<not> dec_eq (Decimal (- 1) 0) dec_zero"
proof -
  have a: "asset pos_negative = asset_btc"
    by (simp add: pos_negative_def pos_partly_closed_def pos_new_def)
  have "create_position_from_dict t2 (to_dict pos_negative) asset_btc
        = Inr (pos_negative\<lparr>status := CLOSED\<rparr>)"
    using reload_negative by (simp add: a)
  then show ?thesis
    by (simp add: pos_negative_def pos_partly_closed_def dec_eq_def dec_zero_def align_def Let_def)
qed

section \<open>Closing through the service\<close>

text \<open>
  C4 does not hold of the code. For an open position that has nothing remaining,
  \<open>close_position\<close> evaluates \<^verbatim>\<open>position.last_price\<close> first, an attribute no position has: the
  call raises \<^verbatim>\<open>AttributeError\<close>, no exchange operation has been invoked, and the
  repository still holds the position as it was, open. It does not return
  \<^verbatim>\<open>(position, None)\<close>.
\<close>

theorem close_position_zero_remaining_raises:
  assumes "get_by_id repo i = Some p" and "status p = OPEN"
      and "dec_le (remaining_quantity p) dec_zero"
  shows "close_position ex now repo i reason
         = (Inl (AttributeError ''Position object has no attribute last_price''), repo)"
  using assms by (simp add: close_position_def is_closed_def last_price_def try_bind_def)

theorem close_position_zero_remaining_raises_witness:
  "get_by_id repo_drained ''p-1'' = Some pos_drained
   \<and> status pos_drained = OPEN
   \<and> dec_le (remaining_quantity pos_drained) dec_zero
   \<and> close_position exchange_up t2 repo_drained ''p-1'' ''Closure requested''
       = (Inl (AttributeError ''Position object has no attribute last_price''), repo_drained)"
proof -
  have g: "get_by_id repo_drained ''p-1'' = Some pos_drained"
    by (simp add: get_by_id_def repo_drained_def pos_drained_def pos_loaded_def pos_new_def)
  have o: "status pos_drained = OPEN"
    by (simp add: pos_drained_def pos_loaded_def pos_new_def)
  have z: "dec_le (remaining_quantity pos_drained) dec_zero"
    by (simp add: pos_drained_def dec_le_def dec_zero_def align_def Let_def)
  show ?thesis
    using close_position_zero_remaining_raises[OF g o z] g o z by simp
qed

lemma close_position_failed_raises:
  "\<exists>e'. close_position_failed ex now repo p reason e = (Inl e', repo)
        \<and> (\<forall>pr. get_current_price ex (asset p) = Inr pr
              \<longrightarrow> e' = TypeError ''close() got an unexpected keyword argument margin_details'')"
  by (cases "get_current_price ex (asset p)")
     (simp_all add: close_position_failed_def close_with_margin_details_def)

lemma get_by_id_store:
  "get_by_id repo i = Some p \<Longrightarrow> pos_id p' = pos_id p \<Longrightarrow> get_by_id (store p' repo) i = Some p'"
proof -
  assume g: "get_by_id repo i = Some p" and e: "pos_id p' = pos_id p"
  have i: "pos_id p = i" using g by (auto simp: get_by_id_def dest: find_Some_iff[THEN iffD1])
  have "\<And>xs. find (\<lambda>q. pos_id q = i) xs = Some p
        \<Longrightarrow> find (\<lambda>q. pos_id q = i) (map (\<lambda>q. if pos_id q = pos_id p' then p' else q) xs) = Some p'"
  proof -
    fix xs show "find (\<lambda>q. pos_id q = i) xs = Some p
        \<Longrightarrow> find (\<lambda>q. pos_id q = i) (map (\<lambda>q. if pos_id q = pos_id p' then p' else q) xs) = Some p'"
      using e i by (induction xs) (auto split: if_splits)
  qed
  then show ?thesis using g by (simp add: get_by_id_def store_def)
qed

text \<open>
  C3 does not hold of the code. For an open position with a positive remaining quantity
  whose order is attempted (the refreshed asset has no minimum quantity) and fails, the
  handler of \<open>close_position\<close> calls \<^verbatim>\<open>position.close\<close> with the keyword \<^verbatim>\<open>margin_details\<close>,
  which the method does not have: the call of \<open>close_position\<close> raises (a \<^verbatim>\<open>TypeError\<close> when
  the current price can be read, the exception of the price query otherwise) instead of
  returning, and the repository still holds the position open.
\<close>

theorem close_position_failed_order_raises:
  assumes g: "get_by_id repo i = Some p" and o: "status p = OPEN"
      and r: "dec_lt dec_zero (remaining_quantity p)"
      and a: "get_asset_info ex (symbol (asset p)) = Inr a" and m: "min_quantity a = None"
      and f: "\<And>a' d q iso se. place_market_order ex a' d q iso se = Inl e"
  shows "\<exists>e'. close_position ex now repo i reason = (Inl e', store (p\<lparr>asset := a\<rparr>) repo)
          \<and> (\<forall>pr. get_current_price ex a = Inr pr
                \<longrightarrow> e' = TypeError ''close() got an unexpected keyword argument margin_details'')
          \<and> get_by_id (store (p\<lparr>asset := a\<rparr>) repo) i = Some (p\<lparr>asset := a\<rparr>)
          \<and> status (p\<lparr>asset := a\<rparr>) = OPEN"
proof -
  let ?p1 = "p\<lparr>asset := a\<rparr>"
  have nz: "\<not> dec_le (remaining_quantity p) dec_zero"
    using r by (simp add: dec_le_iff dec_lt_iff)
  have "\<exists>q. close_position ex now repo i reason
             = close_position_order ex now (store ?p1 repo) ?p1 reason (Some q)"
    using g o nz a m
    by (auto simp: close_position_def is_closed_def Let_def split: sum.splits)
  then obtain q where
    c: "close_position ex now repo i reason
        = close_position_order ex now (store ?p1 repo) ?p1 reason (Some q)"
    by blast
  have "close_position_order ex now (store ?p1 repo) ?p1 reason (Some q)
        = close_position_failed ex now (store ?p1 repo) ?p1 reason e"
    by (simp add: close_position_order_def Let_def f)
  moreover obtain e' where
    "close_position_failed ex now (store ?p1 repo) ?p1 reason e = (Inl e', store ?p1 repo)"
    "\<forall>pr. get_current_price ex (asset ?p1) = Inr pr
        \<longrightarrow> e' = TypeError ''close() got an unexpected keyword argument margin_details''"
    using close_position_failed_raises[of ex now "store ?p1 repo" ?p1 reason e] by blast
  ultimately show ?thesis
    using c o get_by_id_store[OF g, of ?p1] by simp
qed

theorem close_position_failed_order_raises_witness:
  "get_by_id repo_loaded ''p-1'' = Some pos_loaded
   \<and> status pos_loaded = OPEN
   \<and> dec_lt dec_zero (remaining_quantity pos_loaded)
   \<and> close_position exchange_down t2 repo_loaded ''p-1'' ''Closure requested''
       = (Inl (TypeError ''close() got an unexpected keyword argument margin_details''), repo_loaded)
   \<and> get_by_id repo_loaded ''p-1'' = Some pos_loaded"
proof -
  have g: "get_by_id repo_loaded ''p-1'' = Some pos_loaded"
    by (simp add: get_by_id_def repo_loaded_def pos_loaded_def pos_new_def)
  have o: "status pos_loaded = OPEN" by (simp add: pos_loaded_def pos_new_def)
  have r: "dec_lt dec_zero (remaining_quantity pos_loaded)"
    by (simp add: pos_loaded_def pos_new_def dec_lt_def dec_zero_def align_def Let_def)
  have a: "get_asset_info exchange_down (symbol (asset pos_loaded)) = Inr asset_plain"
    by (simp add: exchange_down_def exchange_up_def)
  have m: "min_quantity asset_plain = None" by (simp add: asset_plain_def)
  have f: "\<And>a' d q iso se. place_market_order exchange_down a' d q iso se
             = Inl (ExchangeError ''Service unavailable'')"
    by (simp add: exchange_down_def)
  have same: "pos_loaded\<lparr>asset := asset_plain\<rparr> = pos_loaded" by (simp add: pos_loaded_def)
  have st: "store pos_loaded repo_loaded = repo_loaded"
    by (simp add: store_def repo_loaded_def)
  have pr: "get_current_price exchange_down asset_plain = Inr (Decimal 105 0)"
    by (simp add: exchange_down_def exchange_up_def)
  show ?thesis
    using close_position_failed_order_raises[OF g o r a m f, of t2 "''Closure requested''"]
      g o r pr by (auto simp: same st)
qed

section \<open>Signals\<close>

text \<open>Cleaning a dictionary keeps a field exactly when its value is kept.\<close>

lemma clean_signal_data_Cons:
  "clean_signal_data ((k, v) # rest)
   = (if v \<noteq> [] \<and> \<not> is_placeholder v then [(k, v)] else []) @ clean_signal_data rest"
  by (simp add: clean_signal_data_def)

lemma map_of_clean_signal_data:
  assumes "distinct (map fst signal_data)"
  shows "map_of (clean_signal_data signal_data) key
         = (if (\<exists>v. map_of signal_data key = Some v \<and> v \<noteq> [] \<and> \<not> is_placeholder v)
            then map_of signal_data key else None)"
  using assms
proof (induction signal_data)
  case Nil
  show ?case by (simp add: clean_signal_data_def)
next
  case (Cons item rest)
  obtain k v where item: "item = (k, v)" by (cases item)
  have ih: "map_of (clean_signal_data rest) key
            = (if (\<exists>v. map_of rest key = Some v \<and> v \<noteq> [] \<and> \<not> is_placeholder v)
               then map_of rest key else None)"
    using Cons by simp
  show ?case
  proof (cases "k = key")
    case True
    then have "map_of rest key = None"
      using Cons.prems item by (auto simp: map_of_eq_None_iff)
    then have "map_of (clean_signal_data rest) key = None"
      using ih by simp
    then show ?thesis
      using True by (auto simp: item clean_signal_data_Cons)
  next
    case False
    then show ?thesis
      using ih by (auto simp: item clean_signal_data_Cons)
  qed
qed

lemma split_once_parts:
  assumes "c \<in> set s"
  shows "\<exists>a b. split_once c s = [a, b] \<and> s = a @ c # b \<and> c \<notin> set a"
proof -
  let ?a = "takeWhile (\<lambda>x. x \<noteq> c) s" and ?d = "dropWhile (\<lambda>x. x \<noteq> c) s"
  have d: "?d \<noteq> []" using assms by (simp add: dropWhile_eq_Nil_conv)
  have h: "hd ?d = c" using d hd_dropWhile[of "\<lambda>x. x \<noteq> c" s] by auto
  have "s = ?a @ ?d" by simp
  also have "?d = c # tl ?d" using d h by (cases ?d) auto
  finally have s: "s = ?a @ c # tl ?d" .
  have "c \<notin> set ?a" by (auto dest: set_takeWhileD)
  then show ?thesis using assms s by (auto simp: split_once_def)
qed

text \<open>
  C8, as amended. For a signal (a dictionary: its keys are distinct) without the field
  \<^verbatim>\<open>botSettings\<close> whose field \<^verbatim>\<open>bot\<close> contains an underscore, the parameters that
  \<open>process_signal\<close> resolves split the bot name at its first underscore: the strategy is
  the part before the first underscore, which holds no underscore, and the settings are
  all that follows it.
\<close>

theorem process_signal_splits_at_first_underscore:
  assumes dk: "distinct (map fst signal_data)"
      and ns: "map_of signal_data ''botSettings'' = None"
      and b: "map_of signal_data ''bot'' = Some bot_name"
      and u: "CHR ''_'' \<in> set bot_name"
      and r: "process_signal_parameters signal_data = Inr r"
  shows "bot_name = sig_bot_strategy r @ ''_'' @ sig_bot_settings r
       \<and> CHR ''_'' \<notin> set (sig_bot_strategy r)"
proof -
  let ?cl = "clean_signal_data signal_data"
  have cs: "map_of ?cl ''botSettings'' = None"
    using ns by (simp add: map_of_clean_signal_data[OF dk])
  have cb: "map_of ?cl ''bot'' = (if bot_name \<noteq> [] \<and> \<not> is_placeholder bot_name then Some bot_name else None)"
    using b by (simp add: map_of_clean_signal_data[OF dk])
  have kept: "map_of ?cl ''bot'' = Some bot_name"
  proof (rule ccontr)
    assume "map_of ?cl ''bot'' \<noteq> Some bot_name"
    then have "map_of ?cl ''bot'' = None" using cb by (auto split: if_splits)
    then have "process_signal_parameters signal_data \<noteq> Inr r"
      using cs by (auto simp: process_signal_parameters_def Let_def str_get_def)
    then show False using r by simp
  qed
  obtain a s where p: "split_once (CHR ''_'') bot_name = [a, s]" "bot_name = a @ CHR ''_'' # s"
    "CHR ''_'' \<notin> set a"
    using split_once_parts[OF u] by blast
  have "sig_bot_strategy r = a \<and> sig_bot_settings r = s"
    using r cs kept u p(1)
    by (auto simp: process_signal_parameters_def Let_def str_get_def split: if_splits)
  then show ?thesis using p(2) p(3) by simp
qed

lemma upper_long: "py_strip (py_upper ''long'') = ''LONG''"
  by code_simp

lemma process_signal_two_underscores:
  "process_signal_parameters signal_two_underscores
   = Inr \<lparr>sig_command = ''LONG'', sig_asset_symbol = ''BTCUSDT'', sig_interval = ''1h'',
          sig_bot_strategy = ''trend'', sig_bot_settings = ''follow_v2''\<rparr>"
  by (simp add: process_signal_parameters_def signal_two_underscores_def clean_signal_data_def
        is_placeholder_def startswith_def endswith_def str_get_def upper_long
        split_once_def Let_def)

theorem process_signal_splits_at_first_underscore_witness:
  "map_of signal_two_underscores ''botSettings'' = None
   \<and> map_of signal_two_underscores ''bot'' = Some ''trend_follow_v2''
   \<and> ''trend_follow_v2''
       = sig_bot_strategy (projr (process_signal_parameters signal_two_underscores)) @ ''_''
         @ sig_bot_settings (projr (process_signal_parameters signal_two_underscores))
   \<and> CHR ''_'' \<notin> set (sig_bot_strategy (projr (process_signal_parameters signal_two_underscores)))"
proof -
  have dk: "distinct (map fst signal_two_underscores)"
    by (simp add: signal_two_underscores_def)
  have ns: "map_of signal_two_underscores ''botSettings'' = None"
    by (simp add: signal_two_underscores_def)
  have b: "map_of signal_two_underscores ''bot'' = Some ''trend_follow_v2''"
    by (simp add: signal_two_underscores_def)
  have u: "CHR ''_'' \<in> set ''trend_follow_v2''" by simp
  show ?thesis
    using process_signal_splits_at_first_underscore[OF dk ns b u process_signal_two_underscores]
      ns b by (simp add: process_signal_two_underscores)
qed

text \<open>
  The split is \<^verbatim>\<open>bot_raw.split("_", 1)\<close>, so it is not on the last underscore: the bot name
  \<^verbatim>\<open>trend_follow_v2\<close> resolves to the strategy \<^verbatim>\<open>trend\<close> with the settings \<^verbatim>\<open>follow_v2\<close>, where
  the split on the last underscore gives \<^verbatim>\<open>trend_follow\<close> and \<^verbatim>\<open>v2\<close>.
\<close>

theorem process_signal_not_last_underscore:
  "sig_bot_strategy (projr (process_signal_parameters signal_two_underscores)) = ''trend''
   \<and> sig_bot_settings (projr (process_signal_parameters signal_two_underscores)) = ''follow_v2''
   \<and> split_at_last_underscore ''trend_follow_v2'' = (''trend_follow'', ''v2'')
   \<and> (sig_bot_strategy (projr (process_signal_parameters signal_two_underscores)),
       sig_bot_settings (projr (process_signal_parameters signal_two_underscores)))
      \<noteq> split_at_last_underscore ''trend_follow_v2''"
  by (simp add: process_signal_two_underscores split_at_last_underscore_def)

section \<open>Writing the positions file\<close>

lemma exec_ops_Cons: "exec_ops (x # xs) fs = exec_ops xs (exec_op x fs)"
  by (simp add: exec_ops_def)

lemma exec_ops_append: "exec_ops (xs @ ys) fs = exec_ops ys (exec_ops xs fs)"
  by (simp add: exec_ops_def)

lemma exec_appends:
  "fs f = Some c \<Longrightarrow> exec_ops (map (Append f) chunks) fs f = Some (c @ concat chunks)"
proof (induction chunks arbitrary: fs c)
  case Nil
  then show ?case by (simp add: exec_ops_def)
next
  case (Cons x xs)
  have e: "exec_op (Append f x) fs f = Some (c @ x)" using Cons.prems by simp
  have "exec_ops (map (Append f) (x # xs)) fs f
        = exec_ops (map (Append f) xs) (exec_op (Append f x) fs) f"
    by (simp only: list.map exec_ops_Cons)
  also have "\<dots> = Some ((c @ x) @ concat xs)"
    by (rule Cons.IH[of "exec_op (Append f x) fs" "c @ x", OF e])
  finally show ?case by simp
qed

lemma crash_states_nth:
  "n \<le> length ops \<Longrightarrow> exec_ops (take n ops) fs \<in> set (crash_states ops fs)"
proof -
  assume "n \<le> length ops"
  then have "n \<in> set [0 ..< Suc (length ops)]" by auto
  then have "(\<lambda>n. exec_ops (take n ops) fs) n
             \<in> set (map (\<lambda>n. exec_ops (take n ops) fs) [0 ..< Suc (length ops)])"
    unfolding set_map by (rule imageI)
  then show ?thesis by (simp only: crash_states_def)
qed

text \<open>
  C5 does not hold of the code. With the write lock, \<open>save_positions_transactional\<close> empties
  the positions file itself and then writes into it: when the file held something and the
  new content is not empty, a crash after the truncation leaves an empty file, which is
  neither the old content nor the new one.
\<close>

theorem save_positions_transactional_not_atomic:
  assumes "fs positions_file = Some old" and "old \<noteq> []" and "concat chunks \<noteq> []"
  shows "\<not> atomic_write
             (save_positions_transactional positions_file temp_file windows True chunks)
             fs positions_file"
proof -
  let ?ops = "Truncate positions_file # map (Append positions_file) chunks"
  have fin: "exec_ops ?ops fs positions_file = Some (concat chunks)"
    using exec_appends[of "exec_op (Truncate positions_file) fs" positions_file "[]" chunks]
    by (simp add: exec_ops_Cons)
  have "exec_ops (take 1 ?ops) fs \<in> set (crash_states ?ops fs)"
    by (rule crash_states_nth) simp
  moreover have "exec_ops (take 1 ?ops) fs positions_file = Some []"
    by (simp add: exec_ops_def)
  ultimately have "\<exists>s\<in>set (crash_states ?ops fs).
      \<not> (s positions_file = fs positions_file \<or> s positions_file = exec_ops ?ops fs positions_file)"
    using assms fin by (intro bexI[of _ "exec_ops (take 1 ?ops) fs"]) auto
  then show ?thesis
    by (simp add: atomic_write_def save_positions_transactional_def list_all_iff)
qed

lemma crash_states_positions_file:
  "map (\<lambda>s. s ''data/positions.json'')
     (crash_states
        (save_positions_transactional ''data/positions.json'' ''data/tmp1.json'' False True new_chunks)
        fs_old)
   = [Some ''{old}'', Some [], Some ''{'', Some ''{new'', Some ''{new}'']"
  by (simp add: crash_states_def save_positions_transactional_def new_chunks_def fs_old_def
        exec_ops_def upt_rec)

theorem save_positions_transactional_not_atomic_witness:
  "fs_old ''data/positions.json'' = Some ''{old}''
   \<and> concat new_chunks = ''{new}''
   \<and> \<not> atomic_write
         (save_positions_transactional ''data/positions.json'' ''data/tmp1.json'' False True new_chunks)
         fs_old ''data/positions.json''"
proof -
  have o: "fs_old ''data/positions.json'' = Some ''{old}''" by (simp add: fs_old_def)
  have c: "concat new_chunks = ''{new}''" by (simp add: new_chunks_def)
  have "''{old}'' \<noteq> []" and "concat new_chunks \<noteq> []" by (simp_all add: new_chunks_def)
  from save_positions_transactional_not_atomic[where fs = fs_old
        and positions_file = "''data/positions.json''" and old = "''{old}''"
        and chunks = new_chunks and temp_file = "''data/tmp1.json''" and windows = False, OF o this]
    o c show ?thesis by simp
qed

text \<open>
  The other path, through the temporary file, does what the specification asks (where the
  positions file is replaced in one step, that is, not on Windows).
\<close>

lemma exec_ops_other_file:
  "(\<forall>x\<in>set xs. x = Create t \<or> (\<exists>c. x = Append t c)) \<Longrightarrow> t \<noteq> f \<Longrightarrow> exec_ops xs fs f = fs f"
proof (induction xs arbitrary: fs)
  case Nil
  then show ?case by (simp add: exec_ops_def)
next
  case (Cons x xs)
  have "exec_op x fs f = fs f" using Cons.prems by auto
  moreover have "exec_ops xs (exec_op x fs) f = exec_op x fs f"
    using Cons.IH[of "exec_op x fs"] Cons.prems by simp
  ultimately show ?case by (simp add: exec_ops_Cons)
qed

lemma save_positions_with_tempfile_atomic:
  assumes "temp_file \<noteq> positions_file"
  shows "atomic_write (save_positions_with_tempfile positions_file temp_file False chunks)
           fs positions_file"
proof -
  define pre where "pre = Create temp_file # map (Append temp_file) chunks"
  define ops where "ops = pre @ [Replace temp_file positions_file]"
  have ops: "save_positions_with_tempfile positions_file temp_file False chunks = ops"
    by (simp add: save_positions_with_tempfile_def ops_def pre_def)
  have pre: "\<forall>x\<in>set pre. x = Create temp_file \<or> (\<exists>c. x = Append temp_file c)"
    by (auto simp: pre_def)
  have len: "length ops = Suc (length pre)" by (simp add: ops_def)
  have "\<forall>n\<in>set [0 ..< Suc (length ops)].
          exec_ops (take n ops) fs positions_file = fs positions_file
          \<or> exec_ops (take n ops) fs positions_file = exec_ops ops fs positions_file"
  proof
    fix n assume "n \<in> set [0 ..< Suc (length ops)]"
    then have n: "n \<le> length ops" by auto
    show "exec_ops (take n ops) fs positions_file = fs positions_file
          \<or> exec_ops (take n ops) fs positions_file = exec_ops ops fs positions_file"
    proof (cases "n \<le> length pre")
      case True
      then have "take n ops = take n pre" by (simp add: ops_def)
      moreover have "\<forall>x\<in>set (take n pre). x = Create temp_file \<or> (\<exists>c. x = Append temp_file c)"
        using pre by (auto dest!: in_set_takeD)
      ultimately show ?thesis
        using exec_ops_other_file[of "take n pre" temp_file positions_file fs] assms by simp
    next
      case False
      then have "n = length ops" using n len by simp
      then show ?thesis by simp
    qed
  qed
  then show ?thesis
    unfolding ops atomic_write_def crash_states_def list_all_iff by simp
qed

end
